(* ===== verification/Prelude.thy ===== *)
theory Prelude
  imports Main "HOL-Library.List_Lexorder" "HOL-Library.Char_ord" "HOL-Library.Product_Lexorder"
begin

text \<open>
  Shared vocabulary of the development: the result type of fallible code and its sequencing,
  Python's text helpers, and the relational layer (a table is the list of its rows in rowid
  order; \<open>upd_where\<close> is an SQL UPDATE, \<open>row_by\<close> a SELECT on a unique column, \<open>order_by\<close> an
  ORDER BY). The lemmas on the relational layer carry every repository proof, so they are
  collected in \<open>sql\<close> and, where they are safe rewrite rules, declared \<open>[simp]\<close>.
\<close>

named_theorems sql \<open>facts about tables and statements\<close>
named_theorems ops \<open>definitions of the repository operations\<close>

section \<open>Text\<close>

text \<open>Instants are microseconds since the epoch; durations are microseconds.\<close>

type_synonym time = int

definition second :: int where
  "second = 1000000"

text \<open>Python's \<open>str.strip\<close> and \<open>str.lower\<close> on ASCII text.\<close>

definition is_space :: "char \<Rightarrow> bool" where
  "is_space c = (let n = (of_char c :: nat) in (9 \<le> n \<and> n \<le> 13) \<or> (28 \<le> n \<and> n \<le> 32))"

definition strip :: "string \<Rightarrow> string" where
  "strip s = rev (dropWhile is_space (rev (dropWhile is_space s)))"

definition lower_char :: "char \<Rightarrow> char" where
  "lower_char c = (let n = (of_char c :: nat) in
     if 65 \<le> n \<and> n \<le> 90 then char_of (n + 32) else c)"

definition lower :: "string \<Rightarrow> string" where
  "lower s = map lower_char s"

definition replace_char :: "char \<Rightarrow> char \<Rightarrow> string \<Rightarrow> string" where
  "replace_char a b s = map (\<lambda>c. if c = a then b else c) s"

text \<open>Python's \<open>part in text\<close> on strings.\<close>

fun is_prefix :: "string \<Rightarrow> string \<Rightarrow> bool" where
  "is_prefix [] _ = True"
| "is_prefix (_ # _) [] = False"
| "is_prefix (a # as) (b # bs) = (a = b \<and> is_prefix as bs)"

fun contains :: "string \<Rightarrow> string \<Rightarrow> bool" where
  "contains part [] = (part = [])"
| "contains part (c # cs) = (is_prefix part (c # cs) \<or> contains part cs)"

lemma dropWhile_idem_hd: "dropWhile P (dropWhile P xs) = dropWhile P xs"
  by (induction xs) auto

lemma dropWhile_rev_fixed:
  "dropWhile P xs = xs \<Longrightarrow> dropWhile P (rev (dropWhile P (rev xs))) = rev (dropWhile P (rev xs))"
proof (cases "rev (dropWhile P (rev xs))")
  case Nil
  then show ?thesis by (simp del: rev_is_Nil_conv)
next
  case (Cons y ys)
  assume fixed: "dropWhile P xs = xs"
  obtain zs where "xs = rev (dropWhile P (rev xs)) @ zs"
    by (metis rev_append rev_rev_ident takeWhile_dropWhile_id)
  then obtain us where "xs = y # us" using Cons by auto
  with fixed have "\<not> P y" by (metis dropWhile_eq_Cons_conv)
  then show ?thesis using Cons by simp
qed

lemma strip_idem [simp]: "strip (strip s) = strip s"
  unfolding strip_def
  by (metis dropWhile_idem_hd dropWhile_rev_fixed rev_rev_ident)

lemma strip_Nil [simp]: "strip [] = []"
  by (simp add: strip_def)

section \<open>Fallible code\<close>

text \<open>Sequencing of fallible steps: the first error ends the computation.\<close>

definition and_then :: "'e + 'a \<Rightarrow> ('a \<Rightarrow> 'e + 'b) \<Rightarrow> 'e + 'b" where
  "and_then r k = (case r of Inl e \<Rightarrow> Inl e | Inr a \<Rightarrow> k a)"

lemma and_then_simps [simp]:
  "and_then (Inl e) k = Inl e"
  "and_then (Inr a) k = k a"
  by (simp_all add: and_then_def)

lemma and_then_Inr_iff: "and_then r k = Inr b \<longleftrightarrow> (\<exists>a. r = Inr a \<and> k a = Inr b)"
  by (cases r) auto

lemma and_then_Inl_iff:
  "and_then r k = Inl e \<longleftrightarrow> r = Inl e \<or> (\<exists>a. r = Inr a \<and> k a = Inl e)"
  by (cases r) auto

definition the_default :: "'a \<Rightarrow> 'a option \<Rightarrow> 'a" where
  "the_default d x = (case x of None \<Rightarrow> d | Some a \<Rightarrow> a)"

lemma the_default_simps [simp]: "the_default d None = d" "the_default d (Some a) = a"
  by (simp_all add: the_default_def)

lemma find_Some_member: "List.find P xs = Some x \<Longrightarrow> x \<in> set xs \<and> P x"
  by (auto simp: find_Some_iff)

section \<open>Tables\<close>

definition row_by :: "('r \<Rightarrow> 'k) \<Rightarrow> 'k \<Rightarrow> 'r list \<Rightarrow> 'r option" where
  "row_by key k rows = List.find (\<lambda>r. key r = k) rows"

definition upd_where :: "('r \<Rightarrow> bool) \<Rightarrow> ('r \<Rightarrow> 'r) \<Rightarrow> 'r list \<Rightarrow> 'r list" where
  "upd_where P f rows = map (\<lambda>r. if P r then f r else r) rows"

definition changes :: "('r \<Rightarrow> bool) \<Rightarrow> 'r list \<Rightarrow> nat" where
  "changes P rows = length (filter P rows)"

definition order_by :: "('r \<Rightarrow> 'k::linorder) \<Rightarrow> 'r list \<Rightarrow> 'r list" where
  "order_by k rows = sort_key k rows"

lemma row_by_Some [sql]: "row_by key k rows = Some r \<Longrightarrow> r \<in> set rows \<and> key r = k"
  by (auto simp: row_by_def find_Some_iff)

lemma row_by_SomeD: "row_by key k rows = Some r \<Longrightarrow> r \<in> set rows" and
  row_by_key: "row_by key k rows = Some r \<Longrightarrow> key r = k"
  by (auto dest: row_by_Some)

lemma row_by_None_iff [sql]: "row_by key k rows = None \<longleftrightarrow> k \<notin> key ` set rows"
  by (auto simp: row_by_def find_None_iff)

lemma row_by_Cons [simp]: "row_by key k (x # xs) = (if key x = k then Some x else row_by key k xs)"
  by (simp add: row_by_def)

lemma row_by_Nil [simp]: "row_by key k [] = None"
  by (simp add: row_by_def)

lemma row_by_distinct [sql]:
  "distinct (map key rows) \<Longrightarrow> r \<in> set rows \<Longrightarrow> row_by key (key r) rows = Some r"
  by (induction rows) (auto simp: row_by_def image_iff)

lemma row_by_append:
  "row_by key k (xs @ ys) = (case row_by key k xs of None \<Rightarrow> row_by key k ys | Some r \<Rightarrow> Some r)"
  by (induction xs) auto

lemma upd_where_Nil [simp]: "upd_where P f [] = []"
  and upd_where_Cons [simp]: "upd_where P f (x # xs) = (if P x then f x else x) # upd_where P f xs"
  by (simp_all add: upd_where_def)

lemma upd_where_append [simp]: "upd_where P f (xs @ ys) = upd_where P f xs @ upd_where P f ys"
  by (simp add: upd_where_def)

lemma set_upd_where: "set (upd_where P f rows) = (\<lambda>r. if P r then f r else r) ` set rows"
  by (simp add: upd_where_def)

lemma upd_whereE:
  assumes "r' \<in> set (upd_where P f rows)"
  obtains (Updated) r where "r \<in> set rows" "P r" "r' = f r"
  | (Kept) "r' \<in> set rows" "\<not> P r'"
  using assms by (auto simp: upd_where_def split: if_splits)

lemma length_upd_where [simp]: "length (upd_where P f rows) = length rows"
  by (simp add: upd_where_def)

lemma map_upd_where [sql]:
  "(\<And>r. P r \<Longrightarrow> g (f r) = g r) \<Longrightarrow> map g (upd_where P f rows) = map g rows"
  by (simp add: upd_where_def)

lemma upd_where_none [sql]: "(\<And>r. r \<in> set rows \<Longrightarrow> \<not> P r) \<Longrightarrow> upd_where P f rows = rows"
  by (induction rows) auto

lemma row_by_upd_where [sql]:
  "(\<And>r. P r \<Longrightarrow> key (f r) = key r) \<Longrightarrow>
   row_by key k (upd_where P f rows) = map_option (\<lambda>r. if P r then f r else r) (row_by key k rows)"
  by (induction rows) auto

lemma row_by_updated:
  "row_by key k rows = Some r \<Longrightarrow> P r \<Longrightarrow> (\<And>r. P r \<Longrightarrow> key (f r) = key r) \<Longrightarrow>
   row_by key k (upd_where P f rows) = Some (f r)"
  by (simp add: row_by_upd_where)

lemma keys_upd_where: "(\<And>r. P r \<Longrightarrow> key (f r) = key r) \<Longrightarrow> key ` set (upd_where P f rows) = key ` set rows"
  by (metis list.set_map map_upd_where)

text \<open>An UPDATE that hits one row.\<close>

lemma upd_where_single:
  "(\<And>r. r \<in> set rows \<Longrightarrow> P r \<longleftrightarrow> r = a) \<Longrightarrow> upd_where P f rows = upd_where (\<lambda>r. r = a) (\<lambda>_. f a) rows"
  by (auto simp: upd_where_def)

lemma upd_where_same: "upd_where (\<lambda>r. r = a) (\<lambda>_. a) rows = rows"
  by (induction rows) auto

lemma changes_Nil [simp]: "changes P [] = 0"
  and changes_Cons [simp]: "changes P (x # xs) = (if P x then Suc (changes P xs) else changes P xs)"
  by (simp_all add: changes_def)

lemma changes_0_iff [sql]: "changes P rows = 0 \<longleftrightarrow> (\<forall>r\<in>set rows. \<not> P r)"
  by (auto simp: changes_def filter_empty_conv)

text \<open>A statement whose WHERE clause pins a unique column touches at most one row.\<close>

lemma changes_unique [sql]:
  assumes "distinct (map key rows)"
  shows "changes (\<lambda>r. key r = k \<and> P r) rows =
    (case row_by key k rows of None \<Rightarrow> 0 | Some r \<Rightarrow> if P r then 1 else 0)"
  using assms
proof (induction rows)
  case Nil
  then show ?case by simp
next
  case (Cons x xs)
  show ?case
  proof (cases "key x = k")
    case True
    with Cons.prems have "\<forall>r\<in>set xs. \<not> (key r = k \<and> P r)" by (metis distinct.simps(2) image_eqI list.set_map list.simps(9))
    then have "changes (\<lambda>r. key r = k \<and> P r) xs = 0" by (simp add: changes_0_iff)
    with True show ?thesis by simp
  next
    case False
    with Cons show ?thesis by simp
  qed
qed

lemma set_order_by [simp]: "set (order_by k rows) = set rows"
  by (simp add: order_by_def)

lemma sorted_order_by [simp]: "sorted (map k (order_by k rows))"
  by (simp add: order_by_def)

lemma order_by_Nil [simp]: "order_by k [] = []"
  by (simp add: order_by_def)

lemma order_by_Nil_iff [simp]: "order_by k rows = [] \<longleftrightarrow> rows = []"
  by (metis order_by_def set_empty set_sort)

lemma length_order_by [simp]: "length (order_by k rows) = length rows"
  by (simp add: order_by_def)

text \<open>Columns that decide a table's invariant survive an UPDATE that does not write them.\<close>

lemma distinct_upd_where [sql]:
  "distinct (map g rows) \<Longrightarrow> (\<And>r. P r \<Longrightarrow> g (f r) = g r) \<Longrightarrow> distinct (map g (upd_where P f rows))"
  by (simp add: map_upd_where)

lemma upd_where_ball:
  "(\<forall>r\<in>set rows. Q r) \<Longrightarrow> (\<And>r. r \<in> set rows \<Longrightarrow> P r \<Longrightarrow> Q r \<Longrightarrow> Q (f r)) \<Longrightarrow>
   \<forall>r\<in>set (upd_where P f rows). Q r"
  by (auto simp: set_upd_where)

end
