(* ===== verification/Json_Values.thy ===== *)
theory Json_Values
  imports Prelude
begin

text \<open>
  JSON-compatible values as the stores keep them, Python's truth value and \<open>==\<close> on them, the
  canonical serialisation of \<open>runtime/repositories/records.py\<close> and the key-based secret
  redaction of \<open>core/redaction.py\<close>. A dict is the list of its items in insertion order.
  Floats are left out; where a session title carries one it is an opaque value. The text redaction
  (\<open>_redact_secret_text\<close>, regular expressions over one string and the process environment)
  is the parameter \<open>rt\<close> of \<open>redact_secrets\<close>.
\<close>

datatype json =
    JNull
  | JBool bool
  | JInt int
  | JStr string
  | JList "json list"
  | JObj "(string \<times> json) list"

fun is_mapping :: "json \<Rightarrow> bool" where
  "is_mapping (JObj _) = True"
| "is_mapping _ = False"

text \<open>Python's \<open>bool(value)\<close>.\<close>

fun truthy :: "json \<Rightarrow> bool" where
  "truthy JNull = False"
| "truthy (JBool b) = b"
| "truthy (JInt n) = (n \<noteq> 0)"
| "truthy (JStr s) = (s \<noteq> [])"
| "truthy (JList xs) = (xs \<noteq> [])"
| "truthy (JObj kvs) = (kvs \<noteq> [])"

text \<open>\<open>mapping.get(key)\<close> on a mapping; the items of a mapping.\<close>

fun items :: "json \<Rightarrow> (string \<times> json) list" where
  "items (JObj kvs) = kvs"
| "items _ = []"

definition jget :: "json \<Rightarrow> string \<Rightarrow> json option" where
  "jget j k = map_of (items j) k"

definition jget_mapping :: "json \<Rightarrow> string \<Rightarrow> json option" where
  "jget_mapping j k = (case jget j k of
     Some v \<Rightarrow> if is_mapping v then Some v else None
   | None \<Rightarrow> None)"

text \<open>
  \<open>str(value)\<close> of a scalar, as \<open>_optional_text\<close> applies it; the \<open>repr\<close> of a container is
  not modelled (no field of the code stores one where text is read).
\<close>

fun digit_char :: "nat \<Rightarrow> char" where
  "digit_char n = char_of (48 + n mod 10)"

fun show_nat :: "nat \<Rightarrow> string" where
  "show_nat n = (if n < 10 then [digit_char n] else show_nat (n div 10) @ [digit_char n])"

declare show_nat.simps [simp del]

definition show_int :: "int \<Rightarrow> string" where
  "show_int i = (if i < 0 then CHR ''-'' # show_nat (nat (- i)) else show_nat (nat i))"

text \<open>Item assignment \<open>d[k] = v\<close>: an existing key keeps its place.\<close>

definition jset :: "json \<Rightarrow> string \<Rightarrow> json \<Rightarrow> json" where
  "jset j k v = (if k \<in> fst ` set (items j) then JObj (map (\<lambda>kv. if fst kv = k then (k, v) else kv) (items j))
     else JObj (items j @ [(k, v)]))"

section \<open>Serialisation\<close>

text \<open>
  \<open>json.dumps(value, ensure_ascii=False, sort_keys=srt)\<close> with the given separators: strings are
  quoted with the two-character escapes and \<open>\u00XX\<close> for the remaining control characters,
  object keys are sorted by code point or kept in insertion order. \<open>canonical\<close> is the compact form that is hashed,
  \<open>json_text\<close> the form with the default separators that is stored.
\<close>

definition hex_digit :: "nat \<Rightarrow> char" where
  "hex_digit n = (if n < 10 then char_of (48 + n) else char_of (87 + n))"

definition escape_char :: "char \<Rightarrow> string" where
  "escape_char c = (let n = (of_char c :: nat) in
     if n = 34 then [char_of (92::nat), CHR 0x22]
     else if n = 92 then [char_of (92::nat), char_of (92::nat)]
     else if n = 10 then [char_of (92::nat), CHR ''n'']
     else if n = 13 then [char_of (92::nat), CHR ''r'']
     else if n = 9 then [char_of (92::nat), CHR ''t'']
     else if n = 12 then [char_of (92::nat), CHR ''f'']
     else if n = 8 then [char_of (92::nat), CHR ''b'']
     else if n < 32 then
       [char_of (92::nat), CHR ''u'', CHR ''0'', CHR ''0'', hex_digit (n div 16), hex_digit (n mod 16)]
     else [c])"

definition quote_string :: "string \<Rightarrow> string" where
  "quote_string s = [CHR 0x22] @ concat (map escape_char s) @ [CHR 0x22]"

fun join :: "string \<Rightarrow> string list \<Rightarrow> string" where
  "join sep [] = []"
| "join sep [x] = x"
| "join sep (x # y # xs) = x @ sep @ join sep (y # xs)"

lemma size_items [termination_simp]: "kv \<in> set kvs \<Longrightarrow> size (snd kv) < Suc (size_list (size_prod (\<lambda>_. 0) size) kvs)"
  by (cases kv) (auto simp: less_Suc_eq_le intro!: size_list_estimation')

function (sequential) dumps :: "bool \<Rightarrow> string \<Rightarrow> string \<Rightarrow> json \<Rightarrow> string" where
  "dumps srt isep ksep JNull = ''null''"
| "dumps srt isep ksep (JBool b) = (if b then ''true'' else ''false'')"
| "dumps srt isep ksep (JInt n) = show_int n"
| "dumps srt isep ksep (JStr s) = quote_string s"
| "dumps srt isep ksep (JList xs) = ''['' @ join isep (map (dumps srt isep ksep) xs) @ '']''"
| "dumps srt isep ksep (JObj kvs) = ''{'' @ join isep
     (map (\<lambda>kt. quote_string (fst kt) @ ksep @ snd kt)
       ((if srt then sort_key fst else id) (map (\<lambda>kv. (fst kv, dumps srt isep ksep (snd kv))) kvs))) @ ''}''"
  by pat_completeness auto
termination
  by (relation "measure (\<lambda>(_, _, _, j). size j)") (auto simp: size_items less_Suc_eq_le size_list_estimation')

definition canonical :: "json \<Rightarrow> string" where
  "canonical = dumps True '','' '':''"

definition json_text :: "json \<Rightarrow> string" where
  "json_text = dumps True '', '' '': ''"

section \<open>Redaction\<close>

definition SECRET_KEY_PARTS :: "string list" where
  "SECRET_KEY_PARTS = [''api_key'', ''apikey'', ''authorization'', ''cookie'', ''credentials'',
     ''password'', ''private_key'', ''secret'', ''token'']"

definition SAFE_NUMERIC_USAGE_KEYS :: "string list" where
  "SAFE_NUMERIC_USAGE_KEYS = [''cached_input_tokens'', ''cached_tokens'', ''completion_tokens'',
     ''input_tokens'', ''output_tokens'', ''prompt_tokens'', ''reasoning_output_tokens'',
     ''reasoning_tokens'', ''thoughts_tokens'', ''tool_tokens'', ''total_tokens'']"

definition SAFE_USAGE_DETAIL_KEYS :: "string list" where
  "SAFE_USAGE_DETAIL_KEYS = [''completion_tokens_details'', ''input_tokens_details'',
     ''output_tokens_details'', ''prompt_tokens_details'']"

definition REDACTED :: string where
  "REDACTED = ''<redacted>''"

fun is_safe_numeric_usage :: "string \<Rightarrow> json \<Rightarrow> bool" where
  "is_safe_numeric_usage key (JInt n) = (key \<in> set SAFE_NUMERIC_USAGE_KEYS \<and> 0 \<le> n)"
| "is_safe_numeric_usage key _ = False"

definition secret_key :: "string \<Rightarrow> bool" where
  "secret_key key = list_ex (\<lambda>part. contains part key) SECRET_KEY_PARTS"

function (sequential) redact_secrets :: "(string \<Rightarrow> string) \<Rightarrow> json \<Rightarrow> json" where
  "redact_secrets rt (JObj kvs) = JObj (map (\<lambda>kv.
     let key_text = lower (fst kv); item = snd kv in
     (fst kv,
      if is_safe_numeric_usage key_text item then item
      else if key_text \<in> set SAFE_USAGE_DETAIL_KEYS \<and> is_mapping item then redact_secrets rt (snd kv)
      else if secret_key key_text then JStr REDACTED
      else redact_secrets rt (snd kv))) kvs)"
| "redact_secrets rt (JList xs) = JList (map (redact_secrets rt) xs)"
| "redact_secrets rt (JStr s) = JStr (rt s)"
| "redact_secrets rt v = v"
  by pat_completeness auto
termination
  by (relation "measure (\<lambda>(_, j). size j)") (auto simp: size_items less_Suc_eq_le size_list_estimation')

end
