(* ===== verification/Models.thy ===== *)
theory Models
  imports Json_Values
begin

text \<open>
  The typed coordination models of \<open>runtime/models.py\<close>, the errors of
  \<open>runtime/repositories/errors.py\<close> and the value normalisation helpers of
  \<open>runtime/repositories/records.py\<close>. A dataclass is a record whose fields carry the prefix of
  their table (\<open>j_\<close> jobs, \<open>a_\<close> job_attempts, \<open>w_\<close> workers, \<open>e_\<close> harness_side_effects,
  \<open>o_\<close> runtime_outbox, \<open>n_\<close> native_processes, \<open>no_\<close> native_process_outputs); ISO-8601 UTC texts
  are instants.
\<close>

section \<open>Errors\<close>

datatype error =
    ValueError string
  | KeyError string
  | IntegrityError
  | RuntimeError string
  | TypeError string
  | SessionNotFoundError string
  | EventNotFoundError string
  | MessageNotFoundError string
  | StaleReadSnapshotError
  | IndexError
  | JobNotFoundError string
  | AttemptNotFoundError string
  | NativeProcessRecordNotFoundError string
  | RunNotFoundError string
  | IdempotencyConflictError
  | SideEffectConflictError string
  | SideEffectBlockedError
  | SideEffectNotFoundError string
  | ConcurrentUpdateError string
  | InvalidStateTransitionError string

type_synonym 'a result = "error + 'a"

section \<open>Status enumerations\<close>

datatype run_status = RunQueued | RunRunning | RunSucceeded | RunFailed | RunCanceled

datatype job_status =
    JobQueued | JobRunning | JobWaitingApproval | JobWaitingInput | JobRetryWait
  | JobSucceeded | JobFailed | JobCanceled

datatype attempt_status =
    AttemptClaimed | AttemptStarting | AttemptRunning
  | AttemptSucceeded | AttemptFailed | AttemptCanceled | AttemptInterrupted

datatype side_effect_status = EffectReserved | EffectCompleted

datatype approval_status =
    ApprovalPending | ApprovalApproved | ApprovalDenied | ApprovalExpired | ApprovalCanceled

fun run_status_value :: "run_status \<Rightarrow> string" where
  "run_status_value RunQueued = ''queued''"
| "run_status_value RunRunning = ''running''"
| "run_status_value RunSucceeded = ''succeeded''"
| "run_status_value RunFailed = ''failed''"
| "run_status_value RunCanceled = ''canceled''"

fun job_status_value :: "job_status \<Rightarrow> string" where
  "job_status_value JobQueued = ''queued''"
| "job_status_value JobRunning = ''running''"
| "job_status_value JobWaitingApproval = ''waiting_approval''"
| "job_status_value JobWaitingInput = ''waiting_input''"
| "job_status_value JobRetryWait = ''retry_wait''"
| "job_status_value JobSucceeded = ''succeeded''"
| "job_status_value JobFailed = ''failed''"
| "job_status_value JobCanceled = ''canceled''"

fun attempt_status_value :: "attempt_status \<Rightarrow> string" where
  "attempt_status_value AttemptClaimed = ''claimed''"
| "attempt_status_value AttemptStarting = ''starting''"
| "attempt_status_value AttemptRunning = ''running''"
| "attempt_status_value AttemptSucceeded = ''succeeded''"
| "attempt_status_value AttemptFailed = ''failed''"
| "attempt_status_value AttemptCanceled = ''canceled''"
| "attempt_status_value AttemptInterrupted = ''interrupted''"

fun approval_status_value :: "approval_status \<Rightarrow> string" where
  "approval_status_value ApprovalPending = ''pending''"
| "approval_status_value ApprovalApproved = ''approved''"
| "approval_status_value ApprovalDenied = ''denied''"
| "approval_status_value ApprovalExpired = ''expired''"
| "approval_status_value ApprovalCanceled = ''canceled''"

text \<open>\<open>TERMINAL_*_STATUSES\<close>.\<close>

definition terminal_run :: "run_status \<Rightarrow> bool" where
  "terminal_run st = (st \<in> {RunSucceeded, RunFailed, RunCanceled})"

definition terminal_job :: "job_status \<Rightarrow> bool" where
  "terminal_job st = (st \<in> {JobSucceeded, JobFailed, JobCanceled})"

definition terminal_attempt :: "attempt_status \<Rightarrow> bool" where
  "terminal_attempt st = (st \<in> {AttemptSucceeded, AttemptFailed, AttemptCanceled, AttemptInterrupted})"

lemma terminal_simps [simp]:
  "terminal_run RunSucceeded" "terminal_run RunFailed" "terminal_run RunCanceled"
  "\<not> terminal_run RunQueued" "\<not> terminal_run RunRunning"
  "terminal_job JobSucceeded" "terminal_job JobFailed" "terminal_job JobCanceled"
  "\<not> terminal_job JobQueued" "\<not> terminal_job JobRunning" "\<not> terminal_job JobWaitingApproval"
  "\<not> terminal_job JobWaitingInput" "\<not> terminal_job JobRetryWait"
  "terminal_attempt AttemptSucceeded" "terminal_attempt AttemptFailed"
  "terminal_attempt AttemptCanceled" "terminal_attempt AttemptInterrupted"
  "\<not> terminal_attempt AttemptClaimed" "\<not> terminal_attempt AttemptStarting"
  "\<not> terminal_attempt AttemptRunning"
  by (simp_all add: terminal_run_def terminal_job_def terminal_attempt_def)

text \<open>An enum's constructor call \<open>E(text)\<close>: the member with that value, else ValueError.\<close>

definition enum_of :: "('e \<Rightarrow> string) \<Rightarrow> 'e list \<Rightarrow> string \<Rightarrow> 'e result" where
  "enum_of value members text = (case List.find (\<lambda>m. value m = text) members of
     None \<Rightarrow> Inl (ValueError text) | Some m \<Rightarrow> Inr m)"

definition RUN_STATUSES :: "run_status list" where
  "RUN_STATUSES = [RunQueued, RunRunning, RunSucceeded, RunFailed, RunCanceled]"

definition JOB_STATUSES :: "job_status list" where
  "JOB_STATUSES = [JobQueued, JobRunning, JobWaitingApproval, JobWaitingInput, JobRetryWait,
     JobSucceeded, JobFailed, JobCanceled]"

definition ATTEMPT_STATUSES :: "attempt_status list" where
  "ATTEMPT_STATUSES = [AttemptClaimed, AttemptStarting, AttemptRunning, AttemptSucceeded,
     AttemptFailed, AttemptCanceled, AttemptInterrupted]"

definition RUN_STATUS_ALIASES :: "(string \<times> run_status) list" where
  "RUN_STATUS_ALIASES = [(''cancelled'', RunCanceled), (''completed'', RunSucceeded),
     (''done'', RunSucceeded), (''error'', RunFailed), (''in_progress'', RunRunning),
     (''pending'', RunQueued), (''started'', RunRunning), (''stopped'', RunCanceled),
     (''success'', RunSucceeded)]"

text \<open>\<open>parse_run_status(value)\<close> on text: \<open>value or "queued"\<close>, stripped, lower case, \<open>-\<close> as \<open>_\<close>.\<close>

definition parse_run_status :: "string \<Rightarrow> run_status result" where
  "parse_run_status value =
     (let normalized = replace_char CHR ''-'' CHR ''_'' (lower (strip (if value = [] then ''queued'' else value)))
      in case map_of RUN_STATUS_ALIASES normalized of
           Some alias \<Rightarrow> Inr alias
         | None \<Rightarrow> enum_of run_status_value RUN_STATUSES normalized)"

definition parse_job_status :: "string \<Rightarrow> job_status result" where
  "parse_job_status value = enum_of job_status_value JOB_STATUSES (lower (strip value))"

definition parse_attempt_status :: "string \<Rightarrow> attempt_status result" where
  "parse_attempt_status value = enum_of attempt_status_value ATTEMPT_STATUSES (lower (strip value))"

section \<open>Records\<close>

record job =
  j_id :: string
  j_origin :: string
  j_idempotency_key_hash :: string
  j_status :: job_status
  j_session_id :: string
  j_user_message_id :: string
  j_initial_run_id :: string
  j_created_at :: time
  j_updated_at :: time
  j_project_id :: "string option"
  j_workflow_id :: "string option"
  j_workflow_version :: "string option"
  j_schedule_id :: "string option"
  j_agent_id :: "string option"
  j_available_at :: "time option"
  j_terminal_at :: "time option"
  j_cancel_requested_at :: "time option"
  j_max_attempts :: int
  j_priority :: int
  j_version :: int
  j_error_summary :: "string option"
  j_required_harness_id :: "string option"
  j_required_fingerprint :: json
  j_required_os :: "string option"
  j_timeout :: "int option"
  j_approval_request_id :: "string option"

record attempt =
  a_id :: string
  a_job_id :: string
  a_number :: int
  a_status :: attempt_status
  a_run_id :: string
  a_created_at :: time
  a_updated_at :: time
  a_lease_owner :: "string option"
  a_leased_until :: "time option"
  a_heartbeat_at :: "time option"
  a_started_at :: "time option"
  a_finished_at :: "time option"
  a_process_id :: "int option"
  a_process_group_id :: "int option"
  a_retry_reason :: "string option"
  a_idempotency_class :: string
  a_error_summary :: "string option"
  a_fingerprint :: json
  a_version :: int

record side_effect =
  e_id :: string
  e_job_id :: string
  e_token_hash :: string
  e_operation :: string
  e_intent_hash :: string
  e_status :: side_effect_status
  e_owner_attempt_id :: string
  e_evidence :: json
  e_evidence_hash :: "string option"
  e_created_at :: time
  e_updated_at :: time
  e_completed_at :: "time option"

record worker =
  w_id :: string
  w_process_id :: int
  w_hostname :: string
  w_status :: string
  w_started_at :: time
  w_heartbeat_at :: time
  w_stopped_at :: "time option"
  w_fingerprint :: json

record outbox_entry =
  o_id :: string
  o_aggregate_type :: string
  o_aggregate_id :: string
  o_event_type :: string
  o_dedupe_key :: string
  o_payload :: json
  o_created_at :: time
  o_processed_at :: "time option"
  o_attempt_count :: int
  o_last_error :: "string option"

record native_process =
  n_id :: string
  n_owner_id :: string
  n_owner_process_id :: int
  n_session_id :: string
  n_run_id :: string
  n_harness_id :: string
  n_status :: string
  n_process_id :: "int option"
  n_process_group_id :: "int option"
  n_transport :: string
  n_ref :: json
  n_started_at :: time
  n_updated_at :: time
  n_heartbeat_at :: time
  n_leased_until :: time
  n_timeout_at :: "time option"
  n_cancel_requested_at :: "time option"
  n_finished_at :: "time option"
  n_terminal_cursor :: int
  n_recovery_outcome :: "string option"
  n_version :: int

record native_output =
  no_process_id :: string
  no_cursor :: int
  no_stream :: string
  no_text :: string
  no_created_at :: time

section \<open>Value normalisation\<close>

text \<open>
  What the code takes from outside the repository or from a library it does not own: the text
  redaction and SHA-256. Clock readings and \<open>uuid4\<close> values are arguments of the operations
  that draw them (\<open>now\<close>, \<open>uuid\<close>).
\<close>

record env =
  redact_text :: "string \<Rightarrow> string"
  sha256 :: "string \<Rightarrow> string"
  iso_text :: "time \<Rightarrow> string"

definition redact_for_storage :: "env \<Rightarrow> json \<Rightarrow> json" where
  "redact_for_storage E v = redact_secrets (redact_text E) v"

definition required_text :: "string \<Rightarrow> string \<Rightarrow> string result" where
  "required_text value name =
     (let text = strip value in if text = [] then Inl (ValueError (name @ '' is required'')) else Inr text)"

definition optional_text :: "string option \<Rightarrow> string option" where
  "optional_text value = (case value of
     None \<Rightarrow> None
   | Some v \<Rightarrow> (let text = strip v in if text = [] then None else Some text))"

text \<open>\<open>_optional_text\<close> of a JSON scalar read from a mapping.\<close>

fun optional_json_text :: "json option \<Rightarrow> string option" where
  "optional_json_text None = None"
| "optional_json_text (Some JNull) = None"
| "optional_json_text (Some (JStr s)) = optional_text (Some s)"
| "optional_json_text (Some (JBool b)) = Some (if b then ''True'' else ''False'')"
| "optional_json_text (Some (JInt n)) = Some (show_int n)"
| "optional_json_text (Some j) = Some (canonical j)"

definition safe_optional_text :: "env \<Rightarrow> string option \<Rightarrow> string option" where
  "safe_optional_text E value = (case optional_text value of
     None \<Rightarrow> None
   | Some text \<Rightarrow> Some (take 4000 (redact_text E text)))"

definition new_id :: "string \<Rightarrow> string \<Rightarrow> string" where
  "new_id prefix uuid = prefix @ ''_'' @ uuid"

definition future_time :: "time \<Rightarrow> int \<Rightarrow> time" where
  "future_time now seconds = now + seconds"

definition idempotency_hash :: "env \<Rightarrow> string \<Rightarrow> string result" where
  "idempotency_hash E value =
     and_then (required_text value ''idempotency_key'') (\<lambda>text. Inr (sha256 E text))"

definition opaque_token_hash :: "env \<Rightarrow> string \<Rightarrow> string result" where
  "opaque_token_hash E value =
     and_then (required_text value ''side_effect_token'') (\<lambda>text. Inr (sha256 E text))"

definition mapping_hash :: "env \<Rightarrow> json \<Rightarrow> string" where
  "mapping_hash E value = sha256 E (canonical value)"

definition safe_mapping :: "env \<Rightarrow> json \<Rightarrow> string \<Rightarrow> json result" where
  "safe_mapping E value name =
     (if is_mapping value then Inr (redact_for_storage E value)
      else Inl (ValueError (name @ '' must be a mapping'')))"

definition retry_safe :: "string \<Rightarrow> bool" where
  "retry_safe value =
     (value \<in> {''read_only'', ''safe_retry'', ''deterministic'', ''structured_recoverable''})"

lemma optional_text_idem [simp]: "optional_text (optional_text v) = optional_text v"
  by (auto simp: optional_text_def Let_def split: option.splits)

lemma required_text_Inr: "required_text v name = Inr t \<longleftrightarrow> t = strip v \<and> strip v \<noteq> []"
  by (auto simp: required_text_def Let_def)

lemma required_text_strip: "required_text v name = Inr t \<Longrightarrow> strip t = t"
  by (auto simp: required_text_Inr)

lemma safe_optional_text_bound: "safe_optional_text E v = Some t \<Longrightarrow> length t \<le> 4000"
  by (auto simp: safe_optional_text_def split: option.splits)

lemma enum_of_value:
  "inj_on value (set members) \<Longrightarrow> m \<in> set members \<Longrightarrow> enum_of value members (value m) = Inr m"
  by (induction members) (auto simp: enum_of_def inj_on_def)

lemma enum_of_Inr: "enum_of value members text = Inr m \<Longrightarrow> value m = text \<and> m \<in> set members"
  by (auto simp: enum_of_def find_Some_iff split: option.splits)

end
