(* ===== verification/Policy.thy ===== *)
theory Policy
  imports Models
begin

text \<open>
  The permission policy of \<open>runtime/policy.py\<close>: the action taxonomy, the built-in profiles, the
  records of approvals, grants and audit events, and the policy engine, stated over the narrow
  storage interface (\<open>GrantStore\<close>) the code gives it. The interface is the locale
  \<open>grant_store\<close>; the approvals repository provides it.
\<close>

section \<open>Taxonomy\<close>

datatype permission_action =
    WORKSPACE_READ | WORKSPACE_WRITE | PROCESS_SPAWN | NETWORK_CONNECT | MCP_SERVER_START
  | MCP_TOOL_CALL | GIT_COMMIT | GIT_PUSH | GITHUB_PULL_REQUEST_CREATE | GIT_APPLY
  | GIT_BRANCH_CREATE | EXTERNAL_WRITE | SCHEDULE_CREATE | SCHEDULE_ENABLE | SCHEDULE_RUN_NOW
  | SCHEDULE_UNATTENDED_EDIT

fun action_value :: "permission_action \<Rightarrow> string" where
  "action_value WORKSPACE_READ = ''workspace.read''"
| "action_value WORKSPACE_WRITE = ''workspace.write''"
| "action_value PROCESS_SPAWN = ''process.spawn''"
| "action_value NETWORK_CONNECT = ''network.connect''"
| "action_value MCP_SERVER_START = ''mcp.server.start''"
| "action_value MCP_TOOL_CALL = ''mcp.tool.call''"
| "action_value GIT_COMMIT = ''git.commit''"
| "action_value GIT_PUSH = ''git.push''"
| "action_value GITHUB_PULL_REQUEST_CREATE = ''github.pull_request.create''"
| "action_value GIT_APPLY = ''git.apply''"
| "action_value GIT_BRANCH_CREATE = ''git.branch.create''"
| "action_value EXTERNAL_WRITE = ''external.write''"
| "action_value SCHEDULE_CREATE = ''schedule.create''"
| "action_value SCHEDULE_ENABLE = ''schedule.enable''"
| "action_value SCHEDULE_RUN_NOW = ''schedule.run_now''"
| "action_value SCHEDULE_UNATTENDED_EDIT = ''schedule.unattended_edit''"

datatype policy_decision = ALLOW | DENY | ASK

fun policy_decision_value :: "policy_decision \<Rightarrow> string" where
  "policy_decision_value ALLOW = ''allow''"
| "policy_decision_value DENY = ''deny''"
| "policy_decision_value ASK = ''ask''"

datatype enforcement_level =
  ENFORCED_BY_HARNESS | DELEGATED_TO_CLI_SANDBOX | ADVISORY_OR_UNOBSERVABLE

fun enforcement_value :: "enforcement_level \<Rightarrow> string" where
  "enforcement_value ENFORCED_BY_HARNESS = ''enforced_by_harness''"
| "enforcement_value DELEGATED_TO_CLI_SANDBOX = ''delegated_to_cli_sandbox''"
| "enforcement_value ADVISORY_OR_UNOBSERVABLE = ''advisory_or_unobservable''"

datatype approval_decision = ALLOW_ONCE | ALLOW_RUN | ALLOW_SESSION | ALLOW_PROJECT | DENY_APPROVAL

fun approval_decision_value :: "approval_decision \<Rightarrow> string" where
  "approval_decision_value ALLOW_ONCE = ''allow_once''"
| "approval_decision_value ALLOW_RUN = ''allow_run''"
| "approval_decision_value ALLOW_SESSION = ''allow_session''"
| "approval_decision_value ALLOW_PROJECT = ''allow_project''"
| "approval_decision_value DENY_APPROVAL = ''deny''"

datatype audit_phase = RESOLUTION | DECISION | ENFORCEMENT

fun audit_phase_value :: "audit_phase \<Rightarrow> string" where
  "audit_phase_value RESOLUTION = ''resolution''"
| "audit_phase_value DECISION = ''decision''"
| "audit_phase_value ENFORCEMENT = ''enforcement''"

section \<open>Profiles and resolutions\<close>

record permission_profile =
  pp_id :: string
  pp_rules :: "(permission_action \<times> policy_decision) list"
  pp_default :: policy_decision

definition decision_for :: "permission_profile \<Rightarrow> permission_action \<Rightarrow> policy_decision" where
  "decision_for p a = (case map_of (pp_rules p) a of Some d \<Rightarrow> d | None \<Rightarrow> pp_default p)"

record policy_context =
  pc_project_id :: "string option"
  pc_session_id :: "string option"
  pc_run_id :: "string option"
  pc_job_id :: "string option"
  pc_reason :: string
  pc_preview :: "json option"
  pc_approval_binding :: "string option"
  pc_enforcement_owner :: "string option"

record policy_resolution =
  pr_action :: permission_action
  pr_decision :: policy_decision
  pr_enforcement :: enforcement_level
  pr_source :: string

record approval_request =
  r_id :: string
  r_action :: permission_action
  r_status :: approval_status
  r_enforcement :: enforcement_level
  r_policy_source :: string
  r_enforcement_owner :: "string option"
  r_reason :: string
  r_preview :: json
  r_created_at :: time
  r_expires_at :: "time option"
  r_decided_at :: "time option"
  r_decision :: "approval_decision option"
  r_project_id :: "string option"
  r_session_id :: "string option"
  r_run_id :: "string option"
  r_job_id :: "string option"
  r_dedupe_key :: string

record approval_grant =
  g_id :: string
  g_request_id :: string
  g_action :: permission_action
  g_scope_type :: string
  g_scope_id :: string
  g_created_at :: time
  g_expires_at :: "time option"
  g_uses_remaining :: "int option"

record audit_event =
  v_id :: string
  v_operation_id :: string
  v_sequence :: int
  v_action :: permission_action
  v_phase :: audit_phase
  v_decision :: string
  v_enforcement :: enforcement_level
  v_enforcement_owner :: string
  v_policy_source :: string
  v_approval_request_id :: string
  v_approval_grant_id :: "string option"
  v_binding :: "string option"
  v_project_id :: "string option"
  v_session_id :: "string option"
  v_run_id :: "string option"
  v_job_id :: "string option"
  v_evidence :: json
  v_previous_sha256 :: "string option"
  v_event_sha256 :: string
  v_created_at :: time

definition INTERACTIVE_PROFILE :: permission_profile where
  "INTERACTIVE_PROFILE = \<lparr>pp_id = ''interactive'',
     pp_rules = [(WORKSPACE_READ, ALLOW), (WORKSPACE_WRITE, ALLOW), (PROCESS_SPAWN, ALLOW),
       (NETWORK_CONNECT, ASK), (MCP_SERVER_START, ASK), (MCP_TOOL_CALL, ASK), (GIT_COMMIT, ASK),
       (GIT_PUSH, ASK), (GITHUB_PULL_REQUEST_CREATE, ASK), (GIT_APPLY, ASK),
       (GIT_BRANCH_CREATE, ASK), (EXTERNAL_WRITE, ASK), (SCHEDULE_CREATE, ASK),
       (SCHEDULE_ENABLE, ASK), (SCHEDULE_RUN_NOW, ASK), (SCHEDULE_UNATTENDED_EDIT, DENY)],
     pp_default = ASK\<rparr>"

definition REVIEW_EVERY_ACTION_PROFILE :: permission_profile where
  "REVIEW_EVERY_ACTION_PROFILE = \<lparr>pp_id = ''review_every_action'',
     pp_rules = [(WORKSPACE_READ, ALLOW), (PROCESS_SPAWN, ASK)],
     pp_default = ASK\<rparr>"

definition UNATTENDED_PROFILE :: permission_profile where
  "UNATTENDED_PROFILE = \<lparr>pp_id = ''unattended'',
     pp_rules = [(WORKSPACE_READ, ALLOW), (PROCESS_SPAWN, ALLOW), (WORKSPACE_WRITE, ASK),
       (NETWORK_CONNECT, ASK), (SCHEDULE_UNATTENDED_EDIT, ASK)],
     pp_default = DENY\<rparr>"

definition PROFILES :: "(string \<times> permission_profile) list" where
  "PROFILES = map (\<lambda>p. (pp_id p, p)) [INTERACTIVE_PROFILE, REVIEW_EVERY_ACTION_PROFILE, UNATTENDED_PROFILE]"

text \<open>\<open>permission_profile(value, origin)\<close>: \<open>value\<close> is text or missing, empty text counts as missing.\<close>

definition select_profile :: "string option \<Rightarrow> string \<Rightarrow> permission_profile result" where
  "select_profile value origin =
     (let default_id = (if origin \<notin> {''manual'', ''interactive''} then ''unattended'' else ''interactive'');
          chosen = (case value of None \<Rightarrow> default_id | Some v \<Rightarrow> if v = [] then default_id else v);
          profile_id = replace_char CHR ''-'' CHR ''_'' (lower (strip chosen))
      in case map_of PROFILES profile_id of
           Some p \<Rightarrow> Inr p
         | None \<Rightarrow> Inl (ValueError (''unknown permission profile: '' @ profile_id)))"

text \<open>A bounded redacted preview: the first forty items of the redacted mapping.\<close>

definition redacted_policy_preview :: "env \<Rightarrow> json option \<Rightarrow> json" where
  "redacted_policy_preview E value =
     JObj (take 40 (items (redact_for_storage E (JObj (case value of None \<Rightarrow> [] | Some v \<Rightarrow> items v)))))"

definition approval_binding_digest :: "env \<Rightarrow> string \<Rightarrow> string result" where
  "approval_binding_digest E value =
     (let text = strip value in
      if text = [] then Inl (ValueError ''approval_binding must not be empty'') else Inr (sha256 E text))"

section \<open>The policy engine over its grant store\<close>

text \<open>
  The arguments \<open>consume_matching_approval_grant\<close> takes, and \<open>PolicyEngine.resolve\<close> over a
  store that implements it: the store is absent (\<open>None\<close>) or an operation on the state.
\<close>

record grant_query =
  gq_action :: permission_action
  gq_project_id :: "string option"
  gq_session_id :: "string option"
  gq_run_id :: "string option"
  gq_job_id :: "string option"
  gq_approval_binding :: "string option"
  gq_enforcement_owner :: "string option"

definition query_of :: "permission_action \<Rightarrow> policy_context \<Rightarrow> grant_query" where
  "query_of action context = \<lparr>gq_action = action, gq_project_id = pc_project_id context,
     gq_session_id = pc_session_id context, gq_run_id = pc_run_id context,
     gq_job_id = pc_job_id context, gq_approval_binding = pc_approval_binding context,
     gq_enforcement_owner = pc_enforcement_owner context\<rparr>"

definition resolve_policy ::
    "(grant_query \<Rightarrow> 's \<Rightarrow> bool result \<times> 's) option \<Rightarrow> permission_action \<Rightarrow> permission_profile
     \<Rightarrow> policy_context \<Rightarrow> enforcement_level \<Rightarrow> bool \<Rightarrow> 's \<Rightarrow> policy_resolution result \<times> 's" where
  "resolve_policy grant_store action profile context enforcement consume_grant s =
     (let fallback = \<lparr>pr_action = action, pr_decision = decision_for profile action,
            pr_enforcement = enforcement, pr_source = ''profile:'' @ pp_id profile\<rparr>
      in case grant_store of
           None \<Rightarrow> (Inr fallback, s)
         | Some consume \<Rightarrow>
             if consume_grant then
               (case consume (query_of action context) s of
                  (Inl e, s') \<Rightarrow> (Inl e, s')
                | (Inr granted, s') \<Rightarrow>
                    if granted then
                      (Inr \<lparr>pr_action = action, pr_decision = ALLOW, pr_enforcement = enforcement,
                            pr_source = ''approval_grant''\<rparr>, s')
                    else (Inr fallback, s'))
             else (Inr fallback, s))"

text \<open>
  The contract of a grant store: in a state with its invariant \<open>ok\<close>, a query that is not granted
  leaves the state alone, a query is granted exactly when a stored grant covers it
  (\<open>covers s q\<close>), and the invariant is kept. The client lemmas need nothing else about the store.
\<close>

locale grant_store =
  fixes consume :: "grant_query \<Rightarrow> 's \<Rightarrow> bool result \<times> 's"
    and covers :: "'s \<Rightarrow> grant_query \<Rightarrow> bool"
    and ok :: "'s \<Rightarrow> bool"
  assumes refused_keeps: "ok s \<Longrightarrow> consume q s = (Inr False, s') \<Longrightarrow> s' = s"
    and error_keeps: "ok s \<Longrightarrow> consume q s = (Inl e, s') \<Longrightarrow> s' = s"
    and granted_covered: "ok s \<Longrightarrow> consume q s = (Inr True, s') \<Longrightarrow> covers s q"
    and keeps_ok: "ok s \<Longrightarrow> ok (snd (consume q s))"
begin

lemma resolve_keeps_ok:
  "ok s \<Longrightarrow> ok (snd (resolve_policy (Some consume) a p c l consume_grant s))"
  using keeps_ok[of s "query_of a c"]
  by (auto simp: resolve_policy_def Let_def split: prod.splits sum.splits)

lemma resolve_allow_source:
  assumes "ok s" "resolve_policy (Some consume) a p c l True s = (Inr r, s')" "pr_decision r = ALLOW"
  shows "decision_for p a = ALLOW \<or> covers s (query_of a c)"
  using assms granted_covered[of s "query_of a c"]
  by (auto simp: resolve_policy_def Let_def split: prod.splits sum.splits if_splits)

lemma resolve_without_grant:
  assumes "ok s" "\<not> covers s (query_of a c)"
  shows "(\<exists>e. resolve_policy (Some consume) a p c l True s = (Inl e, s)) \<or>
    resolve_policy (Some consume) a p c l True s = (Inr \<lparr>pr_action = a,
      pr_decision = decision_for p a, pr_enforcement = l, pr_source = ''profile:'' @ pp_id p\<rparr>, s)"
proof (cases "consume (query_of a c) s")
  case (Pair res s')
  show ?thesis
  proof (cases res)
    case (Inl e)
    with Pair error_keeps[OF assms(1), of "query_of a c" e s'] show ?thesis
      by (simp add: resolve_policy_def Let_def)
  next
    case (Inr granted)
    with Pair assms granted_covered[OF assms(1), of "query_of a c" s'] have "\<not> granted" by auto
    with Pair Inr refused_keeps[OF assms(1), of "query_of a c" s'] show ?thesis
      by (simp add: resolve_policy_def Let_def)
  qed
qed

end

lemma decision_for_interactive:
  "decision_for INTERACTIVE_PROFILE a =
    (if a \<in> {WORKSPACE_READ, WORKSPACE_WRITE, PROCESS_SPAWN} then ALLOW
     else if a = SCHEDULE_UNATTENDED_EDIT then DENY else ASK)"
  by (cases a) (simp_all add: decision_for_def INTERACTIVE_PROFILE_def)

lemma decision_for_unattended:
  "decision_for UNATTENDED_PROFILE a =
    (if a \<in> {WORKSPACE_READ, PROCESS_SPAWN} then ALLOW
     else if a \<in> {WORKSPACE_WRITE, NETWORK_CONNECT, SCHEDULE_UNATTENDED_EDIT} then ASK else DENY)"
  by (cases a) (simp_all add: decision_for_def UNATTENDED_PROFILE_def)

lemma decision_for_review:
  "decision_for REVIEW_EVERY_ACTION_PROFILE a = (if a = WORKSPACE_READ then ALLOW else ASK)"
  by (cases a) (simp_all add: decision_for_def REVIEW_EVERY_ACTION_PROFILE_def)

lemma select_profile_builtin:
  "select_profile v ori = Inr p \<Longrightarrow>
    p \<in> {INTERACTIVE_PROFILE, REVIEW_EVERY_ACTION_PROFILE, UNATTENDED_PROFILE}"
  by (auto simp: select_profile_def Let_def PROFILES_def split: option.splits if_splits)

end
