(* ===== verification/Coordination_Db.thy ===== *)
theory Coordination_Db
  imports Policy
begin

text \<open>
  The coordination database of \<open>runtime/db/schema.py\<close> at its current version: one list of rows
  per table in rowid order, the INSERT statements with the constraints the schema declares
  (PRIMARY KEY, UNIQUE, CHECK, REFERENCES), the UPDATE statements with the
  \<open>runs_center_revision_*\<close> triggers, and immediate transactions. \<open>wakes\<close> counts the wake-up
  signals sent to the local workers (\<open>wake_workers\<close>), which are not database state.
\<close>

section \<open>State\<close>

record schedule_state =
  s_enabled :: bool
  s_status :: string
  s_next_run_at :: "time option"

record store =
  jobs :: "job list"
  attempts :: "attempt list"
  workers :: "worker list"
  requests :: "approval_request list"
  grants :: "approval_grant list"
  audit :: "audit_event list"
  effects :: "side_effect list"
  outbox :: "outbox_entry list"
  natives :: "native_process list"
  outputs :: "native_output list"
  traces :: "(string \<times> int) list"
  attention :: "(string \<times> time) list"
  schedules :: "schedule_state list"
  revision :: int
  wakes :: nat

definition empty_store :: store where
  "empty_store = \<lparr>jobs = [], attempts = [], workers = [], requests = [], grants = [], audit = [],
     effects = [], outbox = [], natives = [], outputs = [], traces = [], attention = [],
     schedules = [], revision = 0, wakes = 0\<rparr>"

section \<open>Statements\<close>

text \<open>The revision grows by one for each row a trigger fires on.\<close>

definition bump :: "nat \<Rightarrow> store \<Rightarrow> store" where
  "bump n s = s\<lparr>revision := revision s + int n\<rparr>"

lemma bump_simps [simp]:
  "jobs (bump n s) = jobs s"
  "attempts (bump n s) = attempts s"
  "workers (bump n s) = workers s"
  "requests (bump n s) = requests s"
  "grants (bump n s) = grants s"
  "audit (bump n s) = audit s"
  "effects (bump n s) = effects s"
  "outbox (bump n s) = outbox s"
  "natives (bump n s) = natives s"
  "outputs (bump n s) = outputs s"
  "traces (bump n s) = traces s"
  "attention (bump n s) = attention s"
  "schedules (bump n s) = schedules s"
  "wakes (bump n s) = wakes s"
  "revision (bump n s) = revision s + int n"
  by (simp_all add: bump_def)

definition job_key :: "job \<Rightarrow> string \<times> string" where
  "job_key j = (j_origin j, j_idempotency_key_hash j)"

definition insert_job :: "job \<Rightarrow> store \<Rightarrow> store result" where
  "insert_job j s =
     (if j_id j \<in> j_id ` set (jobs s) \<or> job_key j \<in> job_key ` set (jobs s) \<or> j_max_attempts j \<le> 0
      then Inl IntegrityError
      else Inr (bump 1 (s\<lparr>jobs := jobs s @ [j]\<rparr>)))"

definition update_jobs :: "(job \<Rightarrow> bool) \<Rightarrow> (job \<Rightarrow> job) \<Rightarrow> store \<Rightarrow> store" where
  "update_jobs P f s = bump (changes P (jobs s)) (s\<lparr>jobs := upd_where P f (jobs s)\<rparr>)"

definition attempt_key :: "attempt \<Rightarrow> string \<times> int" where
  "attempt_key a = (a_job_id a, a_number a)"

definition insert_attempt :: "attempt \<Rightarrow> store \<Rightarrow> store result" where
  "insert_attempt a s =
     (if a_id a \<in> a_id ` set (attempts s) \<or> attempt_key a \<in> attempt_key ` set (attempts s)
         \<or> a_run_id a \<in> a_run_id ` set (attempts s) \<or> a_number a \<le> 0
         \<or> a_job_id a \<notin> j_id ` set (jobs s)
      then Inl IntegrityError
      else Inr (bump 1 (s\<lparr>attempts := attempts s @ [a]\<rparr>)))"

text \<open>The columns the attempts trigger watches; lease renewals and versions are not among them.\<close>

definition attempt_watched where
  "attempt_watched a = (a_status a, a_run_id a, a_lease_owner a, a_started_at a, a_finished_at a,
     a_process_id a, a_process_group_id a, a_retry_reason a, a_idempotency_class a,
     a_error_summary a, a_fingerprint a)"

definition update_attempts :: "(attempt \<Rightarrow> bool) \<Rightarrow> (attempt \<Rightarrow> attempt) \<Rightarrow> store \<Rightarrow> store" where
  "update_attempts P f s =
     bump (changes (\<lambda>a. P a \<and> attempt_watched (f a) \<noteq> attempt_watched a) (attempts s))
       (s\<lparr>attempts := upd_where P f (attempts s)\<rparr>)"

text \<open>
  The workers trigger fires only for an UPDATE whose SET list names one of its columns
  (\<open>named\<close>), and then on rows where a watched column, the status included, changes.
\<close>

definition worker_watched where
  "worker_watched w = (w_process_id w, w_hostname w, w_status w, w_started_at w, w_stopped_at w,
     w_fingerprint w)"

definition insert_worker :: "worker \<Rightarrow> store \<Rightarrow> store" where
  "insert_worker w s = bump 1 (s\<lparr>workers := workers s @ [w]\<rparr>)"

definition update_workers :: "bool \<Rightarrow> (worker \<Rightarrow> bool) \<Rightarrow> (worker \<Rightarrow> worker) \<Rightarrow> store \<Rightarrow> store" where
  "update_workers named P f s =
     bump (if named then changes (\<lambda>w. P w \<and> worker_watched (f w) \<noteq> worker_watched w) (workers s) else 0)
       (s\<lparr>workers := upd_where P f (workers s)\<rparr>)"

text \<open>\<open>approval_pending_dedupe_idx\<close> is a partial unique index: only pending rows conflict.\<close>

definition pending_keys :: "approval_request list \<Rightarrow> string list" where
  "pending_keys rs = map r_dedupe_key (filter (\<lambda>r. r_status r = ApprovalPending) rs)"

definition insert_request :: "approval_request \<Rightarrow> store \<Rightarrow> store result" where
  "insert_request r s =
     (if r_id r \<in> r_id ` set (requests s)
         \<or> (r_status r = ApprovalPending \<and> r_dedupe_key r \<in> set (pending_keys (requests s)))
         \<or> (case r_job_id r of None \<Rightarrow> False | Some i \<Rightarrow> i \<notin> j_id ` set (jobs s))
      then Inl IntegrityError
      else Inr (bump 1 (s\<lparr>requests := requests s @ [r]\<rparr>)))"

definition update_requests ::
    "(approval_request \<Rightarrow> bool) \<Rightarrow> (approval_request \<Rightarrow> approval_request) \<Rightarrow> store \<Rightarrow> store" where
  "update_requests P f s = bump (changes P (requests s)) (s\<lparr>requests := upd_where P f (requests s)\<rparr>)"

definition insert_grant :: "approval_grant \<Rightarrow> store \<Rightarrow> store result" where
  "insert_grant g s =
     (if g_id g \<in> g_id ` set (grants s) \<or> g_request_id g \<notin> r_id ` set (requests s)
      then Inl IntegrityError
      else Inr (s\<lparr>grants := grants s @ [g]\<rparr>))"

definition insert_audit :: "audit_event \<Rightarrow> store \<Rightarrow> store result" where
  "insert_audit v s =
     (if v_id v \<in> v_id ` set (audit s)
         \<or> (v_operation_id v, v_sequence v) \<in> (\<lambda>u. (v_operation_id u, v_sequence u)) ` set (audit s)
         \<or> v_event_sha256 v \<in> v_event_sha256 ` set (audit s) \<or> v_sequence v \<le> 0
      then Inl IntegrityError
      else Inr (s\<lparr>audit := audit s @ [v]\<rparr>))"

definition insert_effect :: "side_effect \<Rightarrow> store \<Rightarrow> store result" where
  "insert_effect e s =
     (if e_id e \<in> e_id ` set (effects s) \<or> e_token_hash e \<in> e_token_hash ` set (effects s)
         \<or> e_job_id e \<notin> j_id ` set (jobs s) \<or> e_owner_attempt_id e \<notin> a_id ` set (attempts s)
      then Inl IntegrityError
      else Inr (s\<lparr>effects := effects s @ [e]\<rparr>))"

definition outbox_conflict :: "outbox_entry \<Rightarrow> store \<Rightarrow> bool" where
  "outbox_conflict e s = (o_id e \<in> o_id ` set (outbox s) \<or> o_dedupe_key e \<in> o_dedupe_key ` set (outbox s))"

definition insert_outbox :: "outbox_entry \<Rightarrow> store \<Rightarrow> store result" where
  "insert_outbox e s =
     (if outbox_conflict e s then Inl IntegrityError else Inr (s\<lparr>outbox := outbox s @ [e]\<rparr>))"

definition insert_or_ignore_outbox :: "outbox_entry \<Rightarrow> store \<Rightarrow> store" where
  "insert_or_ignore_outbox e s = (if outbox_conflict e s then s else s\<lparr>outbox := outbox s @ [e]\<rparr>)"

definition insert_native :: "native_process \<Rightarrow> store \<Rightarrow> store result" where
  "insert_native n s =
     (if n_id n \<in> n_id ` set (natives s) then Inl IntegrityError
      else Inr (s\<lparr>natives := natives s @ [n]\<rparr>))"

definition output_key :: "native_output \<Rightarrow> string \<times> int" where
  "output_key r = (no_process_id r, no_cursor r)"

definition insert_or_ignore_output :: "native_output \<Rightarrow> store \<Rightarrow> store" where
  "insert_or_ignore_output r s =
     (if output_key r \<in> output_key ` set (outputs s) \<or> no_cursor r \<le> 0 then s
      else s\<lparr>outputs := outputs s @ [r]\<rparr>)"

section \<open>Transactions\<close>

text \<open>
  \<open>with self._connect() as connection, _transaction(connection)\<close>: BEGIN IMMEDIATE holds the write
  lock, so the body runs on one state; an exception rolls the body back.
\<close>

type_synonym 'a op = "store \<Rightarrow> 'a result \<times> store"

definition transaction :: "(store \<Rightarrow> ('a \<times> store) result) \<Rightarrow> 'a op" where
  "transaction body s = (case body s of Inl e \<Rightarrow> (Inl e, s) | Inr (a, s') \<Rightarrow> (Inr a, s'))"

definition wake_workers :: "store \<Rightarrow> store" where
  "wake_workers s = s\<lparr>wakes := Suc (wakes s)\<rparr>"

lemma wake_workers_simps [simp]:
  "jobs (wake_workers s) = jobs s"
  "attempts (wake_workers s) = attempts s"
  "workers (wake_workers s) = workers s"
  "requests (wake_workers s) = requests s"
  "grants (wake_workers s) = grants s"
  "audit (wake_workers s) = audit s"
  "effects (wake_workers s) = effects s"
  "outbox (wake_workers s) = outbox s"
  "natives (wake_workers s) = natives s"
  "outputs (wake_workers s) = outputs s"
  "traces (wake_workers s) = traces s"
  "attention (wake_workers s) = attention s"
  "schedules (wake_workers s) = schedules s"
  "revision (wake_workers s) = revision s"
  "wakes (wake_workers s) = Suc (wakes s)"
  by (simp_all add: wake_workers_def)

text \<open>A method that signals the workers after its transaction, when the body asks for it.\<close>

definition waking :: "('a \<times> bool) result \<times> store \<Rightarrow> 'a result \<times> store" where
  "waking r = (case r of
     (Inl e, s) \<Rightarrow> (Inl e, s)
   | (Inr (a, wake), s) \<Rightarrow> (Inr a, if wake then wake_workers s else s))"

text \<open>\<open>fetchone\<close> followed by the repository's not-found error.\<close>

definition fetch :: "error \<Rightarrow> 'r option \<Rightarrow> 'r result" where
  "fetch e row = (case row of None \<Rightarrow> Inl e | Some r \<Rightarrow> Inr r)"

definition guard :: "bool \<Rightarrow> error \<Rightarrow> unit result" where
  "guard ok e = (if ok then Inr () else Inl e)"

abbreviation job_by :: "string \<Rightarrow> store \<Rightarrow> job option" where
  "job_by i s \<equiv> row_by j_id i (jobs s)"

abbreviation attempt_by :: "string \<Rightarrow> store \<Rightarrow> attempt option" where
  "attempt_by i s \<equiv> row_by a_id i (attempts s)"

lemma transaction_cases:
  assumes "transaction body s = (r, s')"
  obtains (Rollback) e where "body s = Inl e" "r = Inl e" "s' = s"
  | (Commit) a where "body s = Inr (a, s')" "r = Inr a"
  using assms by (auto simp: transaction_def split: sum.splits)

lemma transaction_Inl [simp]: "body s = Inl e \<Longrightarrow> transaction body s = (Inl e, s)"
  by (simp add: transaction_def)

lemma transaction_Inr [simp]: "body s = Inr (a, s') \<Longrightarrow> transaction body s = (Inr a, s')"
  by (simp add: transaction_def)

lemma transaction_Inl_iff: "transaction body s = (Inl e, s') \<longleftrightarrow> body s = Inl e \<and> s' = s"
  by (auto simp: transaction_def split: sum.splits)

lemma transaction_Inr_iff: "transaction body s = (Inr a, s') \<longleftrightarrow> body s = Inr (a, s')"
  by (auto simp: transaction_def split: sum.splits)

lemma waking_Inl_iff: "waking r = (Inl e, s) \<longleftrightarrow> r = (Inl e, s)"
  by (auto simp: waking_def split: prod.splits sum.splits)

lemma waking_Inr_iff:
  "waking r = (Inr a, s') \<longleftrightarrow> (\<exists>wake s. r = (Inr (a, wake), s) \<and> s' = (if wake then wake_workers s else s))"
  by (auto simp: waking_def split: prod.splits sum.splits)

lemma fetch_Inr [simp]: "fetch e row = Inr r \<longleftrightarrow> row = Some r"
  and fetch_Inl [simp]: "fetch e row = Inl e' \<longleftrightarrow> row = None \<and> e' = e"
  and fetch_Some [simp]: "fetch e (Some x) = Inr x"
  and fetch_None [simp]: "fetch e None = Inl e"
  by (auto simp: fetch_def split: option.splits)

lemma guard_Inr [simp]: "guard ok e = Inr u \<longleftrightarrow> ok"
  and guard_Inl [simp]: "guard ok e = Inl e' \<longleftrightarrow> \<not> ok \<and> e' = e"
  and guard_True [simp]: "guard True e = Inr ()"
  and guard_False [simp]: "guard False e = Inl e"
  by (auto simp: guard_def)

end
