(* ===== verification/Db_Invariant.thy ===== *)
theory Db_Invariant
  imports Coordination_Db
begin

text \<open>
  What the coordination database keeps true. \<open>db_ok\<close> is the invariant of one state: the keys the
  schema declares, the references, and the agreement of status columns with their timestamps.
  \<open>evolves s s'\<close> relates a state to a later one: no job row changes without a higher version,
  settled rows (terminal attempts, decided approvals, completed side effects) stay as they are,
  the audit log only grows, the outbox keeps its entries, revisions do not go back. The
  locale \<open>coordination_op\<close> is the contract every repository operation meets.
\<close>

named_theorems keeps \<open>statements preserve the database invariant\<close>
named_theorems moves \<open>statements are legal evolutions\<close>

section \<open>The invariant\<close>

definition job_lifecycle :: "job \<Rightarrow> bool" where
  "job_lifecycle j \<longleftrightarrow> 0 < j_max_attempts j \<and> (terminal_job (j_status j) \<longleftrightarrow> j_terminal_at j \<noteq> None)"

definition jobs_ok :: "store \<Rightarrow> bool" where
  "jobs_ok s \<longleftrightarrow> distinct (map j_id (jobs s)) \<and> distinct (map job_key (jobs s))
     \<and> (\<forall>j\<in>set (jobs s). job_lifecycle j)"

definition attempt_budget :: "job list \<Rightarrow> attempt \<Rightarrow> bool" where
  "attempt_budget js a \<longleftrightarrow> 0 < a_number a
     \<and> (\<exists>j\<in>set js. j_id j = a_job_id a \<and> a_number a \<le> j_max_attempts j)"

definition attempts_ok :: "store \<Rightarrow> bool" where
  "attempts_ok s \<longleftrightarrow> distinct (map a_id (attempts s)) \<and> distinct (map attempt_key (attempts s))
     \<and> distinct (map a_run_id (attempts s)) \<and> (\<forall>a\<in>set (attempts s). attempt_budget (jobs s) a)"

definition requests_ok :: "store \<Rightarrow> bool" where
  "requests_ok s \<longleftrightarrow> distinct (map r_id (requests s)) \<and> distinct (pending_keys (requests s))"

text \<open>Grants come from approved requests.\<close>

definition approved :: "string \<Rightarrow> approval_request list \<Rightarrow> bool" where
  "approved i rs \<longleftrightarrow> (\<exists>r\<in>set rs. r_id r = i \<and> r_status r = ApprovalApproved)"

definition grants_ok :: "store \<Rightarrow> bool" where
  "grants_ok s \<longleftrightarrow> distinct (map g_id (grants s))
     \<and> (\<forall>g\<in>set (grants s). approved (g_request_id g) (requests s)
          \<and> (case g_uses_remaining g of None \<Rightarrow> True | Some n \<Rightarrow> 0 \<le> n))"

definition effect_settled :: "side_effect \<Rightarrow> bool" where
  "effect_settled e \<longleftrightarrow> (e_status e = EffectCompleted \<longleftrightarrow> e_completed_at e \<noteq> None)
     \<and> (e_status e = EffectCompleted \<longrightarrow> e_evidence_hash e \<noteq> None)"

definition effects_ok :: "store \<Rightarrow> bool" where
  "effects_ok s \<longleftrightarrow> distinct (map e_id (effects s)) \<and> distinct (map e_token_hash (effects s))
     \<and> (\<forall>e\<in>set (effects s). effect_settled e
          \<and> (\<exists>a\<in>set (attempts s). a_id a = e_owner_attempt_id e \<and> a_job_id a = e_job_id e))"

definition outbox_ok :: "store \<Rightarrow> bool" where
  "outbox_ok s \<longleftrightarrow> distinct (map o_id (outbox s)) \<and> distinct (map o_dedupe_key (outbox s))"

definition natives_ok :: "store \<Rightarrow> bool" where
  "natives_ok s \<longleftrightarrow> distinct (map n_id (natives s)) \<and> distinct (map output_key (outputs s))
     \<and> (\<forall>r\<in>set (outputs s). 0 < no_cursor r)"

text \<open>
  The audit events of one operation form a hash chain: the first has sequence 1 and no
  predecessor, every other one names the hash of the event before it.
\<close>

definition audit_key :: "audit_event \<Rightarrow> string \<times> int" where
  "audit_key v = (v_operation_id v, v_sequence v)"

definition chained :: "audit_event list \<Rightarrow> audit_event \<Rightarrow> bool" where
  "chained vs v \<longleftrightarrow> 0 < v_sequence v \<and>
     (if v_sequence v = 1 then v_previous_sha256 v = None
      else \<exists>u\<in>set vs. audit_key u = (v_operation_id v, v_sequence v - 1)
             \<and> v_previous_sha256 v = Some (v_event_sha256 u))"

definition audit_ok :: "store \<Rightarrow> bool" where
  "audit_ok s \<longleftrightarrow> distinct (map audit_key (audit s)) \<and> (\<forall>v\<in>set (audit s). chained (audit s) v)"

definition db_ok :: "store \<Rightarrow> bool" where
  "db_ok s \<longleftrightarrow> jobs_ok s \<and> attempts_ok s \<and> requests_ok s \<and> grants_ok s \<and> effects_ok s
     \<and> outbox_ok s \<and> natives_ok s \<and> audit_ok s"

lemmas db_ok_defs = db_ok_def jobs_ok_def attempts_ok_def requests_ok_def grants_ok_def
  effects_ok_def outbox_ok_def natives_ok_def audit_ok_def

lemma empty_store_ok: "db_ok empty_store"
  by (simp add: db_ok_defs empty_store_def pending_keys_def)

lemma db_ok_jobs: "db_ok s \<Longrightarrow> distinct (map j_id (jobs s))"
  and db_ok_attempts: "db_ok s \<Longrightarrow> distinct (map a_id (attempts s))"
  and db_ok_requests: "db_ok s \<Longrightarrow> distinct (map r_id (requests s))"
  and db_ok_grants: "db_ok s \<Longrightarrow> distinct (map g_id (grants s))"
  and db_ok_effects: "db_ok s \<Longrightarrow> distinct (map e_id (effects s))"
  and db_ok_natives: "db_ok s \<Longrightarrow> distinct (map n_id (natives s))"
  by (simp_all add: db_ok_defs)

section \<open>Statements keep the invariant\<close>

text \<open>Tables the statement does not write keep their part; only \<open>attempt_budget\<close> reads jobs.\<close>

lemma db_ok_frame [simp]:
  "db_ok (bump n s) = db_ok s"
  "db_ok (s\<lparr>workers := ws\<rparr>) = db_ok s"
  "db_ok (s\<lparr>traces := ts\<rparr>) = db_ok s"
  "db_ok (s\<lparr>attention := xs\<rparr>) = db_ok s"
  "db_ok (wake_workers s) = db_ok s"
  by (simp_all add: db_ok_defs bump_def wake_workers_def attempt_budget_def)

definition job_edit :: "job \<Rightarrow> job \<Rightarrow> bool" where
  "job_edit j j' \<longleftrightarrow> j_id j' = j_id j \<and> job_key j' = job_key j
     \<and> j_max_attempts j \<le> j_max_attempts j' \<and> (job_lifecycle j \<longrightarrow> job_lifecycle j')"

lemma attempt_budget_upd:
  assumes "attempt_budget js a" "\<And>j. j \<in> set js \<Longrightarrow> P j \<Longrightarrow> job_edit j (f j)"
  shows "attempt_budget (upd_where P f js) a"
proof -
  from assms(1) obtain j where j: "j \<in> set js" "j_id j = a_job_id a" "a_number a \<le> j_max_attempts j"
    and pos: "0 < a_number a" by (auto simp: attempt_budget_def)
  let ?j = "if P j then f j else j"
  have "?j \<in> set (upd_where P f js)" using j(1) by (auto simp: set_upd_where)
  moreover have "j_id ?j = a_job_id a" "a_number a \<le> j_max_attempts ?j"
    using j assms(2)[of j] by (auto simp: job_edit_def)
  ultimately show ?thesis using pos by (auto simp: attempt_budget_def)
qed

lemma map_upd_where_on:
  "(\<And>r. r \<in> set rows \<Longrightarrow> P r \<Longrightarrow> g (f r) = g r) \<Longrightarrow> map g (upd_where P f rows) = map g rows"
  by (simp add: upd_where_def)

lemma update_jobs_ok [keeps]:
  assumes ok: "db_ok s" and edit: "\<And>j. j \<in> set (jobs s) \<Longrightarrow> P j \<Longrightarrow> job_edit j (f j)"
  shows "db_ok (update_jobs P f s)"
proof -
  have "map j_id (upd_where P f (jobs s)) = map j_id (jobs s)"
    "map job_key (upd_where P f (jobs s)) = map job_key (jobs s)"
    by (auto intro!: map_upd_where_on dest!: edit simp: job_edit_def)
  moreover have "\<forall>j\<in>set (upd_where P f (jobs s)). job_lifecycle j"
    using ok edit by (auto simp: db_ok_defs set_upd_where job_edit_def)
  moreover have "\<forall>a\<in>set (attempts s). attempt_budget (upd_where P f (jobs s)) a"
    using ok edit by (auto simp: db_ok_defs intro: attempt_budget_upd)
  ultimately show ?thesis using ok by (simp add: update_jobs_def db_ok_defs)
qed

lemma insert_job_ok [keeps]:
  assumes "db_ok s" "insert_job j s = Inr s'" "job_lifecycle j"
  shows "db_ok s'"
  using assms by (auto simp: insert_job_def db_ok_defs attempt_budget_def split: if_splits)

definition attempt_edit :: "attempt \<Rightarrow> attempt \<Rightarrow> bool" where
  "attempt_edit a a' \<longleftrightarrow> a_id a' = a_id a \<and> attempt_key a' = attempt_key a \<and> a_run_id a' = a_run_id a"

lemma update_attempts_ok [keeps]:
  assumes ok: "db_ok s" and edit: "\<And>a. a \<in> set (attempts s) \<Longrightarrow> P a \<Longrightarrow> attempt_edit a (f a)"
  shows "db_ok (update_attempts P f s)"
proof -
  have keys: "map a_id (upd_where P f (attempts s)) = map a_id (attempts s)"
    "map attempt_key (upd_where P f (attempts s)) = map attempt_key (attempts s)"
    "map a_run_id (upd_where P f (attempts s)) = map a_run_id (attempts s)"
    by (auto intro!: map_upd_where_on dest!: edit simp: attempt_edit_def)
  have "\<forall>a\<in>set (upd_where P f (attempts s)). attempt_budget (jobs s) a"
    using ok edit by (auto simp: db_ok_defs set_upd_where attempt_edit_def attempt_budget_def attempt_key_def)
  moreover have "\<forall>e\<in>set (effects s). \<exists>a\<in>set (upd_where P f (attempts s)).
      a_id a = e_owner_attempt_id e \<and> a_job_id a = e_job_id e"
  proof
    fix e assume "e \<in> set (effects s)"
    then obtain a where "a \<in> set (attempts s)" "a_id a = e_owner_attempt_id e" "a_job_id a = e_job_id e"
      using ok by (auto simp: db_ok_defs)
    then show "\<exists>a\<in>set (upd_where P f (attempts s)). a_id a = e_owner_attempt_id e \<and> a_job_id a = e_job_id e"
      using edit[of a] by (auto simp: set_upd_where attempt_edit_def attempt_key_def)
  qed
  ultimately show ?thesis using ok keys
    by (simp add: update_attempts_def db_ok_defs attempt_budget_def)
qed

lemma insert_attempt_ok [keeps]:
  assumes "db_ok s" "insert_attempt a s = Inr s'"
    "\<exists>j\<in>set (jobs s). j_id j = a_job_id a \<and> a_number a \<le> j_max_attempts j"
  shows "db_ok s'"
proof -
  have s': "s' = bump 1 (s\<lparr>attempts := attempts s @ [a]\<rparr>)" "a_id a \<notin> a_id ` set (attempts s)"
    "attempt_key a \<notin> attempt_key ` set (attempts s)" "a_run_id a \<notin> a_run_id ` set (attempts s)"
    "attempt_budget (jobs s) a"
    using assms(2,3) by (auto simp: insert_attempt_def attempt_budget_def split: if_splits)
  have "\<forall>e\<in>set (effects s). \<exists>b\<in>insert a (set (attempts s)). a_id b = e_owner_attempt_id e \<and> a_job_id b = e_job_id e"
    using assms(1) unfolding db_ok_def effects_ok_def by blast
  with s' assms(1) show ?thesis by (simp add: db_ok_defs)
qed

lemma update_workers_ok [keeps]: "db_ok s \<Longrightarrow> db_ok (update_workers named P f s)"
  by (simp add: update_workers_def)

lemma insert_worker_ok [keeps]: "db_ok s \<Longrightarrow> db_ok (insert_worker w s)"
  by (simp add: insert_worker_def)

text \<open>A decision or an expiry only takes a request out of the pending index.\<close>

definition request_edit :: "approval_request \<Rightarrow> approval_request \<Rightarrow> bool" where
  "request_edit r r' \<longleftrightarrow> r_id r' = r_id r \<and> r_dedupe_key r' = r_dedupe_key r
     \<and> r_status r = ApprovalPending \<and> r_status r' \<noteq> ApprovalPending"

lemma pending_keys_upd:
  assumes "\<And>r. r \<in> set rs \<Longrightarrow> P r \<Longrightarrow> r_status (f r) \<noteq> ApprovalPending" "distinct (pending_keys rs)"
  shows "distinct (pending_keys (upd_where P f rs)) \<and> set (pending_keys (upd_where P f rs)) \<subseteq> set (pending_keys rs)"
  using assms
proof (induction rs)
  case Nil
  then show ?case by (simp add: pending_keys_def)
next
  case (Cons r rs)
  then have "distinct (pending_keys (upd_where P f rs))"
    "set (pending_keys (upd_where P f rs)) \<subseteq> set (pending_keys rs)"
    by (auto simp: pending_keys_def split: if_splits)
  with Cons.prems show ?case by (auto simp: pending_keys_def split: if_splits)
qed

lemma update_requests_ok [keeps]:
  assumes ok: "db_ok s" and edit: "\<And>r. r \<in> set (requests s) \<Longrightarrow> P r \<Longrightarrow> request_edit r (f r)"
  shows "db_ok (update_requests P f s)"
proof -
  have ids: "map r_id (upd_where P f (requests s)) = map r_id (requests s)"
    by (auto intro!: map_upd_where_on dest!: edit simp: request_edit_def)
  have "approved i (upd_where P f (requests s))" if "approved i (requests s)" for i
    using that edit by (force simp: approved_def set_upd_where request_edit_def)
  moreover have "distinct (pending_keys (upd_where P f (requests s)))"
    using ok edit pending_keys_upd[of "requests s" P f] by (auto simp: db_ok_defs request_edit_def)
  ultimately show ?thesis using ok ids
    by (simp add: update_requests_def db_ok_defs attempt_budget_def)
qed

lemma insert_request_ok [keeps]: "db_ok s \<Longrightarrow> insert_request r s = Inr s' \<Longrightarrow> db_ok s'"
  by (auto simp: insert_request_def db_ok_defs attempt_budget_def pending_keys_def approved_def split: if_splits)

lemma insert_grant_ok [keeps]:
  "db_ok s \<Longrightarrow> insert_grant g s = Inr s' \<Longrightarrow> approved (g_request_id g) (requests s) \<Longrightarrow>
   (case g_uses_remaining g of None \<Rightarrow> True | Some n \<Rightarrow> 0 \<le> n) \<Longrightarrow> db_ok s'"
  by (auto simp: insert_grant_def db_ok_defs attempt_budget_def split: if_splits)

lemma chained_append: "chained vs v \<Longrightarrow> chained (vs @ us) v"
  by (auto simp: chained_def split: if_splits)

lemma insert_audit_ok [keeps]:
  assumes "db_ok s" "insert_audit v s = Inr s'" "chained (audit s) v"
  shows "db_ok s'"
proof -
  have s': "s' = s\<lparr>audit := audit s @ [v]\<rparr>" "audit_key v \<notin> audit_key ` set (audit s)"
    using assms(2) by (auto simp: insert_audit_def audit_key_def split: if_splits)
  have "audit_ok s'"
    using assms(1,3) s' by (auto simp: db_ok_def audit_ok_def intro: chained_append)
  with assms(1) s'(1) show ?thesis by (simp add: db_ok_defs attempt_budget_def)
qed

lemma insert_effect_ok [keeps]:
  assumes "db_ok s" "insert_effect e s = Inr s'" "effect_settled e"
    "\<exists>a\<in>set (attempts s). a_id a = e_owner_attempt_id e \<and> a_job_id a = e_job_id e"
  shows "db_ok s'"
proof -
  have "s' = s\<lparr>effects := effects s @ [e]\<rparr>" "e_id e \<notin> e_id ` set (effects s)"
    "e_token_hash e \<notin> e_token_hash ` set (effects s)"
    using assms(2) by (auto simp: insert_effect_def split: if_splits)
  then show ?thesis using assms(1,3,4) by (simp add: db_ok_defs)
qed

lemma insert_outbox_ok [keeps]: "db_ok s \<Longrightarrow> insert_outbox e s = Inr s' \<Longrightarrow> db_ok s'"
  by (auto simp: insert_outbox_def outbox_conflict_def db_ok_defs attempt_budget_def split: if_splits)

lemma insert_or_ignore_outbox_ok [keeps]: "db_ok s \<Longrightarrow> db_ok (insert_or_ignore_outbox e s)"
  by (auto simp: insert_or_ignore_outbox_def outbox_conflict_def db_ok_defs attempt_budget_def)

lemma insert_native_ok [keeps]: "db_ok s \<Longrightarrow> insert_native n s = Inr s' \<Longrightarrow> db_ok s'"
  by (auto simp: insert_native_def db_ok_defs attempt_budget_def split: if_splits)

lemma insert_or_ignore_output_ok [keeps]: "db_ok s \<Longrightarrow> db_ok (insert_or_ignore_output r s)"
  by (auto simp: insert_or_ignore_output_def db_ok_defs attempt_budget_def)

lemma update_grants_ok [keeps]:
  assumes ok: "db_ok s" and edit: "\<And>g. g \<in> set (grants s) \<Longrightarrow> P g \<Longrightarrow>
    g_id (f g) = g_id g \<and> g_request_id (f g) = g_request_id g
    \<and> (case g_uses_remaining (f g) of None \<Rightarrow> True | Some n \<Rightarrow> 0 \<le> n)"
  shows "db_ok (s\<lparr>grants := upd_where P f (grants s)\<rparr>)"
proof -
  have "map g_id (upd_where P f (grants s)) = map g_id (grants s)"
    by (auto intro!: map_upd_where_on dest!: edit)
  moreover have "grants_ok (s\<lparr>grants := upd_where P f (grants s)\<rparr>)"
    using calculation ok edit by (auto simp: db_ok_def grants_ok_def set_upd_where)
  ultimately show ?thesis using ok by (simp add: db_ok_defs)
qed

lemma update_outbox_ok [keeps]:
  assumes ok: "db_ok s" and edit: "\<And>e. e \<in> set (outbox s) \<Longrightarrow> P e \<Longrightarrow>
    o_id (f e) = o_id e \<and> o_dedupe_key (f e) = o_dedupe_key e"
  shows "db_ok (s\<lparr>outbox := upd_where P f (outbox s)\<rparr>)"
proof -
  have "map o_id (upd_where P f (outbox s)) = map o_id (outbox s)"
    "map o_dedupe_key (upd_where P f (outbox s)) = map o_dedupe_key (outbox s)"
    by (auto intro!: map_upd_where_on dest!: edit)
  with ok show ?thesis by (simp add: db_ok_defs)
qed

lemma update_effects_ok [keeps]:
  assumes ok: "db_ok s" and edit: "\<And>e. e \<in> set (effects s) \<Longrightarrow> P e \<Longrightarrow>
    e_id (f e) = e_id e \<and> e_token_hash (f e) = e_token_hash e \<and> e_job_id (f e) = e_job_id e
    \<and> e_owner_attempt_id (f e) = e_owner_attempt_id e \<and> effect_settled (f e)"
  shows "db_ok (s\<lparr>effects := upd_where P f (effects s)\<rparr>)"
proof -
  have "map e_id (upd_where P f (effects s)) = map e_id (effects s)"
    "map e_token_hash (upd_where P f (effects s)) = map e_token_hash (effects s)"
    by (auto intro!: map_upd_where_on dest!: edit)
  moreover have "effects_ok (s\<lparr>effects := upd_where P f (effects s)\<rparr>)"
    using calculation ok edit by (auto simp: db_ok_def effects_ok_def set_upd_where)
  ultimately show ?thesis using ok by (simp add: db_ok_defs)
qed

lemma update_natives_ok [keeps]:
  assumes ok: "db_ok s" and edit: "\<And>n. n \<in> set (natives s) \<Longrightarrow> P n \<Longrightarrow> n_id (f n) = n_id n"
  shows "db_ok (s\<lparr>natives := upd_where P f (natives s)\<rparr>)"
proof -
  have "map n_id (upd_where P f (natives s)) = map n_id (natives s)"
    by (auto intro!: map_upd_where_on dest!: edit)
  with ok show ?thesis by (simp add: db_ok_defs)
qed

lemma delete_outputs_ok [keeps]: "db_ok s \<Longrightarrow> db_ok (s\<lparr>outputs := filter P (outputs s)\<rparr>)"
  by (auto simp: db_ok_defs distinct_map_filter)

section \<open>Evolution\<close>

definition rows_next :: "('r \<Rightarrow> 'r \<Rightarrow> bool) \<Rightarrow> 'r list \<Rightarrow> 'r list \<Rightarrow> bool" where
  "rows_next R xs ys \<longleftrightarrow> (\<forall>x\<in>set xs. \<exists>y\<in>set ys. R x y)"

lemma rows_next_refl [simp]: "(\<And>x. R x x) \<Longrightarrow> rows_next R xs xs"
  by (auto simp: rows_next_def)

lemma rows_next_trans:
  "(\<And>x y z. R x y \<Longrightarrow> R y z \<Longrightarrow> R x z) \<Longrightarrow> rows_next R xs ys \<Longrightarrow> rows_next R ys zs \<Longrightarrow> rows_next R xs zs"
  unfolding rows_next_def by blast

lemma rows_next_append [simp]: "(\<And>x. R x x) \<Longrightarrow> rows_next R xs (xs @ ys)"
  by (auto simp: rows_next_def)

lemma rows_next_upd:
  "(\<And>x. R x x) \<Longrightarrow> (\<And>x. x \<in> set xs \<Longrightarrow> P x \<Longrightarrow> R x (f x)) \<Longrightarrow> rows_next R xs (upd_where P f xs)"
  unfolding rows_next_def
proof (intro ballI)
  fix x assume "\<And>x. R x x" "\<And>x. x \<in> set xs \<Longrightarrow> P x \<Longrightarrow> R x (f x)" "x \<in> set xs"
  then have "R x (if P x then f x else x)" "(if P x then f x else x) \<in> set (upd_where P f xs)"
    unfolding set_upd_where by (auto simp del: if_image_distrib)
  then show "\<exists>y\<in>set (upd_where P f xs). R x y" by blast
qed

definition job_next :: "job \<Rightarrow> job \<Rightarrow> bool" where
  "job_next j j' \<longleftrightarrow> j' = j \<or> (j_id j' = j_id j \<and> job_key j' = job_key j \<and> j_version j < j_version j')"

definition attempt_next :: "attempt \<Rightarrow> attempt \<Rightarrow> bool" where
  "attempt_next a a' \<longleftrightarrow> attempt_edit a a' \<and> a_version a \<le> a_version a'
     \<and> (terminal_attempt (a_status a) \<longrightarrow> a_status a' = a_status a)"

definition request_next :: "approval_request \<Rightarrow> approval_request \<Rightarrow> bool" where
  "request_next r r' \<longleftrightarrow> r_id r' = r_id r \<and> (r_status r \<noteq> ApprovalPending \<longrightarrow> r' = r)"

definition grant_next :: "approval_grant \<Rightarrow> approval_grant \<Rightarrow> bool" where
  "grant_next g g' \<longleftrightarrow> g'\<lparr>g_uses_remaining := None\<rparr> = g\<lparr>g_uses_remaining := None\<rparr>
     \<and> (case g_uses_remaining g of
          None \<Rightarrow> g_uses_remaining g' = None
        | Some m \<Rightarrow> \<exists>n\<le>m. g_uses_remaining g' = Some n)"

definition effect_next :: "side_effect \<Rightarrow> side_effect \<Rightarrow> bool" where
  "effect_next e e' \<longleftrightarrow> e_id e' = e_id e \<and> e_token_hash e' = e_token_hash e
     \<and> e_intent_hash e' = e_intent_hash e \<and> (e_status e = EffectCompleted \<longrightarrow> e' = e)"

definition outbox_next :: "outbox_entry \<Rightarrow> outbox_entry \<Rightarrow> bool" where
  "outbox_next e e' \<longleftrightarrow> o_id e' = o_id e \<and> o_dedupe_key e' = o_dedupe_key e
     \<and> o_event_type e' = o_event_type e \<and> o_payload e' = o_payload e
     \<and> o_attempt_count e \<le> o_attempt_count e' \<and> (o_processed_at e \<noteq> None \<longrightarrow> e' = e)"

definition native_next :: "native_process \<Rightarrow> native_process \<Rightarrow> bool" where
  "native_next n n' \<longleftrightarrow> n_id n' = n_id n \<and> n_owner_id n' = n_owner_id n
     \<and> n_terminal_cursor n \<le> n_terminal_cursor n' \<and> n_version n \<le> n_version n'
     \<and> (n_status n \<noteq> ''running'' \<longrightarrow> n_status n' = n_status n)"

definition evolves :: "store \<Rightarrow> store \<Rightarrow> bool" where
  "evolves s s' \<longleftrightarrow> rows_next job_next (jobs s) (jobs s')
     \<and> rows_next attempt_next (attempts s) (attempts s')
     \<and> rows_next request_next (requests s) (requests s')
     \<and> rows_next grant_next (grants s) (grants s')
     \<and> rows_next effect_next (effects s) (effects s')
     \<and> rows_next outbox_next (outbox s) (outbox s')
     \<and> rows_next native_next (natives s) (natives s')
     \<and> (\<exists>vs. audit s' = audit s @ vs) \<and> revision s \<le> revision s'"

lemma next_refl [simp]:
  "job_next j j" "attempt_next a a" "request_next r r" "grant_next g g" "effect_next e e"
  "outbox_next x x" "native_next n n"
  by (simp_all add: job_next_def attempt_next_def attempt_edit_def request_next_def grant_next_def
      effect_next_def outbox_next_def native_next_def split: option.splits)

lemma job_next_trans: "job_next x y \<Longrightarrow> job_next y z \<Longrightarrow> job_next x z"
  by (auto simp: job_next_def)

lemma attempt_next_trans: "attempt_next x y \<Longrightarrow> attempt_next y z \<Longrightarrow> attempt_next x z"
  by (auto simp: attempt_next_def attempt_edit_def)

lemma request_next_trans: "request_next x y \<Longrightarrow> request_next y z \<Longrightarrow> request_next x z"
  by (auto simp: request_next_def)

lemma grant_next_trans: "grant_next x y \<Longrightarrow> grant_next y z \<Longrightarrow> grant_next x z"
  by (auto simp: grant_next_def split: option.splits)

lemma effect_next_trans: "effect_next x y \<Longrightarrow> effect_next y z \<Longrightarrow> effect_next x z"
  by (auto simp: effect_next_def)

lemma outbox_next_trans: "outbox_next x y \<Longrightarrow> outbox_next y z \<Longrightarrow> outbox_next x z"
  by (auto simp: outbox_next_def)

lemma native_next_trans: "native_next x y \<Longrightarrow> native_next y z \<Longrightarrow> native_next x z"
  by (auto simp: native_next_def)

lemma evolves_refl [simp, intro!]: "evolves s s"
  by (simp add: evolves_def)

lemma evolves_trans [trans]:
  assumes "evolves s t" "evolves t u"
  shows "evolves s u"
  using assms unfolding evolves_def
  by (auto intro: rows_next_trans job_next_trans attempt_next_trans request_next_trans
      grant_next_trans effect_next_trans outbox_next_trans native_next_trans)

subsection \<open>Statements evolve the database\<close>

lemma evolves_frame [simp]:
  "evolves s (bump n t) \<longleftrightarrow> evolves s (t\<lparr>revision := revision t + int n\<rparr>)"
  "evolves s (wake_workers t) = evolves s t"
  by (simp_all add: bump_def evolves_def)

lemma evolves_bump: "evolves s t \<Longrightarrow> evolves s (t\<lparr>revision := revision t + int n\<rparr>)"
  by (simp add: evolves_def)

lemma evolves_other [moves]:
  "evolves s (s\<lparr>workers := ws\<rparr>)" "evolves s (s\<lparr>traces := ts\<rparr>)" "evolves s (s\<lparr>attention := xs\<rparr>)"
  "evolves s (s\<lparr>outputs := os\<rparr>)"
  by (simp_all add: evolves_def)

lemma update_jobs_evolves [moves]:
  "(\<And>j. j \<in> set (jobs s) \<Longrightarrow> P j \<Longrightarrow> job_next j (f j)) \<Longrightarrow> evolves s (update_jobs P f s)"
  by (auto simp: update_jobs_def evolves_def intro!: rows_next_upd)

lemma insert_job_evolves [moves]: "insert_job j s = Inr s' \<Longrightarrow> evolves s s'"
  by (auto simp: insert_job_def evolves_def split: if_splits)

lemma update_attempts_evolves [moves]:
  "(\<And>a. a \<in> set (attempts s) \<Longrightarrow> P a \<Longrightarrow> attempt_next a (f a)) \<Longrightarrow> evolves s (update_attempts P f s)"
  by (auto simp: update_attempts_def evolves_def intro!: rows_next_upd)

lemma insert_attempt_evolves [moves]: "insert_attempt a s = Inr s' \<Longrightarrow> evolves s s'"
  by (auto simp: insert_attempt_def evolves_def split: if_splits)

lemma update_workers_evolves [moves]: "evolves s (update_workers named P f s)"
  by (simp add: update_workers_def evolves_def)

lemma insert_worker_evolves [moves]: "evolves s (insert_worker w s)"
  by (simp add: insert_worker_def evolves_def)

lemma update_requests_evolves [moves]:
  "(\<And>r. r \<in> set (requests s) \<Longrightarrow> P r \<Longrightarrow> request_next r (f r)) \<Longrightarrow> evolves s (update_requests P f s)"
  by (auto simp: update_requests_def evolves_def intro!: rows_next_upd)

lemma insert_request_evolves [moves]: "insert_request r s = Inr s' \<Longrightarrow> evolves s s'"
  by (auto simp: insert_request_def evolves_def split: if_splits)

lemma insert_grant_evolves [moves]: "insert_grant g s = Inr s' \<Longrightarrow> evolves s s'"
  by (auto simp: insert_grant_def evolves_def split: if_splits)

lemma update_grants_evolves [moves]:
  "(\<And>g. g \<in> set (grants s) \<Longrightarrow> P g \<Longrightarrow> grant_next g (f g)) \<Longrightarrow>
   evolves s (s\<lparr>grants := upd_where P f (grants s)\<rparr>)"
  by (auto simp: evolves_def intro!: rows_next_upd)

lemma insert_audit_evolves [moves]: "insert_audit v s = Inr s' \<Longrightarrow> evolves s s'"
  by (auto simp: insert_audit_def evolves_def split: if_splits)

lemma insert_effect_evolves [moves]: "insert_effect e s = Inr s' \<Longrightarrow> evolves s s'"
  by (auto simp: insert_effect_def evolves_def split: if_splits)

lemma update_effects_evolves [moves]:
  "(\<And>e. e \<in> set (effects s) \<Longrightarrow> P e \<Longrightarrow> effect_next e (f e)) \<Longrightarrow>
   evolves s (s\<lparr>effects := upd_where P f (effects s)\<rparr>)"
  by (auto simp: evolves_def intro!: rows_next_upd)

lemma insert_outbox_evolves [moves]: "insert_outbox e s = Inr s' \<Longrightarrow> evolves s s'"
  by (auto simp: insert_outbox_def evolves_def split: if_splits)

lemma insert_or_ignore_outbox_evolves [moves]: "evolves s (insert_or_ignore_outbox e s)"
  by (simp add: insert_or_ignore_outbox_def evolves_def)

lemma update_outbox_evolves [moves]:
  "(\<And>e. e \<in> set (outbox s) \<Longrightarrow> P e \<Longrightarrow> outbox_next e (f e)) \<Longrightarrow>
   evolves s (s\<lparr>outbox := upd_where P f (outbox s)\<rparr>)"
  by (auto simp: evolves_def intro!: rows_next_upd)

lemma insert_native_evolves [moves]: "insert_native n s = Inr s' \<Longrightarrow> evolves s s'"
  by (auto simp: insert_native_def evolves_def split: if_splits)

lemma update_natives_evolves [moves]:
  "(\<And>n. n \<in> set (natives s) \<Longrightarrow> P n \<Longrightarrow> native_next n (f n)) \<Longrightarrow>
   evolves s (s\<lparr>natives := upd_where P f (natives s)\<rparr>)"
  by (auto simp: evolves_def intro!: rows_next_upd)

lemma insert_or_ignore_output_evolves [moves]: "evolves s (insert_or_ignore_output r s)"
  by (simp add: insert_or_ignore_output_def evolves_def)

section \<open>The contract of a repository operation\<close>

definition legal :: "store \<Rightarrow> store \<Rightarrow> bool" where
  "legal s s' \<longleftrightarrow> (db_ok s \<longrightarrow> db_ok s' \<and> evolves s s')"

lemma legalI: "(db_ok s \<Longrightarrow> db_ok s') \<Longrightarrow> (db_ok s \<Longrightarrow> evolves s s') \<Longrightarrow> legal s s'"
  by (simp add: legal_def)

lemma legal_refl [simp, intro!]: "legal s s"
  by (simp add: legal_def)

lemma legal_trans [trans]: "legal s t \<Longrightarrow> legal t u \<Longrightarrow> legal s u"
  by (auto simp: legal_def intro: evolves_trans)

lemma legal_wake [simp]: "legal s (wake_workers t) = legal s t"
  by (simp add: legal_def)

lemma transaction_legal:
  "(\<And>a s'. body s = Inr (a, s') \<Longrightarrow> legal s s') \<Longrightarrow> legal s (snd (transaction body s))"
  by (auto simp: transaction_def split: sum.splits)

lemma waking_legal: "legal s (snd r) \<Longrightarrow> legal s (snd (waking r))"
  by (auto simp: waking_def split: prod.splits sum.splits)

lemma grant_record_keys:
  "g'\<lparr>g_uses_remaining := None\<rparr> = g\<lparr>g_uses_remaining := None\<rparr> \<Longrightarrow> g_id g' = g_id g \<and> g_request_id g' = g_request_id g"
  by (cases g; cases g') simp

text \<open>The legal statements, ready for chaining.\<close>

lemma update_jobs_legal:
  "(\<And>j. db_ok s \<Longrightarrow> j \<in> set (jobs s) \<Longrightarrow> P j \<Longrightarrow> job_edit j (f j) \<and> j_version j < j_version (f j)) \<Longrightarrow>
   legal s (update_jobs P f s)"
  by (rule legalI) (auto intro!: update_jobs_ok update_jobs_evolves simp: job_next_def job_edit_def)

lemma update_attempts_legal:
  "(\<And>a. db_ok s \<Longrightarrow> a \<in> set (attempts s) \<Longrightarrow> P a \<Longrightarrow> attempt_next a (f a)) \<Longrightarrow>
   legal s (update_attempts P f s)"
  by (rule legalI) (auto intro!: update_attempts_ok update_attempts_evolves simp: attempt_next_def)

lemma update_requests_legal:
  "(\<And>r. db_ok s \<Longrightarrow> r \<in> set (requests s) \<Longrightarrow> P r \<Longrightarrow> request_edit r (f r)) \<Longrightarrow>
   legal s (update_requests P f s)"
  by (rule legalI) (auto intro!: update_requests_ok update_requests_evolves simp: request_edit_def request_next_def)

lemma insert_request_legal: "insert_request r s = Inr s' \<Longrightarrow> legal s s'"
  by (rule legalI) (erule (1) insert_request_ok, erule insert_request_evolves)

lemma insert_grant_legal:
  "insert_grant g s = Inr s' \<Longrightarrow> approved (g_request_id g) (requests s) \<Longrightarrow>
   (case g_uses_remaining g of None \<Rightarrow> True | Some n \<Rightarrow> 0 \<le> n) \<Longrightarrow> legal s s'"
  by (rule legalI) (erule (3) insert_grant_ok, erule insert_grant_evolves)

lemma insert_effect_legal:
  "insert_effect e s = Inr s' \<Longrightarrow> effect_settled e \<Longrightarrow>
   \<exists>a\<in>set (attempts s). a_id a = e_owner_attempt_id e \<and> a_job_id a = e_job_id e \<Longrightarrow> legal s s'"
  by (rule legalI) (erule (3) insert_effect_ok, erule insert_effect_evolves)

lemma update_grants_legal:
  "(\<And>g. db_ok s \<Longrightarrow> g \<in> set (grants s) \<Longrightarrow> P g \<Longrightarrow> grant_next g (f g)
     \<and> (case g_uses_remaining (f g) of None \<Rightarrow> True | Some n \<Rightarrow> 0 \<le> n)) \<Longrightarrow>
   legal s (s\<lparr>grants := upd_where P f (grants s)\<rparr>)"
  by (rule legalI)
    (auto intro!: update_grants_ok update_grants_evolves simp: grant_next_def, (metis grant_record_keys)+)

lemma update_effects_legal:
  "(\<And>e. db_ok s \<Longrightarrow> e \<in> set (effects s) \<Longrightarrow> P e \<Longrightarrow> effect_next e (f e)
     \<and> e_job_id (f e) = e_job_id e \<and> e_owner_attempt_id (f e) = e_owner_attempt_id e \<and> effect_settled (f e)) \<Longrightarrow>
   legal s (s\<lparr>effects := upd_where P f (effects s)\<rparr>)"
  by (rule legalI) (auto intro!: update_effects_ok update_effects_evolves simp: effect_next_def)

lemma insert_audit_legal: "insert_audit v s = Inr s' \<Longrightarrow> (db_ok s \<Longrightarrow> chained (audit s) v) \<Longrightarrow> legal s s'"
  by (rule legalI) (simp add: insert_audit_ok, erule insert_audit_evolves)

lemma insert_outbox_legal: "insert_outbox e s = Inr s' \<Longrightarrow> legal s s'"
  by (rule legalI) (erule (1) insert_outbox_ok, erule insert_outbox_evolves)

lemma insert_or_ignore_outbox_legal: "legal s (insert_or_ignore_outbox e s)"
  by (rule legalI) (erule insert_or_ignore_outbox_ok, rule insert_or_ignore_outbox_evolves)

lemma update_outbox_legal:
  "(\<And>e. e \<in> set (outbox s) \<Longrightarrow> P e \<Longrightarrow> outbox_next e (f e)) \<Longrightarrow>
   legal s (s\<lparr>outbox := upd_where P f (outbox s)\<rparr>)"
  by (rule legalI) (auto intro!: update_outbox_ok update_outbox_evolves simp: outbox_next_def)

lemma update_natives_legal:
  "(\<And>n. n \<in> set (natives s) \<Longrightarrow> P n \<Longrightarrow> native_next n (f n)) \<Longrightarrow>
   legal s (s\<lparr>natives := upd_where P f (natives s)\<rparr>)"
  by (rule legalI) (auto intro!: update_natives_ok update_natives_evolves simp: native_next_def)

text \<open>
  The interface a client of the store relies on: one operation is a legal move. Sequences of
  operations are legal moves again, and what a client read from a settled row stays true.
\<close>

locale coordination_op =
  fixes op :: "store \<Rightarrow> 'a result \<times> store"
  assumes op_legal: "legal s (snd (op s))"
begin

lemma op_keeps_ok: "db_ok s \<Longrightarrow> db_ok (snd (op s))"
  using op_legal[of s] by (simp add: legal_def)

lemma op_evolves: "db_ok s \<Longrightarrow> evolves s (snd (op s))"
  using op_legal[of s] by (simp add: legal_def)

lemma op_revision: "db_ok s \<Longrightarrow> revision s \<le> revision (snd (op s))"
  using op_evolves[of s] by (simp add: evolves_def)

lemma op_keeps_completed_effect:
  "db_ok s \<Longrightarrow> e \<in> set (effects s) \<Longrightarrow> e_status e = EffectCompleted \<Longrightarrow> e \<in> set (effects (snd (op s)))"
  using op_evolves[of s] by (auto simp: evolves_def rows_next_def effect_next_def)

lemma op_keeps_decision:
  "db_ok s \<Longrightarrow> r \<in> set (requests s) \<Longrightarrow> r_status r \<noteq> ApprovalPending \<Longrightarrow> r \<in> set (requests (snd (op s)))"
  using op_evolves[of s] by (auto simp: evolves_def rows_next_def request_next_def)

end

end
