(* ===== verification/Samples.thy ===== *)
theory Samples
  imports Db_Invariant
begin

text \<open>
  Concrete rows and states for the examples that accompany the properties. \<open>sample_env\<close> keeps
  texts as they are and hashes injectively; \<open>sample_job\<close> and \<open>sample_attempt\<close> are a claimed
  job and its live attempt; \<open>waiting_store\<close> has a job that waits for the decision on
  \<open>pending_request\<close>.
\<close>

definition sample_env :: env where
  "sample_env = \<lparr>redact_text = (\<lambda>t. t), sha256 = (\<lambda>t. CHR ''#'' # t), iso_text = show_int\<rparr>"

definition sample_job :: job where
  "sample_job = \<lparr>j_id = ''job_1'', j_origin = ''manual'', j_idempotency_key_hash = ''#k'',
     j_status = JobRunning, j_session_id = ''s'', j_user_message_id = ''m'',
     j_initial_run_id = ''run_1'', j_created_at = 10, j_updated_at = 10, j_project_id = None,
     j_workflow_id = None, j_workflow_version = None, j_schedule_id = None, j_agent_id = None,
     j_available_at = Some 10, j_terminal_at = None, j_cancel_requested_at = None,
     j_max_attempts = 2, j_priority = 0, j_version = 1, j_error_summary = None,
     j_required_harness_id = None, j_required_fingerprint = JObj [], j_required_os = None,
     j_timeout = None, j_approval_request_id = None\<rparr>"

definition queued_job :: job where
  "queued_job = sample_job\<lparr>j_status := JobQueued, j_version := 0\<rparr>"

definition sample_attempt :: attempt where
  "sample_attempt = \<lparr>a_id = ''attempt_1'', a_job_id = ''job_1'', a_number = 1,
     a_status = AttemptRunning, a_run_id = ''run_1'', a_created_at = 10, a_updated_at = 10,
     a_lease_owner = Some ''w'', a_leased_until = Some 50, a_heartbeat_at = Some 10,
     a_started_at = Some 10, a_finished_at = None, a_process_id = None,
     a_process_group_id = None, a_retry_reason = None, a_idempotency_class = ''read_only'',
     a_error_summary = None, a_fingerprint = JObj [], a_version = 0\<rparr>"

definition queued_store :: store where
  "queued_store = empty_store\<lparr>jobs := [queued_job]\<rparr>"

definition running_store :: store where
  "running_store = empty_store\<lparr>jobs := [sample_job], attempts := [sample_attempt]\<rparr>"

definition sample_context :: policy_context where
  "sample_context = \<lparr>pc_project_id = None, pc_session_id = Some ''s'', pc_run_id = Some ''run_1'',
     pc_job_id = Some ''job_1'', pc_reason = ''fetch'', pc_preview = None,
     pc_approval_binding = None, pc_enforcement_owner = Some ''proxy''\<rparr>"

definition sample_resolution :: policy_resolution where
  "sample_resolution = \<lparr>pr_action = NETWORK_CONNECT, pr_decision = ASK, pr_enforcement = ENFORCED_BY_HARNESS,
     pr_source = ''profile:unattended''\<rparr>"

definition pending_request :: approval_request where
  "pending_request = \<lparr>r_id = ''approval_1'', r_action = NETWORK_CONNECT, r_status = ApprovalPending,
     r_enforcement = ENFORCED_BY_HARNESS, r_policy_source = ''profile:unattended'',
     r_enforcement_owner = Some ''proxy'', r_reason = ''fetch'', r_preview = JObj [],
     r_created_at = 11, r_expires_at = Some 100, r_decided_at = None, r_decision = None,
     r_project_id = None, r_session_id = Some ''s'', r_run_id = Some ''run_1'',
     r_job_id = Some ''job_1'', r_dedupe_key = ''#d''\<rparr>"

definition waiting_store :: store where
  "waiting_store = empty_store\<lparr>jobs := [sample_job\<lparr>j_status := JobWaitingApproval,
     j_approval_request_id := Some ''approval_1''\<rparr>], requests := [pending_request]\<rparr>"

definition sample_grant :: approval_grant where
  "sample_grant = \<lparr>g_id = ''grant_1'', g_request_id = ''approval_1'', g_action = NETWORK_CONNECT,
     g_scope_type = ''job'', g_scope_id = ''job_1'', g_created_at = 12, g_expires_at = None,
     g_uses_remaining = Some 1\<rparr>"

definition granted_store :: store where
  "granted_store = empty_store\<lparr>jobs := [sample_job],
     requests := [pending_request\<lparr>r_status := ApprovalApproved, r_decision := Some ALLOW_ONCE, r_decided_at := Some 12\<rparr>],
     grants := [sample_grant]\<rparr>"

lemma sample_ok: "db_ok queued_store" "db_ok running_store" "db_ok waiting_store" "db_ok granted_store"
  by code_simp+

end
