(* ===== verification/Outbox.thy ===== *)
theory Outbox
  imports Samples
begin

text \<open>
  The transactional outbox (\<open>runtime/outbox/repository.py\<close>), the trace sequences and the runs
  center revision (\<open>runtime/revisions/repository.py\<close>). The outbox bridges the coordination
  database to the run history: an entry is enqueued in the transaction that settles a job and
  stays pending until the reconciler has applied it.
\<close>

definition next_trace_sequence :: "string \<Rightarrow> int op" where
  "next_trace_sequence trace = transaction (\<lambda>s.
     and_then (required_text trace ''trace_id'') (\<lambda>trace_id.
       let seq = (case map_of (traces s) trace_id of Some n \<Rightarrow> n + 1 | None \<Rightarrow> 1);
           rest = filter (\<lambda>p. fst p \<noteq> trace_id) (traces s)
       in Inr (seq, s\<lparr>traces := rest @ [(trace_id, seq)]\<rparr>)))"

definition pending_outbox :: "int \<Rightarrow> store \<Rightarrow> outbox_entry list" where
  "pending_outbox limit s = take (nat (max 0 limit))
     (order_by (\<lambda>e. (o_created_at e, o_id e)) (filter (\<lambda>e. o_processed_at e = None) (outbox s)))"

definition mark_outbox_processed :: "time \<Rightarrow> string \<Rightarrow> unit op" where
  "mark_outbox_processed now entry_id = transaction (\<lambda>s. Inr ((), s\<lparr>outbox := upd_where
     (\<lambda>e. o_id e = entry_id \<and> o_processed_at e = None)
     (\<lambda>e. e\<lparr>o_processed_at := Some now, o_attempt_count := o_attempt_count e + 1, o_last_error := None\<rparr>)
     (outbox s)\<rparr>))"

definition record_outbox_failure :: "env \<Rightarrow> string \<Rightarrow> string \<Rightarrow> unit op" where
  "record_outbox_failure E entry_id err = transaction (\<lambda>s. Inr ((), s\<lparr>outbox := upd_where
     (\<lambda>e. o_id e = entry_id \<and> o_processed_at e = None)
     (\<lambda>e. e\<lparr>o_attempt_count := o_attempt_count e + 1, o_last_error := safe_optional_text E (Some err)\<rparr>)
     (outbox s)\<rparr>))"

definition terminal_entry ::
    "string \<Rightarrow> time \<Rightarrow> string \<Rightarrow> job_status \<Rightarrow> int \<Rightarrow> string \<Rightarrow> attempt option \<Rightarrow> outbox_entry" where
  "terminal_entry uuid now job_id status version session_id attempt = \<lparr>
     o_id = new_id ''outbox'' uuid,
     o_aggregate_type = ''job'',
     o_aggregate_id = job_id,
     o_event_type = ''job_terminal'',
     o_dedupe_key = ''job:'' @ job_id @ '':terminal:'' @ show_int version,
     o_payload = JObj [
       (''job_id'', JStr job_id),
       (''status'', JStr (job_status_value status)),
       (''session_id'', JStr session_id),
       (''attempt_id'', case attempt of None \<Rightarrow> JNull | Some a \<Rightarrow> JStr (a_id a)),
       (''run_id'', case attempt of None \<Rightarrow> JNull | Some a \<Rightarrow> JStr (a_run_id a))],
     o_created_at = now, o_processed_at = None, o_attempt_count = 0, o_last_error = None\<rparr>"

definition enqueue_terminal_sync ::
    "string \<Rightarrow> time \<Rightarrow> string \<Rightarrow> job_status \<Rightarrow> int \<Rightarrow> string \<Rightarrow> attempt option \<Rightarrow> store \<Rightarrow> store" where
  "enqueue_terminal_sync uuid now job_id status version session_id attempt s =
     insert_or_ignore_outbox (terminal_entry uuid now job_id status version session_id attempt) s"

text \<open>\<open>f"{revision:064x}"\<close>: the revision in lower-case hexadecimal, padded to 64 digits.\<close>

fun show_hex :: "nat \<Rightarrow> string" where
  "show_hex n = (if n < 16 then [hex_digit n] else show_hex (n div 16) @ [hex_digit (n mod 16)])"

declare show_hex.simps [simp del]

definition runs_center_revision :: "store \<Rightarrow> string result" where
  "runs_center_revision s =
     (if revision s < 0 then Inl (RuntimeError ''runs_center runtime revision is invalid'')
      else let digits = show_hex (nat (revision s)) in
           Inr (replicate (64 - length digits) CHR ''0'' @ digits))"

section \<open>Contracts\<close>

lemma next_trace_sequence_legal: "legal s (snd (next_trace_sequence trace s))"
  unfolding next_trace_sequence_def
  by (rule transaction_legal) (auto simp: and_then_Inr_iff Let_def intro!: legalI evolves_other)

interpretation next_trace_sequence: coordination_op "next_trace_sequence trace" for trace
  by unfold_locales (rule next_trace_sequence_legal)

interpretation mark_outbox_processed: coordination_op "mark_outbox_processed now i" for now i
  unfolding mark_outbox_processed_def
  by unfold_locales (rule transaction_legal, auto intro!: update_outbox_legal simp: outbox_next_def)

interpretation record_outbox_failure: coordination_op "record_outbox_failure E i err" for E i err
  unfolding record_outbox_failure_def
  by unfold_locales (rule transaction_legal, auto intro!: update_outbox_legal simp: outbox_next_def)

lemma enqueue_terminal_sync_legal: "legal s (enqueue_terminal_sync uuid now i st v sess att s)"
  unfolding enqueue_terminal_sync_def by (rule insert_or_ignore_outbox_legal)

lemma enqueue_terminal_sync_frame [simp]:
  "jobs (enqueue_terminal_sync uuid now i st v sess att s) = jobs s"
  "attempts (enqueue_terminal_sync uuid now i st v sess att s) = attempts s"
  "grants (enqueue_terminal_sync uuid now i st v sess att s) = grants s"
  "requests (enqueue_terminal_sync uuid now i st v sess att s) = requests s"
  "audit (enqueue_terminal_sync uuid now i st v sess att s) = audit s"
  "effects (enqueue_terminal_sync uuid now i st v sess att s) = effects s"
  "wakes (enqueue_terminal_sync uuid now i st v sess att s) = wakes s"
  "revision (enqueue_terminal_sync uuid now i st v sess att s) = revision s"
  by (simp_all add: enqueue_terminal_sync_def insert_or_ignore_outbox_def)

section \<open>Sequences and delivery\<close>

definition last_sequence :: "store \<Rightarrow> string \<Rightarrow> int" where
  "last_sequence s t = (case map_of (traces s) t of Some n \<Rightarrow> n | None \<Rightarrow> 0)"

lemma map_of_filter_neq: "map_of (filter (\<lambda>p. fst p \<noteq> k) ps) t = (if t = k then None else map_of ps t)"
  by (induction ps) auto

lemma next_trace_sequence_step:
  assumes "next_trace_sequence trace s = (Inr n, s')"
  shows "n = last_sequence s (strip trace) + 1 \<and> last_sequence s' (strip trace) = n \<and>
    (\<forall>t. t \<noteq> strip trace \<longrightarrow> last_sequence s' t = last_sequence s t)"
proof -
  from assms have s': "s' = s\<lparr>traces := filter (\<lambda>p. fst p \<noteq> strip trace) (traces s) @ [(strip trace, n)]\<rparr>"
    and n: "n = (case map_of (traces s) (strip trace) of Some n \<Rightarrow> n + 1 | None \<Rightarrow> 1)"
    by (auto simp: next_trace_sequence_def transaction_Inr_iff and_then_Inr_iff required_text_Inr Let_def)
  show ?thesis unfolding s' last_sequence_def
    by (auto simp: n map_of_filter_neq map_add_def split: option.splits)
qed

lemma set_take_subsetD: "x \<in> set (take n xs) \<Longrightarrow> x \<in> set xs"
  by (meson in_set_takeD)

lemma pending_outbox_pending: "e \<in> set (pending_outbox limit s) \<Longrightarrow> e \<in> set (outbox s) \<and> o_processed_at e = None"
  by (auto simp: pending_outbox_def dest!: set_take_subsetD)

lemma mark_outbox_processed_not_pending:
  assumes "mark_outbox_processed now i s = (Inr (), s')"
  shows "\<forall>e\<in>set (pending_outbox limit s'). o_id e \<noteq> i"
proof -
  from assms have s': "s' = s\<lparr>outbox := upd_where (\<lambda>e. o_id e = i \<and> o_processed_at e = None)
     (\<lambda>e. e\<lparr>o_processed_at := Some now, o_attempt_count := o_attempt_count e + 1, o_last_error := None\<rparr>)
     (outbox s)\<rparr>" by (simp add: mark_outbox_processed_def transaction_Inr_iff)
  show ?thesis
  proof
    fix e assume "e \<in> set (pending_outbox limit s')"
    then have "e \<in> set (outbox s')" "o_processed_at e = None"
      using pending_outbox_pending [of e limit s'] by simp_all
    from this(1)[unfolded s', simplified] show "o_id e \<noteq> i"
      by (rule upd_whereE) (use \<open>o_processed_at e = None\<close> in auto)
  qed
qed

lemma show_hex_nonempty: "show_hex n \<noteq> []"
  by (subst show_hex.simps) simp

lemma show_hex_length: "n < 16 ^ k \<Longrightarrow> 0 < k \<Longrightarrow> length (show_hex n) \<le> k"
proof (induction n arbitrary: k rule: show_hex.induct)
  case (1 n)
  show ?case
  proof (cases "n < 16")
    case True
    with 1 show ?thesis by (subst show_hex.simps) simp
  next
    case False
    then obtain k' where k: "k = Suc k'" "0 < k'"
      using "1.prems" by (cases k; cases "k - 1") auto
    with "1.prems" have "n div 16 < 16 ^ k'" by (simp add: less_mult_imp_div_less mult.commute)
    with "1.IH"[of k'] False k show ?thesis by (subst show_hex.simps) simp
  qed
qed

end
