(* ===== verification/Jobs.thy ===== *)
theory Jobs
  imports Outbox
begin

text \<open>
  The logical jobs of \<open>runtime/jobs/repository.py\<close>: idempotent submission, paged listing,
  guarded status transitions with their terminal outbox entry, cancellation requests, workflow
  links and the explicit retry of a failed job.
\<close>

section \<open>Operations\<close>

text \<open>The keyword arguments of \<open>submit_job\<close>.\<close>

record job_request =
  q_session_id :: string
  q_user_message_id :: string
  q_idempotency_key :: string
  q_initial_run_id :: "string option"
  q_origin :: string
  q_project_id :: "string option"
  q_workflow_id :: "string option"
  q_workflow_version :: "string option"
  q_schedule_id :: "string option"
  q_agent_id :: "string option"
  q_max_attempts :: int
  q_priority :: int
  q_available_at :: "time option"
  q_required_harness_id :: "string option"
  q_required_fingerprint :: "json option"
  q_timeout :: "int option"
  q_initial_status :: string

text \<open>A Python value of optional text is falsy when missing or empty.\<close>

definition or_else :: "string option \<Rightarrow> string \<Rightarrow> string" where
  "or_else value other = (case value of None \<Rightarrow> other | Some v \<Rightarrow> if v = [] then other else v)"

text \<open>The row \<open>submit_job\<close> inserts, after the checks on its arguments.\<close>

definition submitted_row ::
    "env \<Rightarrow> time \<Rightarrow> string \<Rightarrow> string \<Rightarrow> job_request \<Rightarrow> job result" where
  "submitted_row E now job_uuid run_uuid q =
     and_then (required_text (q_session_id q) ''session_id'') (\<lambda>session_id.
     and_then (required_text (q_user_message_id q) ''user_message_id'') (\<lambda>user_message_id.
     and_then (required_text (q_origin q) ''origin'') (\<lambda>origin.
     and_then (parse_job_status (q_initial_status q)) (\<lambda>submit_status.
     and_then (guard (submit_status \<in> {JobQueued, JobWaitingInput, JobWaitingApproval})
       (ValueError ''initial job status must be queued, waiting_input, or waiting_approval'')) (\<lambda>_.
     and_then (required_text (or_else (q_initial_run_id q) (new_id ''run'' run_uuid)) ''initial_run_id'')
       (\<lambda>initial_run_id.
     and_then (guard (1 \<le> q_max_attempts q) (ValueError ''max_attempts must be positive'')) (\<lambda>_.
     and_then (idempotency_hash E (q_idempotency_key q)) (\<lambda>key_hash.
       let required_fingerprint = (case q_required_fingerprint q of None \<Rightarrow> JObj [] | Some f \<Rightarrow> f) in
       Inr \<lparr>j_id = new_id ''job'' job_uuid,
         j_origin = origin,
         j_idempotency_key_hash = key_hash,
         j_status = submit_status,
         j_session_id = session_id,
         j_user_message_id = user_message_id,
         j_initial_run_id = initial_run_id,
         j_created_at = now,
         j_updated_at = now,
         j_project_id = optional_text (q_project_id q),
         j_workflow_id = optional_text (q_workflow_id q),
         j_workflow_version = optional_text (q_workflow_version q),
         j_schedule_id = optional_text (q_schedule_id q),
         j_agent_id = optional_text (q_agent_id q),
         j_available_at = Some (case q_available_at q of None \<Rightarrow> now | Some t \<Rightarrow> t),
         j_terminal_at = None,
         j_cancel_requested_at = None,
         j_max_attempts = q_max_attempts q,
         j_priority = q_priority q,
         j_version = 0,
         j_error_summary = None,
         j_required_harness_id = optional_text (q_required_harness_id q),
         j_required_fingerprint = redact_for_storage E required_fingerprint,
         j_required_os = optional_json_text (jget required_fingerprint ''os''),
         j_timeout = q_timeout q,
         j_approval_request_id = None\<rparr>))))))))"

definition job_identity where
  "job_identity j = (j_session_id j, j_user_message_id j, j_project_id j, j_workflow_id j,
     j_workflow_version j, j_schedule_id j, j_agent_id j)"

text \<open>
  Insert, or on a constraint failure return the job bound to the same key when its identity
  matches. A new queued job wakes the workers.
\<close>

definition submit_job_tx ::
    "env \<Rightarrow> time \<Rightarrow> string \<Rightarrow> string \<Rightarrow> job_request \<Rightarrow> store \<Rightarrow> (((job \<times> bool) \<times> bool) \<times> store) result" where
  "submit_job_tx E now job_uuid run_uuid q s =
     and_then (submitted_row E now job_uuid run_uuid q) (\<lambda>row.
       case insert_job row s of
         Inr s' \<Rightarrow> Inr (((row, True), j_status row = JobQueued), s')
       | Inl _ \<Rightarrow>
           and_then (fetch IntegrityError (row_by job_key (job_key row) (jobs s))) (\<lambda>existing.
           and_then (guard (job_identity existing = job_identity row) IdempotencyConflictError) (\<lambda>_.
             Inr (((existing, False), False), s))))"

definition submit_job ::
    "env \<Rightarrow> time \<Rightarrow> string \<Rightarrow> string \<Rightarrow> job_request \<Rightarrow> (job \<times> bool) op" where
  "submit_job E now job_uuid run_uuid q s =
     waking (transaction (submit_job_tx E now job_uuid run_uuid q) s)"

definition find_job_by_idempotency :: "env \<Rightarrow> string \<Rightarrow> string \<Rightarrow> store \<Rightarrow> job option result" where
  "find_job_by_idempotency E origin idempotency_key s =
     and_then (required_text origin ''origin'') (\<lambda>origin.
     and_then (idempotency_hash E idempotency_key) (\<lambda>key_hash.
       Inr (row_by job_key (origin, key_hash) (jobs s))))"

definition get_job :: "string \<Rightarrow> store \<Rightarrow> job result" where
  "get_job job_id s = fetch (JobNotFoundError job_id) (job_by job_id s)"

definition list_jobs :: "store \<Rightarrow> job list" where
  "list_jobs s = order_by (\<lambda>j. (j_created_at j, j_id j)) (jobs s)"

text \<open>
  Newest-first pages. \<open>ORDER BY created_at DESC, id DESC\<close> is the reverse of the ascending
  order, which is total because ids are unique.
\<close>

definition list_jobs_page ::
    "job_status list \<Rightarrow> string option \<Rightarrow> string option \<Rightarrow> (time \<times> string) option \<Rightarrow> int
     \<Rightarrow> store \<Rightarrow> (job list \<times> bool) result" where
  "list_jobs_page statuses project_id harness_id cursor limit s =
     (let page_size = nat (max 1 (min limit 100)) in
      and_then (case project_id of None \<Rightarrow> Inr None
                | Some p \<Rightarrow> and_then (required_text p ''project_id'') (\<lambda>t. Inr (Some t))) (\<lambda>project.
      and_then (case harness_id of None \<Rightarrow> Inr None
                | Some h \<Rightarrow> and_then (required_text h ''harness_id'') (\<lambda>t. Inr (Some t))) (\<lambda>harness.
        let rows = take (Suc page_size) (rev (order_by (\<lambda>j. (j_created_at j, j_id j))
              (filter (\<lambda>j. (statuses = [] \<or> j_status j \<in> set statuses)
                 \<and> (project = None \<or> j_project_id j = project)
                 \<and> (harness = None \<or> j_required_harness_id j = harness)
                 \<and> (case cursor of None \<Rightarrow> True | Some c \<Rightarrow> (j_created_at j, j_id j) < c)) (jobs s))))
        in Inr (take page_size rows, page_size < length rows))))"

definition latest_attempt :: "string \<Rightarrow> store \<Rightarrow> attempt option" where
  "latest_attempt job_id s =
     (case rev (order_by a_number (filter (\<lambda>a. a_job_id a = job_id) (attempts s))) of
        [] \<Rightarrow> None | a # _ \<Rightarrow> Some a)"

definition transition_edit ::
    "env \<Rightarrow> time \<Rightarrow> job_status \<Rightarrow> string option \<Rightarrow> time option \<Rightarrow> int \<Rightarrow> job \<Rightarrow> job" where
  "transition_edit E now target error_summary available_at next_version j = j\<lparr>
     j_status := target,
     j_available_at := (case available_at of None \<Rightarrow> j_available_at j | Some t \<Rightarrow> Some t),
     j_terminal_at := (if terminal_job target then Some now else None),
     j_error_summary := safe_optional_text E error_summary,
     j_updated_at := now,
     j_version := next_version\<rparr>"

definition transition_job_tx ::
    "env \<Rightarrow> time \<Rightarrow> string \<Rightarrow> string \<Rightarrow> job_status \<Rightarrow> job_status option \<Rightarrow> string option
     \<Rightarrow> time option \<Rightarrow> store \<Rightarrow> ((job \<times> bool) \<times> store) result" where
  "transition_job_tx E now outbox_uuid job_id target expected error_summary available_at s =
     and_then (fetch (JobNotFoundError job_id) (job_by job_id s)) (\<lambda>current.
     and_then (guard (case expected of None \<Rightarrow> True | Some e \<Rightarrow> j_status current = e)
       (ConcurrentUpdateError job_id)) (\<lambda>_.
       if j_status current = target then Inr ((current, False), s)
       else and_then (guard (\<not> terminal_job (j_status current)) (InvalidStateTransitionError job_id)) (\<lambda>_.
         let next_version = j_version current + 1;
             P = (\<lambda>j. j_id j = job_id \<and> j_version j = j_version current);
             s1 = update_jobs P (transition_edit E now target error_summary available_at next_version) s
         in and_then (guard (changes P (jobs s) = 1) (ConcurrentUpdateError job_id)) (\<lambda>_.
            let s2 = (if terminal_job target
                      then enqueue_terminal_sync outbox_uuid now job_id target next_version
                             (j_session_id current) (latest_attempt job_id s1) s1
                      else s1)
            in and_then (fetch (JobNotFoundError job_id) (job_by job_id s2)) (\<lambda>updated.
                 Inr ((updated, True), s2))))))"

definition transition_job ::
    "env \<Rightarrow> time \<Rightarrow> string \<Rightarrow> string \<Rightarrow> job_status \<Rightarrow> job_status option \<Rightarrow> string option
     \<Rightarrow> time option \<Rightarrow> job op" where
  "transition_job E now outbox_uuid job_id target expected error_summary available_at s =
     waking (transaction (transition_job_tx E now outbox_uuid job_id target expected error_summary available_at) s)"

text \<open>
  \<open>find_job_for_run\<close>: the LEFT JOIN of the jobs with their attempts, newest attempt first; a job
  without attempts joins with NULL, which SQLite sorts last in descending order.
\<close>

definition find_job_for_run :: "string \<Rightarrow> store \<Rightarrow> job option" where
  "find_job_for_run run_id s =
     (let joined = concat (map (\<lambda>j.
            let own = filter (\<lambda>a. a_job_id a = j_id j) (attempts s) in
            if own = [] then (if j_initial_run_id j = run_id then [(0, j)] else [])
            else map (\<lambda>a. (a_number a, j))
                   (filter (\<lambda>a. j_initial_run_id j = run_id \<or> a_run_id a = run_id) own)) (jobs s))
      in case rev (order_by fst joined) of [] \<Rightarrow> None | r # _ \<Rightarrow> Some (snd r))"

definition link_job_workflow :: "time \<Rightarrow> string \<Rightarrow> string \<Rightarrow> string \<Rightarrow> job op" where
  "link_job_workflow now job_id workflow_id workflow_version s =
     (let (res, s') = transaction (\<lambda>s. Inr ((), update_jobs
          (\<lambda>j. j_id j = job_id \<and> (j_workflow_id j = None \<or> j_workflow_id j = Some workflow_id))
          (\<lambda>j. j\<lparr>j_workflow_id := Some workflow_id, j_workflow_version := Some workflow_version,
                j_updated_at := now, j_version := j_version j + 1\<rparr>) s)) s
      in (and_then (fetch (JobNotFoundError job_id) (job_by job_id s')) (\<lambda>job.
          and_then (guard (j_workflow_id job = Some workflow_id) (ConcurrentUpdateError job_id)) (\<lambda>_.
            Inr job)), s'))"

definition request_cancel :: "time \<Rightarrow> string \<Rightarrow> job op" where
  "request_cancel now job_id s =
     (let (res, s') = transaction (\<lambda>s. Inr ((), update_jobs
          (\<lambda>j. j_id j = job_id \<and> j_status j \<notin> {JobSucceeded, JobFailed, JobCanceled})
          (\<lambda>j. j\<lparr>j_cancel_requested_at := (case j_cancel_requested_at j of None \<Rightarrow> Some now | Some t \<Rightarrow> Some t),
                j_updated_at := now, j_version := j_version j + 1\<rparr>) s)) s
      in (fetch (JobNotFoundError job_id) (job_by job_id s'), s'))"

definition retry_edit :: "time \<Rightarrow> int \<Rightarrow> job \<Rightarrow> job" where
  "retry_edit now next_max_attempts j = j\<lparr>j_status := JobQueued, j_available_at := Some now,
     j_terminal_at := None, j_cancel_requested_at := None, j_max_attempts := next_max_attempts,
     j_error_summary := None, j_updated_at := now, j_version := j_version j + 1\<rparr>"

definition retry_safe_job_tx :: "time \<Rightarrow> string \<Rightarrow> store \<Rightarrow> ((job \<times> bool) \<times> store) result" where
  "retry_safe_job_tx now job_id s =
     and_then (fetch (JobNotFoundError job_id) (job_by job_id s)) (\<lambda>job.
     and_then (guard (j_status job = JobFailed) (InvalidStateTransitionError job_id)) (\<lambda>_.
     and_then (fetch (InvalidStateTransitionError job_id) (latest_attempt job_id s)) (\<lambda>attempt.
     and_then (guard (a_status attempt \<in> {AttemptFailed, AttemptInterrupted}
                      \<and> retry_safe (a_idempotency_class attempt))
       (InvalidStateTransitionError job_id)) (\<lambda>_.
       let next_max_attempts = max (j_max_attempts job) (a_number attempt + 1);
           P = (\<lambda>j. j_id j = job_id \<and> j_status j = JobFailed);
           s1 = update_jobs P (retry_edit now next_max_attempts) s
       in and_then (guard (changes P (jobs s) = 1) (ConcurrentUpdateError job_id)) (\<lambda>_.
          and_then (fetch (JobNotFoundError job_id) (job_by job_id s1)) (\<lambda>updated.
            Inr ((updated, True), s1)))))))"

definition retry_safe_job :: "time \<Rightarrow> string \<Rightarrow> job op" where
  "retry_safe_job now job_id s = waking (transaction (retry_safe_job_tx now job_id) s)"

section \<open>Contracts\<close>

lemma submitted_row_Inr:
  assumes "submitted_row E now ju ru q = Inr row"
  shows "j_id row = new_id ''job'' ju" "j_status row \<in> {JobQueued, JobWaitingInput, JobWaitingApproval}"
    "j_terminal_at row = None" "1 \<le> j_max_attempts row" "j_version row = 0" "j_created_at row = now"
  using assms by (auto simp: submitted_row_def and_then_Inr_iff Let_def)

lemma submitted_row_lifecycle: "submitted_row E now ju ru q = Inr row \<Longrightarrow> job_lifecycle row"
  using submitted_row_Inr [of E now ju ru q row] by (auto simp: job_lifecycle_def)

lemma insert_job_legal: "insert_job j s = Inr s' \<Longrightarrow> job_lifecycle j \<Longrightarrow> legal s s'"
  by (rule legalI) (erule (2) insert_job_ok, erule insert_job_evolves)

lemma submit_job_tx_legal:
  assumes "submit_job_tx E now ju ru q s = Inr (r, s')"
  shows "legal s s'"
proof -
  from assms obtain row where row: "submitted_row E now ju ru q = Inr row"
    by (auto simp: submit_job_tx_def and_then_Inr_iff)
  with assms show ?thesis
    by (cases "insert_job row s")
      (auto simp: submit_job_tx_def and_then_Inr_iff intro: insert_job_legal submitted_row_lifecycle)
qed

interpretation submit_job: coordination_op "submit_job E now ju ru q" for E now ju ru q
  by unfold_locales
    (auto simp: submit_job_def intro!: waking_legal transaction_legal dest: submit_job_tx_legal)

lemma transition_job_tx_legal:
  assumes "transition_job_tx E now ou i target expected err av s = Inr (r, s')"
  shows "legal s s'"
proof -
  from assms obtain current where current: "job_by i s = Some current"
    by (auto simp: transition_job_tx_def and_then_Inr_iff)
  define s1 where "s1 = update_jobs (\<lambda>j. j_id j = i \<and> j_version j = j_version current)
    (transition_edit E now target err av (j_version current + 1)) s"
  have "legal s s1" unfolding s1_def
    by (auto simp: job_edit_def job_lifecycle_def job_key_def transition_edit_def intro!: update_jobs_legal)
  moreover have "s' = s \<or> s' = s1 \<or> (\<exists>st v sess att. s' = enqueue_terminal_sync ou now i st v sess att s1)"
    using assms current
    by (auto simp: transition_job_tx_def and_then_Inr_iff Let_def s1_def split: if_splits)
  ultimately show ?thesis by (auto intro: legal_trans [OF _ enqueue_terminal_sync_legal])
qed

interpretation transition_job: coordination_op "transition_job E now ou i target expected err av"
  for E now ou i target expected err av
  by unfold_locales
    (auto simp: transition_job_def intro!: waking_legal transaction_legal dest: transition_job_tx_legal)

text \<open>The latest attempt of a job.\<close>

lemma latest_attempt_Some:
  assumes "latest_attempt i s = Some a"
  shows "a \<in> set (attempts s)" "a_job_id a = i"
    "\<And>b. b \<in> set (attempts s) \<Longrightarrow> a_job_id b = i \<Longrightarrow> a_number b \<le> a_number a"
proof -
  let ?own = "filter (\<lambda>a. a_job_id a = i) (attempts s)"
  from assms obtain bs where bs: "order_by a_number ?own = bs @ [a]"
    by (auto simp: latest_attempt_def rev_eq_Cons_iff split: list.splits)
  then have "set (bs @ [a]) = set ?own" by (metis set_order_by)
  then have mem: "a \<in> set ?own" by auto
  then show "a \<in> set (attempts s)" "a_job_id a = i" by auto
  fix b assume "b \<in> set (attempts s)" "a_job_id b = i"
  then have "b \<in> set (bs @ [a])" using \<open>set (bs @ [a]) = set ?own\<close> by auto
  moreover have "sorted (map a_number (bs @ [a]))" using bs by (metis sorted_order_by)
  ultimately show "a_number b \<le> a_number a" by (auto simp: sorted_append)
qed

lemma latest_attempt_None: "latest_attempt i s = None \<longleftrightarrow> (\<forall>a\<in>set (attempts s). a_job_id a \<noteq> i)"
proof -
  have "latest_attempt i s = None \<longleftrightarrow> order_by a_number (filter (\<lambda>a. a_job_id a = i) (attempts s)) = []"
    by (cases "rev (order_by a_number (filter (\<lambda>a. a_job_id a = i) (attempts s)))")
      (auto simp: latest_attempt_def)
  then show ?thesis by (simp add: filter_empty_conv)
qed

lemma retry_safe_job_tx_legal:
  assumes "retry_safe_job_tx now i s = Inr (r, s')"
  shows "legal s s'"
proof -
  from assms obtain job a where job: "job_by i s = Some job" and a: "latest_attempt i s = Some a"
    by (auto simp: retry_safe_job_tx_def and_then_Inr_iff)
  define m where "m = max (j_max_attempts job) (a_number a + 1)"
  have m: "j_max_attempts job \<le> m" by (simp add: m_def)
  have s': "s' = update_jobs (\<lambda>j. j_id j = i \<and> j_status j = JobFailed) (retry_edit now m) s"
    using assms job a by (auto simp: retry_safe_job_tx_def and_then_Inr_iff Let_def m_def)
  show ?thesis unfolding s'
  proof (rule update_jobs_legal)
    fix j assume ok: "db_ok s" and j: "j \<in> set (jobs s)" "j_id j = i \<and> j_status j = JobFailed"
    then have "job = j" using job row_by_distinct [OF db_ok_jobs [OF ok] j(1)] by simp
    with m show "job_edit j (retry_edit now m j) \<and> j_version j < j_version (retry_edit now m j)"
      by (auto simp: job_edit_def job_key_def job_lifecycle_def retry_edit_def)
  qed
qed

interpretation retry_safe_job: coordination_op "retry_safe_job now i" for now i
  by unfold_locales
    (auto simp: retry_safe_job_def intro!: waking_legal transaction_legal dest: retry_safe_job_tx_legal)

interpretation link_job_workflow: coordination_op "link_job_workflow now i wf wv" for now i wf wv
proof unfold_locales
  fix s
  show "legal s (snd (link_job_workflow now i wf wv s))"
    unfolding link_job_workflow_def transaction_def
    by (auto simp: Let_def job_edit_def job_lifecycle_def job_key_def intro!: update_jobs_legal)
qed

interpretation request_cancel: coordination_op "request_cancel now i" for now i
proof unfold_locales
  fix s
  show "legal s (snd (request_cancel now i s))"
    unfolding request_cancel_def transaction_def
    by (auto simp: Let_def job_edit_def job_lifecycle_def job_key_def intro!: update_jobs_legal)
qed

section \<open>What the operations promise\<close>

definition sample_request :: job_request where
  "sample_request = \<lparr>q_session_id = ''s'', q_user_message_id = ''m'', q_idempotency_key = '' k'',
     q_initial_run_id = Some ''run_1'', q_origin = ''manual'', q_project_id = None,
     q_workflow_id = None, q_workflow_version = None, q_schedule_id = None, q_agent_id = None,
     q_max_attempts = 2, q_priority = 0, q_available_at = None, q_required_harness_id = None,
     q_required_fingerprint = None, q_timeout = None, q_initial_status = ''queued''\<rparr>"

lemma submitted_row_identity:
  assumes "submitted_row E now ju ru q = Inr row" "submitted_row E now' ju' ru' q = Inr row'"
  shows "job_key row' = job_key row" "job_identity row' = job_identity row"
  using assms by (auto simp: submitted_row_def and_then_Inr_iff Let_def job_key_def job_identity_def)

lemma submit_job_known_key:
  assumes ok: "db_ok s" and row: "submitted_row E now ju ru q = Inr row"
    and old: "j \<in> set (jobs s)" "job_key j = job_key row"
  shows "submit_job E now ju ru q s =
    (if job_identity j = job_identity row then Inr (j, False) else Inl IdempotencyConflictError, s)"
proof -
  have "insert_job row s = Inl IntegrityError"
    using old(1) old(2) [symmetric] by (simp add: insert_job_def)
  moreover have "row_by job_key (job_key row) (jobs s) = Some j"
    using row_by_distinct [of job_key "jobs s" j] ok old by (simp add: db_ok_defs)
  ultimately show ?thesis
    using row by (simp add: submit_job_def submit_job_tx_def waking_def transaction_def guard_def)
qed

lemma submit_job_created:
  assumes "submit_job E now ju ru q s = (Inr (j, True), s')"
  shows "submitted_row E now ju ru q = Inr j" "jobs s' = jobs s @ [j]"
    "wakes s' = (if j_status j = JobQueued then Suc (wakes s) else wakes s)"
  using assms
  by (auto simp: submit_job_def submit_job_tx_def waking_Inr_iff transaction_Inr_iff and_then_Inr_iff
      insert_job_def split: sum.splits if_splits)

text \<open>
  C15. Submission is idempotent and conflicts are refused. Once a job is bound to an (origin,
  idempotency key), in whatever later state its row is still there, a submission with that key
  returns this job and creates nothing when the identity (session, message, project, workflow,
  schedule, agent) agrees, and fails with \<open>IdempotencyConflictError\<close> when it does not; the
  database is unchanged in both cases.
\<close>

theorem submit_job_idempotent:
  assumes "db_ok s" "j \<in> set (jobs s)"
    "submitted_row E now ju ru q = Inr row" "job_key j = job_key row"
  shows "submit_job E now ju ru q s =
    (if job_identity j = job_identity row then Inr (j, False) else Inl IdempotencyConflictError, s)"
  by (rule submit_job_known_key [OF assms(1,3,2,4)])

theorem submit_job_idempotent_witness:
  "submit_job sample_env 30 ''9'' ''9'' sample_request queued_store = (Inr (queued_job, False), queued_store)"
proof -
  have "submitted_row sample_env 30 ''9'' ''9'' sample_request = Inr (queued_job
      \<lparr>j_id := ''job_9'', j_created_at := 30, j_updated_at := 30, j_available_at := Some 30\<rparr>)"
    by code_simp
  from submit_job_idempotent [OF sample_ok(1) _ this, of queued_job]
  show ?thesis by (simp add: queued_store_def queued_job_def sample_job_def job_key_def job_identity_def)
qed

text \<open>A created job is visible under its id, and a repeated call returns it.\<close>

lemma submit_job_repeat:
  assumes "db_ok s" "submit_job E now ju ru q s = (Inr (j, True), s')"
    "submitted_row E now' ju' ru' q = Inr row'"
  shows "submit_job E now' ju' ru' q s' = (Inr (j, False), s')"
proof -
  note created = submit_job_created [OF assms(2)]
  have "db_ok s'" using submit_job.op_keeps_ok [OF assms(1)] assms(2) by (metis snd_conv)
  moreover have "j \<in> set (jobs s')" using created by simp
  ultimately show ?thesis
    using submit_job_known_key [OF _ assms(3)] submitted_row_identity [OF assms(3) created(1)] by simp
qed


text \<open>
  A guarded update of the row with a unique id reaches exactly that row.
\<close>

lemma job_by_update:
  assumes "\<And>j. P j \<Longrightarrow> j_id (f j) = j_id j"
  shows "job_by i (update_jobs P f s) = map_option (\<lambda>j. if P j then f j else j) (job_by i s)"
  using assms by (simp add: update_jobs_def row_by_upd_where)

lemma changes_id_version:
  assumes "db_ok s" "job_by i s = Some j" "Q j"
  shows "changes (\<lambda>k. j_id k = i \<and> Q k) (jobs s) = 1"
  using changes_unique [OF db_ok_jobs [OF assms(1)], of i Q] assms(2,3) by simp

lemma enqueue_terminal_sync_present:
  assumes "new_id ''outbox'' ou \<notin> o_id ` set (outbox s)"
  shows "o_dedupe_key (terminal_entry ou now i st v sess att) \<in>
    o_dedupe_key ` set (outbox (enqueue_terminal_sync ou now i st v sess att s))"
  using assms by (auto simp: enqueue_terminal_sync_def insert_or_ignore_outbox_def outbox_conflict_def terminal_entry_def)

lemma update_jobs_frame [simp]:
  "attempts (update_jobs P f s) = attempts s" "outbox (update_jobs P f s) = outbox s"
  "effects (update_jobs P f s) = effects s" "requests (update_jobs P f s) = requests s"
  "grants (update_jobs P f s) = grants s" "audit (update_jobs P f s) = audit s"
  "workers (update_jobs P f s) = workers s" "natives (update_jobs P f s) = natives s"
  by (simp_all add: update_jobs_def)

text \<open>
  C16. A status transition is guarded and complete. If \<open>transition_job\<close> returns, either the job
  already had the target status and nothing changed, or it was not terminal; then exactly this
  job's row changed: it has the target status, the next version, a terminal time exactly for a
  terminal target, and for a terminal target the outbox holds the terminal entry of that version.
\<close>

theorem transition_job_guarded:
  assumes ok: "db_ok s" and run: "transition_job E now ou i target expected err av s = (Inr j', s')"
    and fresh: "new_id ''outbox'' ou \<notin> o_id ` set (outbox s)"
  shows "\<exists>j. job_by i s = Some j \<and> (\<forall>e. expected = Some e \<longrightarrow> j_status j = e) \<and>
    (j_status j = target \<and> j' = j \<and> s' = s
     \<or> \<not> terminal_job (j_status j) \<and> j_status j' = target \<and> j_version j' = j_version j + 1
       \<and> j_terminal_at j' = (if terminal_job target then Some now else None)
       \<and> job_by i s' = Some j' \<and> (\<forall>k. k \<noteq> i \<longrightarrow> job_by k s' = job_by k s)
       \<and> (terminal_job target \<longrightarrow> ''job:'' @ i @ '':terminal:'' @ show_int (j_version j')
            \<in> o_dedupe_key ` set (outbox s')))"
proof -
  from run obtain w s0 where tx: "transition_job_tx E now ou i target expected err av s = Inr ((j', w), s0)"
    and s': "s' = (if w then wake_workers s0 else s0)"
    by (auto simp: transition_job_def waking_Inr_iff transaction_Inr_iff)
  from tx obtain j where j: "job_by i s = Some j"
    by (auto simp: transition_job_tx_def and_then_Inr_iff)
  have exp: "\<forall>e. expected = Some e \<longrightarrow> j_status j = e"
    using tx j by (auto simp: transition_job_tx_def and_then_Inr_iff)
  show ?thesis
  proof (cases "j_status j = target")
    case True
    with tx j s' exp show ?thesis by (auto simp: transition_job_tx_def and_then_Inr_iff)
  next
    case False
    define f where "f = transition_edit E now target err av (j_version j + 1)"
    define s1 where "s1 = update_jobs (\<lambda>k. j_id k = i \<and> j_version k = j_version j) f s"
    define s2 where "s2 = (if terminal_job target
      then enqueue_terminal_sync ou now i target (j_version j + 1) (j_session_id j) (latest_attempt i s1) s1 else s1)"
    have live: "\<not> terminal_job (j_status j)" and s0: "s0 = s2" and j': "job_by i s2 = Some j'" and w
      using tx j False
      by (auto simp: transition_job_tx_def and_then_Inr_iff Let_def s1_def s2_def f_def split: if_splits)
    have s1: "job_by k s1 = (if k = i then Some (f j) else job_by k s)" for k
      using j row_by_key [OF j]
      by (auto simp: s1_def f_def transition_edit_def job_by_update map_option_case dest: row_by_key split: option.splits)
    then have "f j = j'" using j' by (simp add: s2_def split: if_splits)
    then have edit: "j_status j' = target" "j_version j' = j_version j + 1"
      "j_terminal_at j' = (if terminal_job target then Some now else None)"
      by (auto simp: f_def transition_edit_def)
    have "o_dedupe_key (terminal_entry ou now i target (j_version j + 1) (j_session_id j) (latest_attempt i s1))
        \<in> o_dedupe_key ` set (outbox s2)" if "terminal_job target"
      unfolding s2_def using that fresh by (simp add: s1_def enqueue_terminal_sync_present)
    then have "terminal_job target \<longrightarrow> ''job:'' @ i @ '':terminal:'' @ show_int (j_version j') \<in> o_dedupe_key ` set (outbox s')"
      using \<open>w\<close> s' s0 edit by (auto simp: terminal_entry_def)
    moreover have "job_by k s' = (if k = i then Some j' else job_by k s)" for k
      using \<open>w\<close> s' s0 \<open>f j = j'\<close> by (cases "k = i") (simp_all add: s2_def s1)
    ultimately show ?thesis using j exp live edit by (intro exI [of _ j]) simp
  qed
qed

theorem transition_job_guarded_witness:
  "\<exists>j. job_by ''job_1'' running_store = Some j \<and> j_status j = JobRunning \<and>
     ''job:job_1:terminal:2'' \<in> o_dedupe_key ` set (outbox
       (snd (transition_job sample_env 20 ''1'' ''job_1'' JobSucceeded (Some JobRunning) None None running_store)))"
proof -
  have run: "transition_job sample_env 20 ''1'' ''job_1'' JobSucceeded (Some JobRunning) None None running_store =
    (Inr (sample_job\<lparr>j_status := JobSucceeded, j_terminal_at := Some 20, j_updated_at := 20, j_version := 2\<rparr>),
     snd (transition_job sample_env 20 ''1'' ''job_1'' JobSucceeded (Some JobRunning) None None running_store))"
    by code_simp
  have "new_id ''outbox'' ''1'' \<notin> o_id ` set (outbox running_store)" by code_simp
  moreover have "show_int 2 = ''2''" by code_simp
  ultimately show ?thesis
    using transition_job_guarded [OF sample_ok(2) run] by auto
qed

end
