(* ===== verification/Attempts.thy ===== *)
theory Attempts
  imports Jobs
begin

text \<open>
  The execution attempts of \<open>runtime/jobs/attempts.py\<close>: creation, lease renewal, guarded
  transitions, and the settlement of an attempt together with its job (retry, success, failure,
  cancellation), which is also how expired leases are recovered.
\<close>

section \<open>Operations\<close>

definition max_attempt_number :: "string \<Rightarrow> store \<Rightarrow> int" where
  "max_attempt_number job_id s =
     foldr max (map a_number (filter (\<lambda>a. a_job_id a = job_id) (attempts s))) 0"

definition restart_edit :: "time \<Rightarrow> job \<Rightarrow> job" where
  "restart_edit now j = j\<lparr>j_status := JobRunning, j_terminal_at := None, j_updated_at := now,
     j_version := j_version j + 1\<rparr>"

text \<open>The inserted row; the columns the INSERT leaves out take their defaults.\<close>

definition new_attempt ::
    "env \<Rightarrow> time \<Rightarrow> string \<Rightarrow> string \<Rightarrow> int \<Rightarrow> string \<Rightarrow> attempt_status \<Rightarrow> string option \<Rightarrow> time option
     \<Rightarrow> string option \<Rightarrow> string \<Rightarrow> attempt" where
  "new_attempt E now uuid job_id attempt_number run_id target lease_owner leased_until retry_reason
     idempotency_class = \<lparr>a_id = new_id ''attempt'' uuid, a_job_id = job_id, a_number = attempt_number,
     a_status = target, a_run_id = run_id, a_created_at = now, a_updated_at = now,
     a_lease_owner = optional_text lease_owner, a_leased_until = leased_until,
     a_heartbeat_at = None, a_started_at = None, a_finished_at = None,
     a_process_id = None, a_process_group_id = None,
     a_retry_reason = safe_optional_text E retry_reason,
     a_idempotency_class = idempotency_class, a_error_summary = None,
     a_fingerprint = JObj [], a_version = 0\<rparr>"

lemma new_attempt_simps [simp]:
  "a_job_id (new_attempt E now u i n run target lo lu rr ic) = i"
  "a_number (new_attempt E now u i n run target lo lu rr ic) = n"
  "a_id (new_attempt E now u i n run target lo lu rr ic) = new_id ''attempt'' u"
  by (simp_all add: new_attempt_def)

definition create_attempt_tx ::
    "env \<Rightarrow> time \<Rightarrow> string \<Rightarrow> string \<Rightarrow> string \<Rightarrow> attempt_status \<Rightarrow> string option \<Rightarrow> time option
     \<Rightarrow> string option \<Rightarrow> string \<Rightarrow> store \<Rightarrow> (attempt \<times> store) result" where
  "create_attempt_tx E now uuid job_id run_id target lease_owner leased_until retry_reason idempotency_class s =
     and_then (required_text run_id ''run_id'') (\<lambda>run_id.
     and_then (fetch (JobNotFoundError job_id) (job_by job_id s)) (\<lambda>job.
     and_then (guard (\<not> terminal_job (j_status job)) (InvalidStateTransitionError job_id)) (\<lambda>_.
       let attempt_number = max_attempt_number job_id s + 1 in
     and_then (guard (attempt_number \<le> j_max_attempts job) (InvalidStateTransitionError job_id)) (\<lambda>_.
     and_then (required_text idempotency_class ''idempotency_class'') (\<lambda>idempotency_class.
       let row = new_attempt E now uuid job_id attempt_number run_id target lease_owner leased_until
             retry_reason idempotency_class
       in and_then (insert_attempt row s) (\<lambda>s1.
          let s2 = (if j_status job \<noteq> JobRunning
                    then update_jobs (\<lambda>j. j_id j = job_id) (restart_edit now) s1 else s1)
          in Inr (row, s2)))))))"

definition create_attempt ::
    "env \<Rightarrow> time \<Rightarrow> string \<Rightarrow> string \<Rightarrow> string \<Rightarrow> attempt_status \<Rightarrow> string option \<Rightarrow> time option
     \<Rightarrow> string option \<Rightarrow> string \<Rightarrow> attempt op" where
  "create_attempt E now uuid job_id run_id target lease_owner leased_until retry_reason idempotency_class =
     transaction (create_attempt_tx E now uuid job_id run_id target lease_owner leased_until retry_reason
       idempotency_class)"

definition get_attempt :: "string \<Rightarrow> store \<Rightarrow> attempt result" where
  "get_attempt attempt_id s = fetch (AttemptNotFoundError attempt_id) (attempt_by attempt_id s)"

definition list_attempts :: "string option \<Rightarrow> store \<Rightarrow> attempt list" where
  "list_attempts job_id s = order_by (\<lambda>a. (a_created_at a, a_number a, a_id a))
     (filter (\<lambda>a. case job_id of None \<Rightarrow> True | Some i \<Rightarrow> a_job_id a = i) (attempts s))"

text \<open>\<open>UPDATE job_attempts ... WHERE ...\<close> committed, then the row read back.\<close>

definition update_and_get_attempt ::
    "string \<Rightarrow> (attempt \<Rightarrow> bool) \<Rightarrow> (attempt \<Rightarrow> attempt) \<Rightarrow> attempt op" where
  "update_and_get_attempt attempt_id P f s =
     (let s' = update_attempts P f s
      in (fetch (AttemptNotFoundError attempt_id) (attempt_by attempt_id s'), s'))"

definition lease_edit :: "time \<Rightarrow> time \<Rightarrow> attempt \<Rightarrow> attempt" where
  "lease_edit now until a = a\<lparr>a_heartbeat_at := Some now, a_leased_until := Some until,
     a_updated_at := now, a_version := a_version a + 1\<rparr>"

definition heartbeat_attempt :: "time \<Rightarrow> string \<Rightarrow> string \<Rightarrow> int \<Rightarrow> attempt op" where
  "heartbeat_attempt now attempt_id worker_id lease_seconds =
     update_and_get_attempt attempt_id
       (\<lambda>a. a_id a = attempt_id \<and> a_lease_owner a = Some worker_id
          \<and> a_status a \<notin> {AttemptSucceeded, AttemptFailed, AttemptCanceled, AttemptInterrupted})
       (lease_edit now (future_time now (max lease_seconds second)))"

definition update_attempt_process :: "time \<Rightarrow> string \<Rightarrow> int \<Rightarrow> int option \<Rightarrow> attempt op" where
  "update_attempt_process now attempt_id process_id process_group_id =
     update_and_get_attempt attempt_id (\<lambda>a. a_id a = attempt_id)
       (\<lambda>a. a\<lparr>a_process_id := Some process_id, a_process_group_id := process_group_id,
              a_updated_at := now, a_version := a_version a + 1\<rparr>)"

definition attempt_edit_status ::
    "env \<Rightarrow> time \<Rightarrow> attempt_status \<Rightarrow> time option \<Rightarrow> int option \<Rightarrow> string option \<Rightarrow> int \<Rightarrow> attempt \<Rightarrow> attempt" where
  "attempt_edit_status E now target started_at process_id error_summary next_version a = a\<lparr>
     a_status := target, a_started_at := started_at,
     a_finished_at := (if terminal_attempt target then Some now else None),
     a_process_id := (case process_id of None \<Rightarrow> a_process_id a | Some p \<Rightarrow> Some p),
     a_error_summary := safe_optional_text E error_summary,
     a_updated_at := now, a_version := next_version\<rparr>"

definition transition_attempt_tx ::
    "env \<Rightarrow> time \<Rightarrow> string \<Rightarrow> attempt_status \<Rightarrow> attempt_status option \<Rightarrow> int option \<Rightarrow> string option
     \<Rightarrow> store \<Rightarrow> (attempt \<times> store) result" where
  "transition_attempt_tx E now attempt_id target expected process_id error_summary s =
     and_then (fetch (AttemptNotFoundError attempt_id) (attempt_by attempt_id s)) (\<lambda>current.
     and_then (guard (case expected of None \<Rightarrow> True | Some e \<Rightarrow> a_status current = e)
       (ConcurrentUpdateError attempt_id)) (\<lambda>_.
       if a_status current = target then Inr (current, s)
       else and_then (guard (\<not> terminal_attempt (a_status current)) (InvalidStateTransitionError attempt_id)) (\<lambda>_.
         let started_at = (case a_started_at current of
               Some t \<Rightarrow> Some t
             | None \<Rightarrow> if target \<in> {AttemptStarting, AttemptRunning} then Some now else None);
             P = (\<lambda>a. a_id a = attempt_id \<and> a_version a = a_version current);
             s1 = update_attempts P (attempt_edit_status E now target started_at process_id error_summary
                    (a_version current + 1)) s
         in and_then (guard (changes P (attempts s) = 1) (ConcurrentUpdateError attempt_id)) (\<lambda>_.
            and_then (fetch (AttemptNotFoundError attempt_id) (attempt_by attempt_id s1)) (\<lambda>updated.
              Inr (updated, s1))))))"

definition transition_attempt ::
    "env \<Rightarrow> time \<Rightarrow> string \<Rightarrow> attempt_status \<Rightarrow> attempt_status option \<Rightarrow> int option \<Rightarrow> string option
     \<Rightarrow> attempt op" where
  "transition_attempt E now attempt_id target expected process_id error_summary =
     transaction (transition_attempt_tx E now attempt_id target expected process_id error_summary)"

definition set_attempt_idempotency_class :: "time \<Rightarrow> string \<Rightarrow> string \<Rightarrow> attempt op" where
  "set_attempt_idempotency_class now attempt_id idempotency_class s =
     (case required_text idempotency_class ''idempotency_class'' of
        Inl e \<Rightarrow> (Inl e, s)
      | Inr value \<Rightarrow> update_and_get_attempt attempt_id (\<lambda>a. a_id a = attempt_id)
          (\<lambda>a. a\<lparr>a_idempotency_class := value, a_updated_at := now, a_version := a_version a + 1\<rparr>) s)"

definition finish_edit :: "time \<Rightarrow> attempt_status \<Rightarrow> string option \<Rightarrow> attempt \<Rightarrow> attempt" where
  "finish_edit now target safe_error a = a\<lparr>a_status := target, a_finished_at := Some now,
     a_error_summary := safe_error, a_updated_at := now, a_version := a_version a + 1\<rparr>"

definition settle_edit ::
    "time \<Rightarrow> job_status \<Rightarrow> time option \<Rightarrow> time option \<Rightarrow> string option \<Rightarrow> job \<Rightarrow> job" where
  "settle_edit now job_status available_at terminal_at safe_error j = j\<lparr>j_status := job_status,
     j_available_at := available_at, j_terminal_at := terminal_at, j_error_summary := safe_error,
     j_updated_at := now, j_version := j_version j + 1\<rparr>"

text \<open>Whether a settled attempt gives its job another try.\<close>

definition retryable :: "attempt_status \<Rightarrow> int option \<Rightarrow> attempt \<Rightarrow> job \<Rightarrow> bool" where
  "retryable target retry_delay attempt job =
     (target \<in> {AttemptFailed, AttemptInterrupted} \<and> retry_delay \<noteq> None
      \<and> a_number attempt < j_max_attempts job \<and> retry_safe (a_idempotency_class attempt)
      \<and> j_cancel_requested_at job = None)"

definition settled_status :: "attempt_status \<Rightarrow> int option \<Rightarrow> attempt \<Rightarrow> job \<Rightarrow> job_status" where
  "settled_status target retry_delay attempt job =
     (if retryable target retry_delay attempt job then JobRetryWait
      else case target of AttemptSucceeded \<Rightarrow> JobSucceeded | AttemptCanceled \<Rightarrow> JobCanceled | _ \<Rightarrow> JobFailed)"

definition finish_attempt_tx ::
    "env \<Rightarrow> time \<Rightarrow> string \<Rightarrow> string \<Rightarrow> attempt_status \<Rightarrow> string option \<Rightarrow> int option \<Rightarrow> bool
     \<Rightarrow> store \<Rightarrow> ((attempt \<times> job) \<times> store) result" where
  "finish_attempt_tx E now outbox_uuid attempt_id target error_summary retry_delay sync_terminal_run s =
     and_then (guard (terminal_attempt target)
       (ValueError ''finish_attempt requires a terminal attempt status'')) (\<lambda>_.
     and_then (fetch (AttemptNotFoundError attempt_id) (attempt_by attempt_id s)) (\<lambda>attempt.
     and_then (fetch (JobNotFoundError (a_job_id attempt)) (job_by (a_job_id attempt) s)) (\<lambda>job.
       let safe_error = safe_optional_text E error_summary;
           s1 = (if terminal_attempt (a_status attempt) then s
                 else update_attempts (\<lambda>a. a_id a = a_id attempt) (finish_edit now target safe_error) s);
           retry = retryable target retry_delay attempt job;
           job_status = settled_status target retry_delay attempt job;
           available_at = (if retry then Some (future_time now (max (the_default 0 retry_delay) 0))
                           else j_available_at job);
           terminal_at = (if retry then None else Some now);
           s2 = update_jobs (\<lambda>j. j_id j = j_id job)
                  (settle_edit now job_status available_at terminal_at safe_error) s1
       in and_then (fetch (AttemptNotFoundError attempt_id) (attempt_by (a_id attempt) s2)) (\<lambda>updated_attempt.
          and_then (fetch (JobNotFoundError (j_id job)) (job_by (j_id job) s2)) (\<lambda>updated_job.
            let s3 = (if terminal_job job_status \<and> sync_terminal_run
                      then enqueue_terminal_sync outbox_uuid now (j_id job) job_status (j_version updated_job)
                             (j_session_id job) (Some updated_attempt) s2
                      else s2)
            in Inr ((updated_attempt, updated_job), s3))))))"

definition finish_attempt ::
    "env \<Rightarrow> time \<Rightarrow> string \<Rightarrow> string \<Rightarrow> attempt_status \<Rightarrow> string option \<Rightarrow> int option \<Rightarrow> bool
     \<Rightarrow> (attempt \<times> job) op" where
  "finish_attempt E now outbox_uuid attempt_id target error_summary retry_delay sync_terminal_run =
     transaction (finish_attempt_tx E now outbox_uuid attempt_id target error_summary retry_delay sync_terminal_run)"

definition expired_attempts :: "time \<Rightarrow> store \<Rightarrow> attempt list" where
  "expired_attempts now s = order_by (\<lambda>a. (the_default 0 (a_leased_until a), a_id a))
     (filter (\<lambda>a. a_status a \<in> {AttemptClaimed, AttemptStarting, AttemptRunning}
        \<and> (case a_leased_until a of None \<Rightarrow> False | Some t \<Rightarrow> t < now)) (attempts s))"

text \<open>
  The rows are selected first, then each is settled in a transaction of its own; an exception
  ends the pass with the earlier settlements committed. \<open>uuids\<close> are the outbox ids drawn.
\<close>

fun finish_rows ::
    "env \<Rightarrow> time \<Rightarrow> int \<Rightarrow> (nat \<Rightarrow> string) \<Rightarrow> nat \<Rightarrow> attempt list \<Rightarrow> attempt list op" where
  "finish_rows E now delay uuids k [] s = (Inr [], s)"
| "finish_rows E now delay uuids k (a # rows) s =
     (case finish_attempt E now (uuids k) (a_id a) AttemptInterrupted
             (Some ''worker lease expired; process adoption was not attempted'') (Some delay) True s of
        (Inl e, s') \<Rightarrow> (Inl e, s')
      | (Inr r, s') \<Rightarrow>
          (case finish_rows E now delay uuids (Suc k) rows s' of
             (Inl e, s'') \<Rightarrow> (Inl e, s'')
           | (Inr rs, s'') \<Rightarrow> (Inr (fst r # rs), s'')))"

definition recover_expired_attempts :: "env \<Rightarrow> time \<Rightarrow> int \<Rightarrow> (nat \<Rightarrow> string) \<Rightarrow> attempt list op" where
  "recover_expired_attempts E now retry_delay uuids s =
     finish_rows E now retry_delay uuids 0 (expired_attempts now s) s"

section \<open>Contracts\<close>

lemma max_attempt_number_ge:
  "a \<in> set (attempts s) \<Longrightarrow> a_job_id a = i \<Longrightarrow> a_number a \<le> max_attempt_number i s"
proof -
  have "x \<in> set xs \<Longrightarrow> x \<le> foldr max xs (0::int)" for x xs
    by (induction xs) auto
  then show "a \<in> set (attempts s) \<Longrightarrow> a_job_id a = i \<Longrightarrow> a_number a \<le> max_attempt_number i s"
    unfolding max_attempt_number_def by auto
qed

lemma max_attempt_number_nonneg: "0 \<le> max_attempt_number i s"
proof -
  have "(0::int) \<le> foldr max xs 0" for xs by (induction xs) auto
  then show ?thesis unfolding max_attempt_number_def by auto
qed

lemma insert_attempt_legal:
  "insert_attempt a s = Inr s' \<Longrightarrow> \<exists>j\<in>set (jobs s). j_id j = a_job_id a \<and> a_number a \<le> j_max_attempts j \<Longrightarrow>
   legal s s'"
  by (rule legalI) (erule (2) insert_attempt_ok, erule insert_attempt_evolves)

lemma insert_attempt_Inr:
  assumes "insert_attempt a s = Inr s'"
  shows "s' = bump 1 (s\<lparr>attempts := attempts s @ [a]\<rparr>)" "a_id a \<notin> a_id ` set (attempts s)"
  using assms by (auto simp: insert_attempt_def split: if_splits)

lemma restart_edit_legal: "legal s (update_jobs (\<lambda>j. j_id j = i) (restart_edit now) s)"
  by (auto simp: job_edit_def job_lifecycle_def job_key_def restart_edit_def intro!: update_jobs_legal)

lemma create_attempt_tx_legal:
  assumes "create_attempt_tx E now u i run target lo lu rr ic s = Inr (a, s')"
  shows "legal s s'"
proof -
  from assms obtain job where job: "job_by i s = Some job" and n: "max_attempt_number i s + 1 \<le> j_max_attempts job"
    by (auto simp: create_attempt_tx_def and_then_Inr_iff Let_def)
  from assms job obtain row s1 where ins: "insert_attempt row s = Inr s1"
    and row: "a_job_id row = i" "a_number row = max_attempt_number i s + 1"
    and s': "s' = s1 \<or> s' = update_jobs (\<lambda>j. j_id j = i) (restart_edit now) s1"
    by (auto simp: create_attempt_tx_def and_then_Inr_iff Let_def split: if_splits)
  have "\<exists>j\<in>set (jobs s). j_id j = a_job_id row \<and> a_number row \<le> j_max_attempts j"
    using row_by_Some [OF job] n row by auto
  with ins have "legal s s1" by (rule insert_attempt_legal)
  with s' show ?thesis by (auto intro: legal_trans [OF _ restart_edit_legal])
qed

interpretation create_attempt: coordination_op
  "create_attempt E now u i run target lo lu rr ic" for E now u i run target lo lu rr ic
  by unfold_locales (auto simp: create_attempt_def intro!: transaction_legal dest: create_attempt_tx_legal)

lemma update_and_get_attempt_legal:
  "(\<And>a. P a \<Longrightarrow> attempt_next a (f a)) \<Longrightarrow> legal s (snd (update_and_get_attempt i P f s))"
  by (auto simp: update_and_get_attempt_def Let_def intro!: update_attempts_legal)

interpretation heartbeat_attempt: coordination_op "heartbeat_attempt now i w l" for now i w l
  by unfold_locales (auto simp: heartbeat_attempt_def lease_edit_def attempt_next_def attempt_edit_def
    attempt_key_def terminal_attempt_def intro!: update_and_get_attempt_legal)

interpretation update_attempt_process: coordination_op "update_attempt_process now i p g" for now i p g
  by unfold_locales (auto simp: update_attempt_process_def attempt_next_def attempt_edit_def
    attempt_key_def intro!: update_and_get_attempt_legal)

interpretation set_attempt_idempotency_class: coordination_op "set_attempt_idempotency_class now i c" for now i c
  by unfold_locales (auto simp: set_attempt_idempotency_class_def attempt_next_def attempt_edit_def
    attempt_key_def split: sum.splits intro!: update_and_get_attempt_legal)

lemma transition_attempt_tx_legal:
  assumes "transition_attempt_tx E now i target expected pid err s = Inr (a, s')"
  shows "legal s s'"
proof -
  from assms obtain current where current: "attempt_by i s = Some current"
    by (auto simp: transition_attempt_tx_def and_then_Inr_iff)
  have "s' = s \<or> (\<exists>st. \<not> terminal_attempt (a_status current) \<and> s' = update_attempts
      (\<lambda>a. a_id a = i \<and> a_version a = a_version current)
      (attempt_edit_status E now target st pid err (a_version current + 1)) s)"
    using assms current by (auto simp: transition_attempt_tx_def and_then_Inr_iff Let_def split: if_splits)
  moreover have "legal s (update_attempts (\<lambda>a. a_id a = i \<and> a_version a = a_version current)
      (attempt_edit_status E now target st pid err (a_version current + 1)) s)"
    if "\<not> terminal_attempt (a_status current)" for st
  proof (rule update_attempts_legal)
    fix a assume ok: "db_ok s" and a: "a \<in> set (attempts s)" "a_id a = i \<and> a_version a = a_version current"
    then have "current = a" using current row_by_distinct [OF db_ok_attempts [OF ok] a(1)] by simp
    with that show "attempt_next a (attempt_edit_status E now target st pid err (a_version current + 1) a)"
      by (auto simp: attempt_next_def attempt_edit_def attempt_key_def attempt_edit_status_def)
  qed
  ultimately show ?thesis by auto
qed

interpretation transition_attempt: coordination_op "transition_attempt E now i target expected pid err"
  for E now i target expected pid err
  by unfold_locales (auto simp: transition_attempt_def intro!: transaction_legal dest: transition_attempt_tx_legal)

lemma settled_status_terminal:
  "terminal_attempt target \<Longrightarrow> terminal_job (settled_status target d a j) \<longleftrightarrow> \<not> retryable target d a j"
  by (cases target) (auto simp: settled_status_def)

lemma settle_edit_legal:
  "(terminal_job st \<longleftrightarrow> t \<noteq> None) \<Longrightarrow> legal s (update_jobs (\<lambda>j. j_id j = i) (settle_edit now st av t err) s)"
  by (auto simp: job_edit_def job_lifecycle_def job_key_def settle_edit_def intro!: update_jobs_legal)

lemma finish_attempt_tx_legal:
  assumes "finish_attempt_tx E now ou i target err d sync s = Inr (r, s')"
  shows "legal s s'"
proof -
  from assms obtain a j where a: "attempt_by i s = Some a" and j: "job_by (a_job_id a) s = Some j"
    and t: "terminal_attempt target"
    by (auto simp: finish_attempt_tx_def and_then_Inr_iff)
  define s1 where "s1 = (if terminal_attempt (a_status a) then s
    else update_attempts (\<lambda>b. a_id b = a_id a) (finish_edit now target (safe_optional_text E err)) s)"
  define s2 where "s2 = update_jobs (\<lambda>k. j_id k = j_id j)
    (settle_edit now (settled_status target d a j)
      (if retryable target d a j then Some (future_time now (max (the_default 0 d) 0)) else j_available_at j)
      (if retryable target d a j then None else Some now) (safe_optional_text E err)) s1"
  have "legal s s1"
  proof (cases "terminal_attempt (a_status a)")
    case False
    have "legal s (update_attempts (\<lambda>b. a_id b = a_id a) (finish_edit now target (safe_optional_text E err)) s)"
    proof (rule update_attempts_legal)
      fix b assume ok: "db_ok s" and b: "b \<in> set (attempts s)" "a_id b = a_id a"
      then have "b = a" using row_by_distinct [OF db_ok_attempts [OF ok] b(1)] row_by_key [OF a] a by simp
      with False show "attempt_next b (finish_edit now target (safe_optional_text E err) b)"
        by (auto simp: attempt_next_def attempt_edit_def attempt_key_def finish_edit_def)
    qed
    with False show ?thesis by (simp add: s1_def)
  qed (simp add: s1_def)
  moreover have "legal s1 s2" unfolding s2_def
    using t by (intro settle_edit_legal) (simp add: settled_status_terminal)
  moreover have "s' = s2 \<or> (\<exists>st v sess att. s' = enqueue_terminal_sync ou now (j_id j) st v sess att s2)"
    using assms a j
    by (auto simp: finish_attempt_tx_def and_then_Inr_iff Let_def s1_def s2_def split: if_splits)
  ultimately show ?thesis
    by (auto intro: legal_trans legal_trans [OF _ enqueue_terminal_sync_legal])
qed

interpretation finish_attempt: coordination_op "finish_attempt E now ou i target err d sync"
  for E now ou i target err d sync
  by unfold_locales (auto simp: finish_attempt_def intro!: transaction_legal dest: finish_attempt_tx_legal)

lemma finish_rows_legal: "legal s (snd (finish_rows E now delay uuids k rows s))"
proof (induction E now delay uuids k rows s rule: finish_rows.induct)
  case (2 E now delay uuids k a rows s)
  let ?f = "finish_attempt E now (uuids k) (a_id a) AttemptInterrupted
             (Some ''worker lease expired; process adoption was not attempted'') (Some delay) True s"
  have step: "legal s (snd ?f)" by (rule finish_attempt.op_legal)
  obtain res s1 where f: "?f = (res, s1)" by (cases ?f)
  with step have step: "legal s s1" by simp
  show ?case
  proof (cases res)
    case (Inr r)
    with 2 f have "legal s1 (snd (finish_rows E now delay uuids (Suc k) rows s1))" by simp
    with f Inr step show ?thesis by (auto split: prod.splits sum.splits intro: legal_trans)
  qed (simp add: f step)
qed simp

interpretation recover_expired_attempts: coordination_op "recover_expired_attempts E now d uuids" for E now d uuids
  by unfold_locales (simp add: recover_expired_attempts_def finish_rows_legal)

section \<open>What the operations promise\<close>

lemma attempt_by_update:
  assumes "\<And>a. P a \<Longrightarrow> a_id (f a) = a_id a"
  shows "attempt_by i (update_attempts P f s) = map_option (\<lambda>a. if P a then f a else a) (attempt_by i s)"
  using assms by (simp add: update_attempts_def row_by_upd_where)

lemma update_attempts_frame [simp]:
  "jobs (update_attempts P f s) = jobs s" "outbox (update_attempts P f s) = outbox s"
  "effects (update_attempts P f s) = effects s" "requests (update_attempts P f s) = requests s"
  "grants (update_attempts P f s) = grants s" "audit (update_attempts P f s) = audit s"
  "attempts (update_attempts P f s) = upd_where P f (attempts s)"
  by (simp_all add: update_attempts_def)

text \<open>The job of a stored attempt is stored.\<close>

lemma attempt_has_job:
  assumes "db_ok s" "attempt_by i s = Some a"
  obtains j where "job_by (a_job_id a) s = Some j" "0 < a_number a" "a_number a \<le> j_max_attempts j"
proof -
  have "attempt_budget (jobs s) a" using assms row_by_SomeD [OF assms(2)] by (auto simp: db_ok_defs)
  then obtain j where j: "j \<in> set (jobs s)" "j_id j = a_job_id a" "a_number a \<le> j_max_attempts j" "0 < a_number a"
    by (auto simp: attempt_budget_def)
  with row_by_distinct [OF db_ok_jobs [OF assms(1)] j(1)] that show thesis by simp
qed

text \<open>
  C19. Attempts are numbered consecutively inside the budget. A created attempt has the next
  number after the highest one of its job, never beyond \<open>max_attempts\<close>; it is stored as
  returned, and its job, which was not terminal, is running.
\<close>

theorem create_attempt_numbered:
  assumes ok: "db_ok s" and run: "create_attempt E now u i run target lo lu rr ic s = (Inr a, s')"
  shows "a_number a = max_attempt_number i s + 1 \<and> attempt_by (a_id a) s' = Some a \<and> a_job_id a = i \<and>
    (\<exists>j j'. job_by i s = Some j \<and> \<not> terminal_job (j_status j) \<and> a_number a \<le> j_max_attempts j \<and>
       job_by i s' = Some j' \<and> j_status j' = JobRunning)"
proof -
  from run have tx: "create_attempt_tx E now u i run target lo lu rr ic s = Inr (a, s')"
    by (simp add: create_attempt_def transaction_Inr_iff)
  then obtain j where j: "job_by i s = Some j" "\<not> terminal_job (j_status j)"
    "max_attempt_number i s + 1 \<le> j_max_attempts j"
    by (auto simp: create_attempt_tx_def and_then_Inr_iff Let_def)
  from tx obtain run' ic' where texts: "required_text run ''run_id'' = Inr run'"
    "required_text ic ''idempotency_class'' = Inr ic'"
    by (auto simp: create_attempt_tx_def and_then_Inr_iff Let_def)
  define row where "row = new_attempt E now u i (max_attempt_number i s + 1) run' target lo lu rr ic'"
  obtain s1 where ins: "insert_attempt row s = Inr s1"
    using tx j texts by (cases "insert_attempt row s") (simp_all add: create_attempt_tx_def row_def Let_def)
  have row: "a = row"
    and s': "s' = (if j_status j \<noteq> JobRunning then update_jobs (\<lambda>j. j_id j = i) (restart_edit now) s1 else s1)"
    using tx j texts ins by (simp_all add: create_attempt_tx_def row_def Let_def)
  then have num: "a_job_id a = i" "a_number a = max_attempt_number i s + 1" by (simp_all add: row_def)
  from ins row have s1: "attempts s1 = attempts s @ [a]" "jobs s1 = jobs s" "a_id a \<notin> a_id ` set (attempts s)"
    by (auto dest: insert_attempt_Inr)
  have "attempt_by (a_id a) s = None" using s1(3) by (simp add: row_by_None_iff)
  then have "row_by a_id (a_id a) (attempts s @ [a]) = Some a" by (simp add: row_by_append)
  moreover have "attempts s' = attempts s @ [a]" using s' s1(1) by auto
  ultimately have "attempt_by (a_id a) s' = Some a" by simp
  moreover have "\<exists>j'. job_by i s' = Some j' \<and> j_status j' = JobRunning"
    using s' s1 j row_by_key [OF j(1)] by (auto simp: job_by_update restart_edit_def)
  ultimately show ?thesis using num j by auto
qed

theorem create_attempt_numbered_witness:
  "\<exists>a s'. create_attempt sample_env 20 ''2'' ''job_1'' ''run_2'' AttemptClaimed None None None ''unknown'' running_store
      = (Inr a, s') \<and> a_number a = 2 \<and> max_attempt_number ''job_1'' running_store = 1"
proof -
  let ?a = "sample_attempt\<lparr>a_id := ''attempt_2'', a_number := 2, a_status := AttemptClaimed, a_run_id := ''run_2'',
     a_created_at := 20, a_updated_at := 20, a_lease_owner := None, a_leased_until := None,
     a_heartbeat_at := None, a_started_at := None, a_idempotency_class := ''unknown''\<rparr>"
  let ?s = "snd (create_attempt sample_env 20 ''2'' ''job_1'' ''run_2'' AttemptClaimed None None None ''unknown'' running_store)"
  have run: "create_attempt sample_env 20 ''2'' ''job_1'' ''run_2'' AttemptClaimed None None None ''unknown'' running_store
      = (Inr ?a, ?s)" by code_simp
  from create_attempt_numbered [OF sample_ok(2) run] have "a_number ?a = max_attempt_number ''job_1'' running_store + 1"
    by blast
  with run show ?thesis by (intro exI [of _ ?a] exI [of _ ?s]) simp
qed

text \<open>
  C18. A heartbeat renews the lease of the worker that owns it and of nobody else: a call by
  another worker, or on a settled attempt, leaves the database as it is, and after the owner's
  call the attempt is not among the expired ones until the renewed lease (one second at least)
  is over.
\<close>

theorem heartbeat_attempt_owner_only:
  assumes ok: "db_ok s" and a: "attempt_by i s = Some a"
  shows "if a_lease_owner a = Some w \<and> \<not> terminal_attempt (a_status a)
    then \<exists>a' s'. heartbeat_attempt now i w lease s = (Inr a', s') \<and> a_status a' = a_status a
      \<and> a_leased_until a' = Some (now + max lease second)
      \<and> (\<forall>t \<le> now + max lease second. \<forall>b \<in> set (expired_attempts t s'). a_id b \<noteq> i)
    else heartbeat_attempt now i w lease s = (Inr a, s)"
proof -
  define P where "P = (\<lambda>b::attempt. a_id b = i \<and> a_lease_owner b = Some w
    \<and> a_status b \<notin> {AttemptSucceeded, AttemptFailed, AttemptCanceled, AttemptInterrupted})"
  define f where "f = lease_edit now (future_time now (max lease second))"
  have only: "b = a" if "b \<in> set (attempts s)" "a_id b = i" for b
    using row_by_distinct [OF db_ok_attempts [OF ok] that(1)] that(2) a by simp
  have run: "heartbeat_attempt now i w lease s =
      (fetch (AttemptNotFoundError i) (attempt_by i (update_attempts P f s)), update_attempts P f s)"
    by (simp add: heartbeat_attempt_def update_and_get_attempt_def Let_def P_def f_def)
  show ?thesis
  proof (cases "P a")
    case True
    then have "attempt_by i (update_attempts P f s) = Some (f a)"
      using a by (subst attempt_by_update) (auto simp: f_def lease_edit_def)
    moreover have "a_id b \<noteq> i" if t: "t \<le> now + max lease second" and b: "b \<in> set (expired_attempts t (update_attempts P f s))" for t b
    proof
      assume i: "a_id b = i"
      from b have "b \<in> set (upd_where P f (attempts s))" "case a_leased_until b of None \<Rightarrow> False | Some u \<Rightarrow> u < t"
        by (auto simp: expired_attempts_def)
      from this(1) show False
      proof (cases rule: upd_whereE)
        case (Updated r)
        with \<open>case a_leased_until b of None \<Rightarrow> False | Some u \<Rightarrow> u < t\<close> t show ?thesis
          by (auto simp: f_def lease_edit_def future_time_def)
      next
        case Kept
        with only [of b] i True show ?thesis by simp
      qed
    qed
    ultimately show ?thesis using True run
      by (auto simp: P_def terminal_attempt_def f_def lease_edit_def future_time_def)
  next
    case False
    then have "\<And>b. b \<in> set (attempts s) \<Longrightarrow> \<not> P b" using only by (auto simp: P_def)
    then have same: "update_attempts P f s = s"
      by (simp add: update_attempts_def upd_where_none bump_def changes_0_iff [THEN iffD2])
    have "heartbeat_attempt now i w lease s = (Inr a, s)"
      unfolding run same using a by simp
    moreover have "\<not> (a_lease_owner a = Some w \<and> \<not> terminal_attempt (a_status a))"
      using False row_by_key [OF a] by (simp add: P_def terminal_attempt_def)
    ultimately show ?thesis by (simp only: if_False)
  qed
qed

theorem heartbeat_attempt_owner_only_witness:
  "heartbeat_attempt 20 ''attempt_1'' ''other'' 5 running_store = (Inr sample_attempt, running_store)"
proof -
  have "attempt_by ''attempt_1'' running_store = Some sample_attempt" by code_simp
  from heartbeat_attempt_owner_only [OF sample_ok(2) this, of "''other''" 20 5] show ?thesis
    by (simp add: sample_attempt_def)
qed

text \<open>What a settlement writes, for a stored attempt and its job.\<close>

definition settled_job :: "env \<Rightarrow> time \<Rightarrow> attempt_status \<Rightarrow> string option \<Rightarrow> int option \<Rightarrow> attempt \<Rightarrow> job \<Rightarrow> job" where
  "settled_job E now target err d a j = settle_edit now (settled_status target d a j)
     (if retryable target d a j then Some (future_time now (max (the_default 0 d) 0)) else j_available_at j)
     (if retryable target d a j then None else Some now) (safe_optional_text E err) j"

definition settled_attempt :: "env \<Rightarrow> time \<Rightarrow> attempt_status \<Rightarrow> string option \<Rightarrow> attempt \<Rightarrow> attempt" where
  "settled_attempt E now target err a =
     (if terminal_attempt (a_status a) then a else finish_edit now target (safe_optional_text E err) a)"

lemma settle_keeps [simp]:
  "j_id (settle_edit now st av t err j) = j_id j"
  "j_version (settle_edit now st av t err j) = j_version j + 1"
  "j_status (settle_edit now st av t err j) = st"
  "j_terminal_at (settle_edit now st av t err j) = t"
  "j_available_at (settle_edit now st av t err j) = av"
  "a_id (finish_edit now target err a) = a_id a"
  "a_status (finish_edit now target err a) = target"
  by (simp_all add: settle_edit_def finish_edit_def)

lemma finish_attempt_run:
  fixes E :: env and now :: time and err :: "string option" and d :: "int option"
  assumes ok: "db_ok s" and a: "attempt_by i s = Some a" and j: "job_by (a_job_id a) s = Some j"
    and t: "terminal_attempt target"
  defines "a' \<equiv> settled_attempt E now target err a" and "j' \<equiv> settled_job E now target err d a j"
  shows "\<exists>s'. finish_attempt E now ou i target err d sync s = (Inr (a', j'), s') \<and>
    (\<forall>k. attempt_by k s' = (if k = i then Some a' else attempt_by k s)) \<and>
    (\<forall>k. job_by k s' = (if k = j_id j then Some j' else job_by k s)) \<and>
    attempts s' = upd_where (\<lambda>b. b = a) (\<lambda>_. a') (attempts s) \<and>
    (terminal_job (j_status j') \<and> sync \<and> new_id ''outbox'' ou \<notin> o_id ` set (outbox s) \<longrightarrow>
       ''job:'' @ j_id j @ '':terminal:'' @ show_int (j_version j') \<in> o_dedupe_key ` set (outbox s'))"
proof -
  define s1 where "s1 = (if terminal_attempt (a_status a) then s
    else update_attempts (\<lambda>b. a_id b = a_id a) (finish_edit now target (safe_optional_text E err)) s)"
  define g where "g = settle_edit now (settled_status target d a j)
      (if retryable target d a j then Some (future_time now (max (the_default 0 d) 0)) else j_available_at j)
      (if retryable target d a j then None else Some now) (safe_optional_text E err)"
  define s2 where "s2 = update_jobs (\<lambda>k. j_id k = j_id j) g s1"
  define s3 where "s3 = (if terminal_job (j_status j') \<and> sync
    then enqueue_terminal_sync ou now (j_id j) (j_status j') (j_version j') (j_session_id j) (Some a') s2 else s2)"
  have ids: "a_id a = i" "j_id j = a_job_id a" using row_by_key [OF a] row_by_key [OF j] by auto
  have a1: "attempt_by k s1 = (if k = i then Some a' else attempt_by k s)" for k
  proof (cases "attempt_by k s")
    case None
    with a show ?thesis by (cases "k = i") (simp_all add: s1_def attempt_by_update del: update_attempts_frame)
  next
    case (Some b)
    then have "a_id b = k" by (rule row_by_key)
    with Some a ids show ?thesis
      by (cases "k = i") (simp_all add: s1_def a'_def settled_attempt_def attempt_by_update del: update_attempts_frame)
  qed
  have j1: "job_by k s1 = job_by k s" for k by (simp add: s1_def)
  have a2: "attempt_by k s2 = (if k = i then Some a' else attempt_by k s)" for k
    using a1 [of k] by (simp add: s2_def)
  have g: "g j = j'" "\<And>r. j_id (g r) = j_id r" by (simp_all add: g_def j'_def settled_job_def)
  have s2: "job_by k s2 = map_option (\<lambda>r. if j_id r = j_id j then g r else r) (job_by k s)" for k
    unfolding s2_def by (subst job_by_update) (simp_all add: g j1)
  have j2: "job_by k s2 = (if k = j_id j then Some j' else job_by k s)" for k
  proof (cases "job_by k s")
    case None
    with j ids(2) have "k \<noteq> j_id j" by auto
    with None show ?thesis by (simp add: s2)
  next
    case (Some b)
    then have "j_id b = k" by (rule row_by_key)
    moreover have "b = j" if "k = j_id j" using that Some j ids(2) by simp
    ultimately show ?thesis using Some g(1) by (auto simp: s2)
  qed
  have st: "j_status j' = settled_status target d a j" by (simp add: j'_def settled_job_def)
  have "finish_attempt_tx E now ou i target err d sync s =
      and_then (fetch (AttemptNotFoundError i) (attempt_by (a_id a) s2)) (\<lambda>ua.
      and_then (fetch (JobNotFoundError (j_id j)) (job_by (j_id j) s2)) (\<lambda>uj.
        Inr ((ua, uj), if terminal_job (settled_status target d a j) \<and> sync
          then enqueue_terminal_sync ou now (j_id j) (settled_status target d a j) (j_version uj)
                 (j_session_id j) (Some ua) s2
          else s2)))"
    by (simp only: finish_attempt_tx_def a j t guard_True fetch_Some and_then_simps Let_def s2_def g_def s1_def)
  then have "finish_attempt_tx E now ou i target err d sync s = Inr ((a', j'), s3)"
    by (simp only: a2 j2 ids(1) fetch_Some and_then_simps s3_def st if_True simp_thms)
  then have run: "finish_attempt E now ou i target err d sync s = (Inr (a', j'), s3)"
    by (simp only: finish_attempt_def transaction_Inr)
  have rows: "attempts s3 = upd_where (\<lambda>b. b = a) (\<lambda>_. a') (attempts s)"
  proof -
    have only: "b = a" if "b \<in> set (attempts s)" "a_id b = i" for b
      using row_by_distinct [OF db_ok_attempts [OF ok] that(1)] that(2) a by simp
    have "attempts s1 = upd_where (\<lambda>b. b = a) (\<lambda>_. a') (attempts s)"
    proof (cases "terminal_attempt (a_status a)")
      case True
      then show ?thesis by (simp add: s1_def a'_def settled_attempt_def upd_where_same)
    next
      case False
      then have "attempts s1 = upd_where (\<lambda>b. a_id b = a_id a) (finish_edit now target (safe_optional_text E err)) (attempts s)"
        by (simp add: s1_def)
      also have "\<dots> = upd_where (\<lambda>b. b = a) (\<lambda>_. a') (attempts s)"
        using False ids(1) only by (subst upd_where_single [where a = a]) (auto simp: a'_def settled_attempt_def)
      finally show ?thesis .
    qed
    then show ?thesis by (simp add: s3_def s2_def)
  qed
  have sent: "''job:'' @ j_id j @ '':terminal:'' @ show_int (j_version j') \<in> o_dedupe_key ` set (outbox s3)"
    if "terminal_job (j_status j')" sync "new_id ''outbox'' ou \<notin> o_id ` set (outbox s)"
  proof -
    have "outbox s2 = outbox s" by (simp add: s2_def s1_def)
    with that enqueue_terminal_sync_present [of ou s2 now "j_id j" "j_status j'" "j_version j'" "j_session_id j" "Some a'"]
    show ?thesis by (simp add: s3_def terminal_entry_def)
  qed
  have "attempt_by k s3 = (if k = i then Some a' else attempt_by k s)" for k
    using a2 [of k] by (simp only: s3_def enqueue_terminal_sync_frame split: if_split) simp
  moreover have "job_by k s3 = (if k = j_id j then Some j' else job_by k s)" for k
    using j2 [of k] by (simp only: s3_def enqueue_terminal_sync_frame split: if_split) simp
  ultimately show ?thesis using run rows sent by blast
qed

lemma finish_attempt_runE:
  fixes E :: env and now :: time and err :: "string option" and d :: "int option"
  assumes "db_ok s" "attempt_by i s = Some a" "job_by (a_job_id a) s = Some j" "terminal_attempt target"
  obtains s' where
    "finish_attempt E now ou i target err d sync s = (Inr (settled_attempt E now target err a, settled_job E now target err d a j), s')"
    "attempt_by i s' = Some (settled_attempt E now target err a)"
    "\<And>k. k \<noteq> i \<Longrightarrow> attempt_by k s' = attempt_by k s"
    "job_by (j_id j) s' = Some (settled_job E now target err d a j)"
    "terminal_job (j_status (settled_job E now target err d a j)) \<Longrightarrow> sync \<Longrightarrow> new_id ''outbox'' ou \<notin> o_id ` set (outbox s) \<Longrightarrow>
       ''job:'' @ j_id j @ '':terminal:'' @ show_int (j_version (settled_job E now target err d a j)) \<in> o_dedupe_key ` set (outbox s')"
proof -
  from finish_attempt_run [OF assms, where E = E and now = now and err = err and d = d and ou = ou and sync = sync] obtain s' where
    run: "finish_attempt E now ou i target err d sync s = (Inr (settled_attempt E now target err a, settled_job E now target err d a j), s')"
    and a: "\<And>k. attempt_by k s' = (if k = i then Some (settled_attempt E now target err a) else attempt_by k s)"
    and j: "\<And>k. job_by k s' = (if k = j_id j then Some (settled_job E now target err d a j) else job_by k s)"
    and sent: "terminal_job (j_status (settled_job E now target err d a j)) \<and> sync \<and> new_id ''outbox'' ou \<notin> o_id ` set (outbox s) \<longrightarrow>
       ''job:'' @ j_id j @ '':terminal:'' @ show_int (j_version (settled_job E now target err d a j)) \<in> o_dedupe_key ` set (outbox s')"
    by blast
  show thesis
  proof (rule that [OF run])
    show "attempt_by i s' = Some (settled_attempt E now target err a)" using a [of i] by simp
    show "attempt_by k s' = attempt_by k s" if "k \<noteq> i" for k using a [of k] that by simp
    show "job_by (j_id j) s' = Some (settled_job E now target err d a j)" using j [of "j_id j"] by simp
  qed (use sent in blast)
qed

text \<open>
  C4. A live attempt is settled together with its job. The attempt gets the reported status; its
  job waits for a retry, due after the delay, exactly when the attempt failed or was interrupted,
  a delay is given, attempts are left, the work is classified safe to retry and no cancellation
  is requested. Otherwise the job ends with the outcome of the attempt, and the terminal entry of
  its new version is in the outbox.
\<close>

theorem finish_attempt_outcome:
  assumes "db_ok s" "attempt_by i s = Some a" "\<not> terminal_attempt (a_status a)"
    "terminal_attempt target" "new_id ''outbox'' ou \<notin> o_id ` set (outbox s)"
  shows "\<exists>j a' j' s'. job_by (a_job_id a) s = Some j \<and>
    finish_attempt E now ou i target err d True s = (Inr (a', j'), s') \<and>
    attempt_by i s' = Some a' \<and> a_status a' = target \<and> job_by (j_id j) s' = Some j' \<and>
    (if target \<in> {AttemptFailed, AttemptInterrupted} \<and> d \<noteq> None \<and> a_number a < j_max_attempts j
         \<and> retry_safe (a_idempotency_class a) \<and> j_cancel_requested_at j = None
     then j_status j' = JobRetryWait \<and> j_available_at j' = Some (now + max (the d) 0) \<and> j_terminal_at j' = None
     else j_status j' = (case target of AttemptSucceeded \<Rightarrow> JobSucceeded | AttemptCanceled \<Rightarrow> JobCanceled | _ \<Rightarrow> JobFailed)
       \<and> j_terminal_at j' = Some now
       \<and> ''job:'' @ j_id j @ '':terminal:'' @ show_int (j_version j + 1) \<in> o_dedupe_key ` set (outbox s'))"
proof -
  obtain j where j: "job_by (a_job_id a) s = Some j" using attempt_has_job [OF assms(1,2)] by blast
  let ?a = "settled_attempt E now target err a" and ?j = "settled_job E now target err d a j"
  obtain s' where run: "finish_attempt E now ou i target err d True s = (Inr (?a, ?j), s')"
    and rows: "attempt_by i s' = Some ?a" "job_by (j_id j) s' = Some ?j"
    and sent: "terminal_job (j_status ?j) \<Longrightarrow> ''job:'' @ j_id j @ '':terminal:'' @ show_int (j_version ?j) \<in> o_dedupe_key ` set (outbox s')"
    by (rule finish_attempt_runE [OF assms(1,2) j assms(4), where sync = True]) (use assms(5) in blast)
  have a: "a_status ?a = target" using assms(3) by (simp add: settled_attempt_def)
  have jv: "j_version ?j = j_version j + 1" by (simp add: settled_job_def)
  show ?thesis
  proof (cases "retryable target d a j")
    case True
    then have "j_status ?j = JobRetryWait" "j_available_at ?j = Some (now + max (the d) 0)" "j_terminal_at ?j = None"
      by (auto simp: settled_job_def settled_status_def retryable_def future_time_def)
    with True j run rows a show ?thesis unfolding retryable_def
      by (intro exI [of _ j] exI [of _ ?a] exI [of _ ?j] exI [of _ s']) (simp only: if_True simp_thms)
  next
    case False
    then have st: "j_status ?j = (case target of AttemptSucceeded \<Rightarrow> JobSucceeded | AttemptCanceled \<Rightarrow> JobCanceled | _ \<Rightarrow> JobFailed)"
      "j_terminal_at ?j = Some now"
      by (simp_all add: settled_job_def settled_status_def)
    then have "terminal_job (j_status ?j)" using assms(4) by (cases target) simp_all
    with sent jv have "''job:'' @ j_id j @ '':terminal:'' @ show_int (j_version j + 1) \<in> o_dedupe_key ` set (outbox s')"
      by simp
    with False j run rows a st show ?thesis unfolding retryable_def
      by (intro exI [of _ j] exI [of _ ?a] exI [of _ ?j] exI [of _ s']) (simp only: if_False simp_thms)
  qed
qed

theorem finish_attempt_outcome_witness:
  "\<exists>a' j' s'. finish_attempt sample_env 60 ''1'' ''attempt_1'' AttemptFailed None (Some 5) True running_store = (Inr (a', j'), s') \<and>
    j_status j' = JobRetryWait \<and> j_available_at j' = Some 65"
proof -
  have a: "attempt_by ''attempt_1'' running_store = Some sample_attempt" by code_simp
  have live: "\<not> terminal_attempt (a_status sample_attempt)" by code_simp
  have fresh: "new_id ''outbox'' ''1'' \<notin> o_id ` set (outbox running_store)" by code_simp
  have j: "job_by (a_job_id sample_attempt) running_store = Some sample_job" by code_simp
  have "a_number sample_attempt < j_max_attempts sample_job \<and> retry_safe (a_idempotency_class sample_attempt)
    \<and> j_cancel_requested_at sample_job = None" by code_simp
  with finish_attempt_outcome [OF sample_ok(2) a live _ fresh, of AttemptFailed sample_env 60 None "Some 5"] j
  show ?thesis by auto
qed

text \<open>Recovery settles the selected rows one after the other.\<close>

lemma finish_rows_run:
  assumes "db_ok s" "distinct (map a_id rows)"
    "\<forall>a\<in>set rows. attempt_by (a_id a) s = Some a \<and> \<not> terminal_attempt (a_status a)"
  shows "\<exists>rs s'. finish_rows E now d uuids k rows s = (Inr rs, s') \<and> db_ok s' \<and>
    (\<forall>i. i \<notin> a_id ` set rows \<longrightarrow> attempt_by i s' = attempt_by i s) \<and>
    (\<forall>a\<in>set rows. \<exists>a'. attempt_by (a_id a) s' = Some a' \<and> a_status a' = AttemptInterrupted)"
  using assms
proof (induction rows arbitrary: s k)
  case Nil
  then show ?case by simp
next
  case (Cons a rows)
  let ?m = "Some ''worker lease expired; process adoption was not attempted''"
  have a: "attempt_by (a_id a) s = Some a" "\<not> terminal_attempt (a_status a)" using Cons.prems by auto
  obtain j where j: "job_by (a_job_id a) s = Some j" using attempt_has_job [OF Cons.prems(1) a(1)] by blast
  let ?a = "settled_attempt E now AttemptInterrupted ?m a"
  obtain r s1 where run: "finish_attempt E now (uuids k) (a_id a) AttemptInterrupted ?m (Some d) True s = (Inr r, s1)"
    and at1: "attempt_by (a_id a) s1 = Some ?a" "\<And>i. i \<noteq> a_id a \<Longrightarrow> attempt_by i s1 = attempt_by i s"
    using finish_attempt_runE [OF Cons.prems(1) a(1) j terminal_simps(17),
        where E = E and now = now and ou = "uuids k" and err = ?m and d = "Some d" and sync = True] by metis
  have ok: "db_ok s1" using finish_attempt.op_keeps_ok [OF Cons.prems(1)] run by (metis snd_conv)
  have st: "a_status ?a = AttemptInterrupted" using a(2) by (simp add: settled_attempt_def)
  have "\<forall>b\<in>set rows. attempt_by (a_id b) s1 = Some b \<and> \<not> terminal_attempt (a_status b)"
  proof
    fix b assume b: "b \<in> set rows"
    then have "a_id b \<in> a_id ` set rows" by (rule imageI)
    then have "a_id b \<noteq> a_id a" using Cons.prems(2) by (simp, metis)
    with at1(2) [of "a_id b"] Cons.prems(3) b
    show "attempt_by (a_id b) s1 = Some b \<and> \<not> terminal_attempt (a_status b)" by simp
  qed
  with Cons.IH [OF ok, of "Suc k"] Cons.prems(2) obtain rs s' where rest:
    "finish_rows E now d uuids (Suc k) rows s1 = (Inr rs, s')" "db_ok s'"
    "\<forall>i. i \<notin> a_id ` set rows \<longrightarrow> attempt_by i s' = attempt_by i s1"
    "\<forall>a\<in>set rows. \<exists>a'. attempt_by (a_id a) s' = Some a' \<and> a_status a' = AttemptInterrupted"
    by auto
  have "attempt_by (a_id a) s' = Some ?a" using rest(3) at1(1) Cons.prems(2) by simp
  with rest(4) st have "\<forall>b\<in>set (a # rows). \<exists>b'. attempt_by (a_id b) s' = Some b' \<and> a_status b' = AttemptInterrupted"
    by simp
  moreover have "\<forall>i. i \<notin> a_id ` set (a # rows) \<longrightarrow> attempt_by i s' = attempt_by i s"
    using rest(3) at1(2) by simp
  moreover have "finish_rows E now d uuids k (a # rows) s = (Inr (fst r # rs), s')"
    using run rest(1) by simp
  ultimately show ?case using rest(2) by blast
qed



text \<open>
  C24. Settling is not guarded by the state of the attempt's job. Recovery selects the expired
  rows before it opens the settling transaction; if the worker settles its attempt in between,
  the recovery's \<open>finish_attempt\<close> leaves the settled attempt alone but rewrites the job: a job
  that has succeeded goes back to waiting for a retry.
\<close>

theorem late_recovery_reopens_succeeded_job:
  assumes "db_ok s" "attempt_by i s = Some a" "a_status a = AttemptSucceeded"
    "job_by (a_job_id a) s = Some j" "j_status j = JobSucceeded"
    "a_number a < j_max_attempts j" "retry_safe (a_idempotency_class a)" "j_cancel_requested_at j = None"
  shows "\<exists>j' s'. finish_attempt E now ou i AttemptInterrupted err (Some d) True s = (Inr (a, j'), s') \<and>
    attempt_by i s' = Some a \<and> job_by (a_job_id a) s' = Some j' \<and> j_status j' = JobRetryWait \<and> j_terminal_at j' = None"
proof -
  have a: "settled_attempt E now AttemptInterrupted err a = a" using assms(3) by (simp add: settled_attempt_def)
  have r: "retryable AttemptInterrupted (Some d) a j" using assms by (simp add: retryable_def)
  then have "j_status (settled_job E now AttemptInterrupted err (Some d) a j) = JobRetryWait"
    "j_terminal_at (settled_job E now AttemptInterrupted err (Some d) a j) = None"
    by (simp_all add: settled_job_def settled_status_def)
  moreover obtain s' where "finish_attempt E now ou i AttemptInterrupted err (Some d) True s
      = (Inr (a, settled_job E now AttemptInterrupted err (Some d) a j), s')"
    "attempt_by i s' = Some a" "job_by (j_id j) s' = Some (settled_job E now AttemptInterrupted err (Some d) a j)"
    using finish_attempt_runE [OF assms(1,2,4) terminal_simps(17),
        where E = E and now = now and ou = ou and err = err and d = "Some d" and sync = True, unfolded a] by metis
  ultimately show ?thesis using row_by_key [OF assms(4)] by auto
qed

definition succeeded_store :: store where
  "succeeded_store = snd (finish_attempt sample_env 55 ''1'' ''attempt_1'' AttemptSucceeded None None True running_store)"

theorem late_recovery_reopens_succeeded_job_witness:
  "\<exists>j j' s'. job_by ''job_1'' succeeded_store = Some j \<and> j_status j = JobSucceeded \<and>
     job_by ''job_1'' s' = Some j' \<and> j_status j' = JobRetryWait"
proof -
  let ?a = "sample_attempt\<lparr>a_status := AttemptSucceeded, a_finished_at := Some 55, a_updated_at := 55, a_version := 1\<rparr>"
  let ?j = "sample_job\<lparr>j_status := JobSucceeded, j_terminal_at := Some 55, j_updated_at := 55, j_version := 2\<rparr>"
  have ok: "db_ok succeeded_store" unfolding succeeded_store_def by (rule finish_attempt.op_keeps_ok [OF sample_ok(2)])
  have a: "attempt_by ''attempt_1'' succeeded_store = Some ?a" by code_simp
  have j: "job_by (a_job_id ?a) succeeded_store = Some ?j" by code_simp
  have "retry_safe (a_idempotency_class ?a)" "a_number ?a < j_max_attempts ?j" by code_simp+
  with late_recovery_reopens_succeeded_job [OF ok a _ j, of sample_env 60 "''2''" None second]
  obtain j' s' where "job_by (a_job_id ?a) s' = Some j'" "j_status j' = JobRetryWait"
    by (auto simp: sample_job_def)
  with j show ?thesis
    by (intro exI [of _ ?j] exI [of _ j'] exI [of _ s']) (simp add: sample_attempt_def)
qed

end
