(* ===== verification/Claims.thy ===== *)
theory Claims
  imports Attempts
begin

text \<open>
  Claiming of queued work (\<open>runtime/jobs/claims.py\<close>) and capability matching
  (\<open>_fingerprint_matches\<close> of \<open>runtime/repositories/records.py\<close>). A claim first searches a
  candidate page by page (\<open>CLAIM_CANDIDATE_WINDOW\<close> rows behind a cursor), then takes it in a
  compare-and-swap transaction on the version it read; a lost race starts over, at most
  \<open>CLAIM_MAX_CAS_RETRIES\<close> times. One clock reading stands for the readings of one claim.
\<close>

section \<open>Capability matching\<close>

text \<open>Python's \<open>==\<close> on JSON values: booleans are the integers 0 and 1, dicts ignore order.\<close>

function (sequential) py_norm :: "json \<Rightarrow> json" where
  "py_norm (JBool b) = JInt (if b then 1 else 0)"
| "py_norm (JList xs) = JList (map py_norm xs)"
| "py_norm (JObj kvs) = JObj (sort_key fst (map (\<lambda>kv. (fst kv, py_norm (snd kv))) kvs))"
| "py_norm v = v"
  by pat_completeness auto
termination
  by (relation "measure size") (auto simp: size_items less_Suc_eq_le size_list_estimation')

definition py_eq :: "json \<Rightarrow> json \<Rightarrow> bool" where
  "py_eq a b = (py_norm a = py_norm b)"

text \<open>\<open>mapping.get(key)\<close> with None for a missing key.\<close>

definition get_or_null :: "json \<Rightarrow> string \<Rightarrow> json" where
  "get_or_null m k = (case jget m k of None \<Rightarrow> JNull | Some v \<Rightarrow> v)"

definition harness_available :: "json option \<Rightarrow> bool" where
  "harness_available h = (case h of
     None \<Rightarrow> False
   | Some d \<Rightarrow> is_mapping d \<and> truthy (get_or_null d ''available''))"

definition harness_compatible :: "json \<Rightarrow> json option \<Rightarrow> bool" where
  "harness_compatible expected actual_opt =
     (case actual_opt of
        None \<Rightarrow> False
      | Some actual \<Rightarrow>
          is_mapping expected \<and> is_mapping actual
          \<and> list_all (\<lambda>key. get_or_null expected key = JNull
                         \<or> py_eq (get_or_null expected key) (get_or_null actual key))
              [''distribution'', ''binary_version'', ''structured_capability_hash'']
          \<and> (case jget_mapping expected ''features'' of
               None \<Rightarrow> True
             | Some expected_features \<Rightarrow>
                 (case jget_mapping actual ''features'' of
                    None \<Rightarrow> False
                  | Some actual_features \<Rightarrow>
                      list_all (\<lambda>kv. \<not> (truthy (snd kv) \<and> \<not> truthy (get_or_null actual_features (fst kv))))
                        (items expected_features))))"

definition fingerprint_matches :: "json \<Rightarrow> json \<Rightarrow> string option \<Rightarrow> bool" where
  "fingerprint_matches required worker required_harness_id =
     (case jget_mapping worker ''harnesses'' of
        None \<Rightarrow> required_harness_id = None \<and> \<not> truthy required
      | Some worker_harnesses \<Rightarrow>
          (case required_harness_id of
             None \<Rightarrow> True
           | Some h \<Rightarrow> harness_available (jget worker_harnesses h))
          \<and> (case optional_json_text (jget required ''os'') of
               None \<Rightarrow> True
             | Some os \<Rightarrow> Some os = optional_json_text (jget worker ''os''))
          \<and> (case jget_mapping required ''harnesses'' of
               None \<Rightarrow> True
             | Some required_harnesses \<Rightarrow>
                 list_all (\<lambda>kv. harness_compatible (snd kv) (jget worker_harnesses (fst kv)))
                   (items required_harnesses)))"

section \<open>The candidate query\<close>

definition available_harness_ids :: "json \<Rightarrow> string list" where
  "available_harness_ids fingerprint =
     (case jget_mapping fingerprint ''harnesses'' of
        None \<Rightarrow> []
      | Some harnesses \<Rightarrow> sort (map fst (filter (\<lambda>kv. harness_available (Some (snd kv))) (items harnesses))))"

type_synonym claim_cursor = "int \<times> time \<times> string"

definition job_cursor :: "job \<Rightarrow> claim_cursor" where
  "job_cursor j = (j_priority j, j_created_at j, j_id j)"

text \<open>\<open>ORDER BY priority DESC, created_at, id\<close> and the keyset condition behind a cursor.\<close>

definition claim_order :: "job \<Rightarrow> int \<times> time \<times> string" where
  "claim_order j = (- j_priority j, j_created_at j, j_id j)"

definition behind_cursor :: "claim_cursor option \<Rightarrow> job \<Rightarrow> bool" where
  "behind_cursor cursor j =
     (case cursor of
        None \<Rightarrow> True
      | Some (priority, created_at, job_id) \<Rightarrow>
          j_priority j < priority
          \<or> (j_priority j = priority
             \<and> (j_created_at j > created_at \<or> (j_created_at j = created_at \<and> j_id j > job_id))))"

text \<open>An interactive job waits for the running and the earlier active jobs of its session.\<close>

definition blocks :: "job \<Rightarrow> job \<Rightarrow> bool" where
  "blocks blocker candidate =
     (j_session_id blocker = j_session_id candidate \<and> j_id blocker \<noteq> j_id candidate
      \<and> (j_status blocker = JobRunning
         \<or> (j_status blocker \<in> {JobQueued, JobRetryWait, JobWaitingApproval, JobWaitingInput}
            \<and> (j_created_at blocker < j_created_at candidate
               \<or> (j_created_at blocker = j_created_at candidate \<and> j_id blocker < j_id candidate)))))"

definition claimable :: "time \<Rightarrow> string option \<Rightarrow> string list \<Rightarrow> job list \<Rightarrow> job \<Rightarrow> bool" where
  "claimable now worker_os harness_ids js j =
     (j_status j = JobQueued
      \<and> (case j_available_at j of None \<Rightarrow> True | Some t \<Rightarrow> t \<le> now)
      \<and> j_cancel_requested_at j = None
      \<and> (case worker_os of None \<Rightarrow> j_required_os j = None
          | Some os \<Rightarrow> j_required_os j = None \<or> j_required_os j = Some os)
      \<and> (case j_required_harness_id j of None \<Rightarrow> True | Some h \<Rightarrow> h \<in> set harness_ids)
      \<and> (j_origin j \<noteq> ''interactive'' \<or> \<not> list_ex (\<lambda>b. blocks b j) js))"

definition CLAIM_CANDIDATE_WINDOW :: nat where
  "CLAIM_CANDIDATE_WINDOW = 64"

definition CLAIM_MAX_CAS_RETRIES :: nat where
  "CLAIM_MAX_CAS_RETRIES = 8"

definition candidate_page ::
    "time \<Rightarrow> string option \<Rightarrow> string list \<Rightarrow> claim_cursor option \<Rightarrow> job list \<Rightarrow> job list" where
  "candidate_page now worker_os harness_ids cursor js =
     take CLAIM_CANDIDATE_WINDOW (order_by claim_order
       (filter (\<lambda>j. claimable now worker_os harness_ids js j \<and> behind_cursor cursor j) js))"

definition job_matches :: "json \<Rightarrow> job \<Rightarrow> bool" where
  "job_matches fingerprint j =
     fingerprint_matches (j_required_fingerprint j) fingerprint (j_required_harness_id j)"

lemma candidate_page_last:
  assumes "\<not> length (candidate_page now os ids cursor js) < CLAIM_CANDIDATE_WINDOW"
  shows "last (candidate_page now os ids cursor js) \<in> set js \<and>
    behind_cursor cursor (last (candidate_page now os ids cursor js))"
proof -
  have "candidate_page now os ids cursor js \<noteq> []"
    using assms by (auto simp: CLAIM_CANDIDATE_WINDOW_def)
  then have "last (candidate_page now os ids cursor js) \<in> set (candidate_page now os ids cursor js)"
    by (rule last_in_set)
  then have "last (candidate_page now os ids cursor js) \<in>
      set (filter (\<lambda>j. claimable now os ids js j \<and> behind_cursor cursor j) js)"
    unfolding candidate_page_def by (metis (no_types, lifting) in_set_takeD set_order_by)
  then show ?thesis by simp
qed

lemma behind_own_cursor [simp]: "\<not> behind_cursor (Some (job_cursor j)) j"
  by (simp add: behind_cursor_def job_cursor_def)

lemma behind_cursor_trans:
  "behind_cursor cursor j \<Longrightarrow> behind_cursor (Some (job_cursor j)) k \<Longrightarrow> behind_cursor cursor k"
  by (auto simp: behind_cursor_def job_cursor_def split: option.splits)

function find_candidate ::
    "time \<Rightarrow> json \<Rightarrow> string list \<Rightarrow> string option \<Rightarrow> claim_cursor option \<Rightarrow> job list \<Rightarrow> job option" where
  "find_candidate now fingerprint harness_ids worker_os cursor js =
     (let rows = candidate_page now worker_os harness_ids cursor js in
      case List.find (job_matches fingerprint) rows of
        Some row \<Rightarrow> Some row
      | None \<Rightarrow>
          if length rows < CLAIM_CANDIDATE_WINDOW then None
          else find_candidate now fingerprint harness_ids worker_os (Some (job_cursor (last rows))) js)"
  by pat_completeness auto
termination
proof (relation "measure (\<lambda>(now, f, ids, os, cursor, js). length (filter (behind_cursor cursor) js))")
  fix now :: time and f :: json and ids os cursor and js :: "job list" and rows
  assume rows: "rows = candidate_page now os ids cursor js" and full: "\<not> length rows < CLAIM_CANDIDATE_WINDOW"
  have l: "last rows \<in> set js" "behind_cursor cursor (last rows)"
    using candidate_page_last full rows by blast+
  have "filter (behind_cursor (Some (job_cursor (last rows)))) js =
      filter (\<lambda>j. behind_cursor (Some (job_cursor (last rows))) j) (filter (behind_cursor cursor) js)"
    using behind_cursor_trans [OF l(2)] by (auto intro!: filter_cong)
  moreover have "length (filter (\<lambda>j. behind_cursor (Some (job_cursor (last rows))) j) (filter (behind_cursor cursor) js))
      < length (filter (behind_cursor cursor) js)"
    by (rule length_filter_less [of "last rows"]) (use l in auto)
  ultimately show "((now, f, ids, os, Some (job_cursor (last rows)), js), (now, f, ids, os, cursor, js))
      \<in> measure (\<lambda>(now, f, ids, os, cursor, js). length (filter (behind_cursor cursor) js))"
    by simp
qed simp

declare find_candidate.simps [simp del]

section \<open>Claiming\<close>

definition claim_edit :: "time \<Rightarrow> job \<Rightarrow> job" where
  "claim_edit now j = j\<lparr>j_status := JobRunning, j_updated_at := now, j_version := j_version j + 1\<rparr>"

text \<open>A job out of attempts fails in the claiming transaction (no outbox entry, no new version).\<close>

definition exhaust_edit :: "time \<Rightarrow> job \<Rightarrow> job" where
  "exhaust_edit now j = j\<lparr>j_status := JobFailed, j_terminal_at := Some now, j_updated_at := now\<rparr>"

definition claimed_attempt ::
    "env \<Rightarrow> time \<Rightarrow> string \<Rightarrow> string \<Rightarrow> string \<Rightarrow> json \<Rightarrow> int \<Rightarrow> job \<Rightarrow> int \<Rightarrow> attempt" where
  "claimed_attempt E now attempt_uuid run_uuid worker_id fingerprint lease_seconds candidate n = \<lparr>
     a_id = new_id ''attempt'' attempt_uuid, a_job_id = j_id candidate, a_number = n,
     a_status = AttemptClaimed,
     a_run_id = (if n = 1 then j_initial_run_id candidate else new_id ''run'' run_uuid),
     a_created_at = now, a_updated_at = now, a_lease_owner = Some worker_id,
     a_leased_until = Some (future_time now (max lease_seconds second)), a_heartbeat_at = Some now,
     a_started_at = None, a_finished_at = None, a_process_id = None, a_process_group_id = None,
     a_retry_reason = None, a_idempotency_class = ''unknown'', a_error_summary = None,
     a_fingerprint = redact_for_storage E fingerprint, a_version = 0\<rparr>"

definition claim_candidate_tx ::
    "env \<Rightarrow> time \<Rightarrow> string \<Rightarrow> string \<Rightarrow> string \<Rightarrow> json \<Rightarrow> int \<Rightarrow> job \<Rightarrow> store
     \<Rightarrow> ((job \<times> attempt) option \<times> store) result" where
  "claim_candidate_tx E now attempt_uuid run_uuid worker_id fingerprint lease_seconds candidate s =
     (let P = (\<lambda>j. j_id j = j_id candidate \<and> (j_status j = JobQueued \<and> j_version j = j_version candidate
                 \<and> j_cancel_requested_at j = None
                 \<and> (case j_available_at j of None \<Rightarrow> True | Some t \<Rightarrow> t \<le> now)));
          s1 = update_jobs P (claim_edit now) s
      in if changes P (jobs s) \<noteq> 1 then Inr (None, s1)
         else
           let attempt_number = max_attempt_number (j_id candidate) s1 + 1 in
           if j_max_attempts candidate < attempt_number then
             Inr (None, update_jobs (\<lambda>j. j_id j = j_id candidate \<and> j_status j = JobRunning
                    \<and> j_version j = j_version candidate + 1) (exhaust_edit now) s1)
           else
             let row = claimed_attempt E now attempt_uuid run_uuid worker_id fingerprint lease_seconds
                   candidate attempt_number
             in and_then (insert_attempt row s1) (\<lambda>s2.
                and_then (fetch (JobNotFoundError (j_id candidate)) (job_by (j_id candidate) s2)) (\<lambda>job.
                  Inr (Some (job, row), s2))))"

definition claim_candidate ::
    "env \<Rightarrow> time \<Rightarrow> string \<Rightarrow> string \<Rightarrow> string \<Rightarrow> json \<Rightarrow> int \<Rightarrow> job \<Rightarrow> (job \<times> attempt) option op" where
  "claim_candidate E now attempt_uuid run_uuid worker_id fingerprint lease_seconds candidate =
     transaction (claim_candidate_tx E now attempt_uuid run_uuid worker_id fingerprint lease_seconds candidate)"

text \<open>
  One pass of the loop searches on a connection of its own and claims in a later transaction.
  A turn holds what the pass draws (the two clock readings and the fresh ids) and what the other
  connections commit before the search and between the search and the claim.
\<close>

record claim_turn =
  ct_search_time :: time
  ct_claim_time :: time
  ct_attempt :: string
  ct_run :: string
  ct_before :: "store \<Rightarrow> store"
  ct_between :: "store \<Rightarrow> store"

definition find_compatible_candidate :: "time \<Rightarrow> json \<Rightarrow> store \<Rightarrow> job option" where
  "find_compatible_candidate now fingerprint s =
     find_candidate now fingerprint (available_harness_ids fingerprint)
       (optional_json_text (jget fingerprint ''os'')) None (jobs s)"

fun claim_loop :: "claim_turn list \<Rightarrow> env \<Rightarrow> string \<Rightarrow> json \<Rightarrow> int \<Rightarrow> (job \<times> attempt) option op" where
  "claim_loop [] E worker_id fingerprint lease_seconds s = (Inr None, s)"
| "claim_loop (t # ts) E worker_id fingerprint lease_seconds s =
     (let searched = ct_before t s in
      case find_compatible_candidate (ct_search_time t) fingerprint searched of
        None \<Rightarrow> (Inr None, searched)
      | Some candidate \<Rightarrow>
          (case claim_candidate E (ct_claim_time t) (ct_attempt t) (ct_run t) worker_id fingerprint
                  lease_seconds candidate (ct_between t searched) of
             (Inl e, s') \<Rightarrow> (Inl e, s')
           | (Inr (Some claimed), s') \<Rightarrow> (Inr (Some claimed), s')
           | (Inr None, s') \<Rightarrow> claim_loop ts E worker_id fingerprint lease_seconds s'))"

text \<open>\<open>for _ in range(CLAIM_MAX_CAS_RETRIES)\<close>: pass \<open>k\<close> runs turn \<open>k\<close>.\<close>

definition claim_next_job ::
    "env \<Rightarrow> (nat \<Rightarrow> claim_turn) \<Rightarrow> string \<Rightarrow> json \<Rightarrow> int \<Rightarrow> (job \<times> attempt) option op" where
  "claim_next_job E turns worker_id fingerprint lease_seconds s =
     (case required_text worker_id ''worker_id'' of
        Inl e \<Rightarrow> (Inl e, s)
      | Inr w \<Rightarrow> claim_loop (map turns [0..<CLAIM_MAX_CAS_RETRIES]) E w fingerprint lease_seconds s)"

text \<open>A pass that nobody else interferes with.\<close>

definition lone_turn :: "time \<Rightarrow> string \<Rightarrow> string \<Rightarrow> claim_turn" where
  "lone_turn now attempt_uuid run_uuid = \<lparr>ct_search_time = now, ct_claim_time = now,
     ct_attempt = attempt_uuid, ct_run = run_uuid, ct_before = id, ct_between = id\<rparr>"

section \<open>The paged search is a plain search\<close>

text \<open>Pages end at a cursor; behind the cursor of a page's last row lies exactly the rest.\<close>

lemma filter_behind_page:
  assumes "sorted (map key xs)" "distinct (map key xs)" "0 < n" "n \<le> length xs"
  shows "filter (\<lambda>x. key (last (take n xs)) < key x) xs = drop n xs"
proof -
  have split: "sorted_wrt (<) (map key (take n xs @ drop n xs))"
    using assms(1,2) by (simp add: strict_sorted_iff)
  then have parts: "sorted_wrt (<) (map key (take n xs))"
    "\<forall>x\<in>set (take n xs). \<forall>y\<in>set (drop n xs). key x < key y"
    unfolding map_append sorted_wrt_append by auto
  obtain ys l where l: "take n xs = ys @ [l]"
    using assms(3,4) by (metis append_butlast_last_id length_greater_0_conv take_eq_Nil2 not_le neq0_conv)
  with parts have "\<forall>x\<in>set (take n xs). \<not> key l < key x" "\<forall>y\<in>set (drop n xs). key l < key y"
    by (auto simp: sorted_wrt_append)
  then have "filter (\<lambda>x. key l < key x) (take n xs) = []" "filter (\<lambda>x. key l < key x) (drop n xs) = drop n xs"
    by (simp_all add: filter_empty_conv)
  then have "filter (\<lambda>x. key l < key x) (take n xs @ drop n xs) = drop n xs"
    by (simp only: filter_append append_Nil)
  then have "filter (\<lambda>x. key l < key x) xs = drop n xs" by (simp only: append_take_drop_id)
  with l show ?thesis by simp
qed

lemma behind_cursor_order: "behind_cursor (Some (job_cursor l)) j \<longleftrightarrow> claim_order l < claim_order j"
  by (auto simp: behind_cursor_def job_cursor_def claim_order_def)

lemma order_by_filter: "order_by k (filter P xs) = filter P (order_by k xs)"
  by (simp add: order_by_def filter_sort)

lemma distinct_claim_order:
  "distinct (map j_id js) \<Longrightarrow> distinct (map claim_order (order_by claim_order js))"
  unfolding order_by_def
  by (simp add: distinct_map inj_on_def claim_order_def)

lemma find_append: "List.find P (xs @ ys) = (case List.find P xs of None \<Rightarrow> List.find P ys | Some x \<Rightarrow> Some x)"
  by (induction xs) auto

lemma find_candidate_from:
  assumes "distinct (map j_id js)"
  shows "find_candidate now fp ids os cursor js = List.find (job_matches fp)
    (order_by claim_order (filter (\<lambda>j. claimable now os ids js j \<and> behind_cursor cursor j) js))"
  using assms
proof (induction now fp ids os cursor js rule: find_candidate.induct)
  case (1 now fp ids os cursor js)
  define rest where "rest c = order_by claim_order (filter (\<lambda>j. claimable now os ids js j \<and> behind_cursor c j) js)" for c
  define page where "page = candidate_page now os ids cursor js"
  have page: "page = take CLAIM_CANDIDATE_WINDOW (rest cursor)"
    by (simp add: page_def candidate_page_def rest_def)
  then obtain more where split: "rest cursor = page @ more" and more: "more = drop CLAIM_CANDIDATE_WINDOW (rest cursor)"
    by simp
  have step: "find_candidate now fp ids os cursor js = (case List.find (job_matches fp) page of
      Some row \<Rightarrow> Some row
    | None \<Rightarrow> if length page < CLAIM_CANDIDATE_WINDOW then None
        else find_candidate now fp ids os (Some (job_cursor (last page))) js)"
    unfolding page_def by (subst find_candidate.simps) (simp only: Let_def)
  show ?case
  proof (cases "List.find (job_matches fp) page")
    case (Some row)
    then have "List.find (job_matches fp) (rest cursor) = Some row"
      by (simp only: split find_append option.case)
    with Some step show ?thesis by (simp add: rest_def)
  next
    case None
    show ?thesis
    proof (cases "length page < CLAIM_CANDIDATE_WINDOW")
      case True
      with page have "rest cursor = page" by (simp add: min_def split: if_splits)
      with True None step show ?thesis by (simp add: rest_def [symmetric])
    next
      case False
      have l: "behind_cursor cursor (last page)"
        using candidate_page_last False unfolding page_def by blast
      have "rest (Some (job_cursor (last page))) =
          filter (\<lambda>j. behind_cursor (Some (job_cursor (last page))) j) (rest cursor)"
        using behind_cursor_trans [OF l]
        by (auto simp: rest_def order_by_filter intro!: filter_cong)
      also have "\<dots> = filter (\<lambda>j. claim_order (last page) < claim_order j) (rest cursor)"
        by (simp only: behind_cursor_order)
      also have "\<dots> = drop CLAIM_CANDIDATE_WINDOW (rest cursor)"
        unfolding page
      proof (rule filter_behind_page)
        show "sorted (map claim_order (rest cursor))" by (simp add: rest_def)
        have "distinct (map claim_order (order_by claim_order js))"
          using "1.prems" by (rule distinct_claim_order)
        then show "distinct (map claim_order (rest cursor))"
          by (simp add: rest_def order_by_filter distinct_map_filter)
        show "0 < CLAIM_CANDIDATE_WINDOW" by (simp add: CLAIM_CANDIDATE_WINDOW_def)
        show "CLAIM_CANDIDATE_WINDOW \<le> length (rest cursor)" using False page by simp
      qed
      finally have "rest (Some (job_cursor (last page))) = more" unfolding more .
      moreover have "find_candidate now fp ids os (Some (job_cursor (last page))) js =
          List.find (job_matches fp) (rest (Some (job_cursor (last page))))"
        using "1.IH" [OF page_def None False "1.prems"] unfolding rest_def by simp
      moreover have "List.find (job_matches fp) (rest cursor) = List.find (job_matches fp) more"
        using None by (simp only: split find_append option.case)
      ultimately show ?thesis using False None step by (simp add: rest_def)
    qed
  qed
qed

lemmas find_candidate_flat = find_candidate_from [where cursor = None, unfolded behind_cursor_def, simplified]

section \<open>Contracts\<close>

text \<open>
  What a candidate read earlier still says of the row the transaction finds under its id and
  version. A row read in a past state of the database has it, because versions grow with every
  change of the row.
\<close>

definition read_before :: "job \<Rightarrow> store \<Rightarrow> bool" where
  "read_before candidate s \<longleftrightarrow> (\<forall>j\<in>set (jobs s).
     j_id j = j_id candidate \<and> j_version j = j_version candidate \<longrightarrow> j = candidate)"

lemma read_before_evolves:
  assumes "evolves s0 s" "db_ok s" "candidate \<in> set (jobs s0)"
  shows "read_before candidate s"
  unfolding read_before_def
proof (intro ballI impI)
  fix j assume j: "j \<in> set (jobs s)" "j_id j = j_id candidate \<and> j_version j = j_version candidate"
  from assms(1,3) obtain k where k: "k \<in> set (jobs s)" "job_next candidate k"
    by (auto simp: evolves_def rows_next_def)
  then have "j_id k = j_id j" using j by (auto simp: job_next_def)
  then have "k = j" using db_ok_jobs [OF assms(2)] k(1) j(1) by (auto simp: distinct_map inj_on_def)
  with k(2) j show "j = candidate" by (auto simp: job_next_def)
qed

abbreviation claim_target :: "time \<Rightarrow> job \<Rightarrow> job \<Rightarrow> bool" where
  "claim_target now candidate \<equiv> (\<lambda>j. j_id j = j_id candidate \<and> (j_status j = JobQueued
     \<and> j_version j = j_version candidate \<and> j_cancel_requested_at j = None
     \<and> (case j_available_at j of None \<Rightarrow> True | Some t \<Rightarrow> t \<le> now)))"

abbreviation exhaust_target :: "job \<Rightarrow> job \<Rightarrow> bool" where
  "exhaust_target candidate \<equiv> (\<lambda>j. j_id j = j_id candidate \<and> j_status j = JobRunning
     \<and> j_version j = j_version candidate + 1)"

text \<open>The three ways the claiming transaction commits.\<close>

lemma claim_candidate_tx_cases:
  assumes "claim_candidate_tx E now au ru w fp lease c s = Inr (r, s')"
  obtains (Lost) "changes (claim_target now c) (jobs s) \<noteq> 1" "r = None"
      "s' = update_jobs (claim_target now c) (claim_edit now) s"
  | (Exhausted) "changes (claim_target now c) (jobs s) = 1" "r = None"
      "j_max_attempts c < max_attempt_number (j_id c) s + 1"
      "s' = update_jobs (exhaust_target c) (exhaust_edit now) (update_jobs (claim_target now c) (claim_edit now) s)"
  | (Claimed) job row where "changes (claim_target now c) (jobs s) = 1" "r = Some (job, row)"
      "max_attempt_number (j_id c) s + 1 \<le> j_max_attempts c"
      "row = claimed_attempt E now au ru w fp lease c (max_attempt_number (j_id c) s + 1)"
      "insert_attempt row (update_jobs (claim_target now c) (claim_edit now) s) = Inr s'"
      "job_by (j_id c) s' = Some job"
proof -
  have n: "max_attempt_number i (update_jobs P f s) = max_attempt_number i s" for i P f
    by (simp add: max_attempt_number_def update_jobs_def)
  from assms that show ?thesis
    by (auto simp: claim_candidate_tx_def Let_def n and_then_Inr_iff not_less split: if_splits)
qed

text \<open>A statement that pins a unique id and changed one row changed the row with that id.\<close>

lemma changes_1_row:
  assumes "distinct (map key rows)" "changes (\<lambda>r. key r = k \<and> P r) rows = 1"
  obtains r where "r \<in> set rows" "key r = k" "P r" "row_by key k rows = Some r"
proof -
  from assms obtain r where r: "row_by key k rows = Some r" "P r"
    by (auto simp: changes_unique split: option.splits if_splits)
  with row_by_Some [OF r(1)] that show thesis by blast
qed

lemma claim_edit_next: "job_next j (claim_edit now j)"
  by (simp add: job_next_def claim_edit_def job_key_def)

lemma claim_edit_job_edit: "j_status j = JobQueued \<Longrightarrow> job_edit j (claim_edit now j)"
  by (auto simp: job_edit_def claim_edit_def job_key_def job_lifecycle_def)

lemma claim_update_legal: "legal s (update_jobs (claim_target now c) (claim_edit now) s)"
  by (rule update_jobs_legal) (auto simp: claim_edit_job_edit, auto simp: claim_edit_def)

lemma update_jobs_jobs [simp]: "jobs (update_jobs P f s) = upd_where P f (jobs s)"
  by (simp add: update_jobs_def)

lemma exhausted_legal:
  assumes "changes (claim_target now c) (jobs s) = 1"
  shows "legal s (update_jobs (exhaust_target c) (exhaust_edit now)
    (update_jobs (claim_target now c) (claim_edit now) s))" (is "legal s (update_jobs ?Q ?g ?s1)")
proof (rule legalI)
  assume ok: "db_ok s"
  then have "db_ok ?s1" using claim_update_legal [where s = s and c = c and now = now] by (simp add: legal_def)
  then show "db_ok (update_jobs ?Q ?g ?s1)"
    by (rule update_jobs_ok) (auto simp: job_edit_def exhaust_edit_def job_key_def job_lifecycle_def)
next
  assume ok: "db_ok s"
  obtain r where r: "r \<in> set (jobs s)" "j_id r = j_id c" "claim_target now c r"
    using changes_1_row [OF db_ok_jobs [OF ok] assms] by blast
  have "rows_next job_next (jobs s) (upd_where ?Q ?g (upd_where (claim_target now c) (claim_edit now) (jobs s)))"
    unfolding rows_next_def
  proof
    fix j assume j: "j \<in> set (jobs s)"
    define j1 where "j1 = (if claim_target now c j then claim_edit now j else j)"
    define j2 where "j2 = (if ?Q j1 then ?g j1 else j1)"
    have "j2 \<in> set (upd_where ?Q ?g (upd_where (claim_target now c) (claim_edit now) (jobs s)))"
      using j by (auto simp: j1_def j2_def set_upd_where)
    moreover have "job_next j j2"
    proof (cases "j_id j = j_id c")
      case True
      then have "j = r" using j r(1,2) db_ok_jobs [OF ok] by (auto simp: distinct_map inj_on_def)
      with r(3) show ?thesis
        by (auto simp: j1_def j2_def job_next_def claim_edit_def exhaust_edit_def job_key_def)
    qed (simp add: j1_def j2_def)
    ultimately show "\<exists>y\<in>set (upd_where ?Q ?g (upd_where (claim_target now c) (claim_edit now) (jobs s))). job_next j y"
      by blast
  qed
  then show "evolves s (update_jobs ?Q ?g ?s1)"
    by (simp add: evolves_def update_jobs_def)
qed

lemma claim_candidate_legal:
  assumes "read_before c s"
  shows "legal s (snd (claim_candidate E now au ru w fp lease c s))"
  unfolding claim_candidate_def
proof (rule transaction_legal)
  fix r s' assume "claim_candidate_tx E now au ru w fp lease c s = Inr (r, s')"
  then show "legal s s'"
  proof (cases rule: claim_candidate_tx_cases)
    case Lost
    then show ?thesis by (simp only: claim_update_legal)
  next
    case Exhausted
    then show ?thesis by (simp only: exhausted_legal)
  next
    case (Claimed job row)
    show ?thesis
    proof (cases "db_ok s")
      case True
      obtain j where j: "j \<in> set (jobs s)" "claim_target now c j"
        using changes_1_row [OF db_ok_jobs [OF True] Claimed(1)] by blast
      then have "j = c" using assms by (auto simp: read_before_def)
      with j Claimed have "\<exists>k\<in>set (jobs (update_jobs (claim_target now c) (claim_edit now) s)).
          j_id k = a_job_id row \<and> a_number row \<le> j_max_attempts k"
        by (intro bexI [of _ "claim_edit now c"]) (auto simp: set_upd_where claimed_attempt_def claim_edit_def)
      with Claimed(5) have "legal (update_jobs (claim_target now c) (claim_edit now) s) s'"
        by (rule insert_attempt_legal)
      with claim_update_legal show ?thesis by (rule legal_trans)
    qed (simp add: legal_def)
  qed
qed

lemma find_candidate_member:
  assumes "distinct (map j_id js)" "find_candidate now fp ids os None js = Some c"
  shows "c \<in> set js \<and> claimable now os ids js c \<and> job_matches fp c"
  using find_Some_member [OF assms(2) [unfolded find_candidate_flat [OF assms(1)]]] by simp

lemma read_before_now: "db_ok s \<Longrightarrow> c \<in> set (jobs s) \<Longrightarrow> read_before c s"
  by (rule read_before_evolves) auto

lemma found_member:
  assumes "db_ok s" "find_compatible_candidate now fp s = Some c"
  shows "c \<in> set (jobs s)"
    "claimable now (optional_json_text (jget fp ''os'')) (available_harness_ids fp) (jobs s) c"
  using find_candidate_member [OF db_ok_jobs [OF assms(1)] assms(2) [unfolded find_compatible_candidate_def]]
  by simp_all

text \<open>What the other connections commit is legal.\<close>

abbreviation fair_turn :: "claim_turn \<Rightarrow> bool" where
  "fair_turn t \<equiv> (\<forall>s. legal s (ct_before t s) \<and> legal s (ct_between t s))"

lemma claim_turn_legal:
  assumes "fair_turn t" "db_ok s" "find_compatible_candidate (ct_search_time t) fp (ct_before t s) = Some c"
  shows "legal s (ct_between t (ct_before t s))"
    "legal s (snd (claim_candidate E now au ru w fp lease c (ct_between t (ct_before t s))))"
proof -
  have before: "legal s (ct_before t s)" and between: "legal (ct_before t s) (ct_between t (ct_before t s))"
    using assms(1) by auto
  then show s1: "legal s (ct_between t (ct_before t s))" by (rule legal_trans)
  have "db_ok (ct_before t s)" using before assms(2) by (simp add: legal_def)
  moreover have "evolves (ct_before t s) (ct_between t (ct_before t s))" "db_ok (ct_between t (ct_before t s))"
    using between s1 assms(2) calculation by (simp_all add: legal_def)
  ultimately have "read_before c (ct_between t (ct_before t s))"
    using found_member(1) [OF _ assms(3)] by (intro read_before_evolves) auto
  from legal_trans [OF s1 claim_candidate_legal [OF this]]
  show "legal s (snd (claim_candidate E now au ru w fp lease c (ct_between t (ct_before t s))))" .
qed

lemma claim_loop_legal:
  assumes "\<forall>t\<in>set ts. fair_turn t"
  shows "legal s (snd (claim_loop ts E w fp lease s))"
proof (cases "db_ok s")
  case True
  with assms show ?thesis
  proof (induction ts arbitrary: s)
    case (Cons t ts)
    have fair: "fair_turn t" and rest: "\<forall>t\<in>set ts. fair_turn t" using Cons.prems(1) by simp_all
    show ?case
    proof (cases "find_compatible_candidate (ct_search_time t) fp (ct_before t s)")
      case None
      then show ?thesis using fair by (simp add: Let_def)
    next
      case (Some c)
      define r where "r = claim_candidate E (ct_claim_time t) (ct_attempt t) (ct_run t) w fp lease c (ct_between t (ct_before t s))"
      have leg: "legal s (snd r)"
        unfolding r_def by (rule claim_turn_legal(2) [OF fair Cons.prems(2) Some])
      have "legal (snd r) (snd (claim_loop ts E w fp lease (snd r)))"
        using Cons.IH [OF rest] leg Cons.prems(2) by (simp add: legal_def)
      then have "legal s (snd (claim_loop ts E w fp lease (snd r)))" by (rule legal_trans [OF leg])
      then show ?thesis
        using leg Some by (cases r) (auto simp: Let_def r_def [symmetric] split: sum.splits option.splits)
    qed
  qed simp
qed (simp add: legal_def)

lemma claim_next_job_legal:
  "(\<forall>k. fair_turn (turns k)) \<Longrightarrow> legal s (snd (claim_next_job E turns w fp lease s))"
  by (auto simp: claim_next_job_def intro!: claim_loop_legal split: sum.splits)

section \<open>What a claim promises\<close>

text \<open>Work a worker may take, before capabilities are compared.\<close>

definition eligible :: "time \<Rightarrow> job list \<Rightarrow> job \<Rightarrow> bool" where
  "eligible now js j \<longleftrightarrow> j_status j = JobQueued
     \<and> (case j_available_at j of None \<Rightarrow> True | Some t \<Rightarrow> t \<le> now)
     \<and> j_cancel_requested_at j = None
     \<and> (j_origin j \<noteq> ''interactive'' \<or> \<not> list_ex (\<lambda>b. blocks b j) js)"

text \<open>The SQL conditions on the operating system and the harness never hide a compatible job.\<close>

lemma available_harness_ids_iff:
  "jget_mapping fp ''harnesses'' = Some hs \<Longrightarrow> harness_available (jget hs h) \<Longrightarrow> h \<in> set (available_harness_ids fp)"
  by (auto simp: available_harness_ids_def jget_def harness_available_def image_iff
      split: option.splits dest!: map_of_SomeD)

lemma optional_json_text_None [simp]: "optional_json_text None = None"
  by simp

lemma prefilter_complete:
  assumes "j_required_os j = optional_json_text (jget (j_required_fingerprint j) ''os'')"
    "job_matches fp j" "eligible now js j"
  shows "claimable now (optional_json_text (jget fp ''os'')) (available_harness_ids fp) js j"
proof -
  have "(case optional_json_text (jget fp ''os'') of None \<Rightarrow> j_required_os j = None
      | Some os \<Rightarrow> j_required_os j = None \<or> j_required_os j = Some os)
    \<and> (case j_required_harness_id j of None \<Rightarrow> True | Some h \<Rightarrow> h \<in> set (available_harness_ids fp))"
  proof (cases "jget_mapping fp ''harnesses''")
    case None
    with assms(2) have "j_required_harness_id j = None" "\<not> truthy (j_required_fingerprint j)"
      by (auto simp: job_matches_def fingerprint_matches_def)
    moreover from this(2) have "jget (j_required_fingerprint j) ''os'' = None"
      by (cases "j_required_fingerprint j") (auto simp: jget_def)
    ultimately show ?thesis using assms(1) by (simp split: option.splits)
  next
    case (Some hs)
    with assms(2) have h: "case j_required_harness_id j of None \<Rightarrow> True | Some h \<Rightarrow> harness_available (jget hs h)"
      and os: "case j_required_os j of None \<Rightarrow> True | Some os \<Rightarrow> Some os = optional_json_text (jget fp ''os'')"
      unfolding assms(1) by (auto simp: job_matches_def fingerprint_matches_def)
    from h available_harness_ids_iff [OF Some]
    have "case j_required_harness_id j of None \<Rightarrow> True | Some h \<Rightarrow> h \<in> set (available_harness_ids fp)"
      by (auto split: option.splits)
    with os show ?thesis by (auto split: option.splits)
  qed
  with assms(3) show ?thesis by (simp add: claimable_def eligible_def)
qed

lemma find_filter: "List.find P (filter Q xs) = List.find (\<lambda>x. Q x \<and> P x) xs"
  by (induction xs) auto

lemma find_cong_on: "(\<And>x. x \<in> set xs \<Longrightarrow> P x = Q x) \<Longrightarrow> List.find P xs = List.find Q xs"
  by (induction xs) auto

text \<open>
  C13. The paged search finds the first job in claim order. For jobs with distinct ids whose
  \<open>required_os\<close> column was derived from their fingerprint, walking the pages of 64 rows behind
  the cursor, with the SQL conditions on the worker's system and harnesses, returns the first
  job by (priority descending, creation, id) among all eligible jobs whose fingerprint matches;
  it returns none only if there is no such job.
\<close>

theorem find_candidate_first_match:
  assumes "distinct (map j_id js)"
    "\<forall>j\<in>set js. j_required_os j = optional_json_text (jget (j_required_fingerprint j) ''os'')"
  shows "find_candidate now fp (available_harness_ids fp) (optional_json_text (jget fp ''os'')) None js
    = List.find (job_matches fp) (order_by claim_order (filter (eligible now js) js))"
proof -
  have "claimable now os ids js j \<Longrightarrow> eligible now js j" for os ids j
    by (simp add: claimable_def eligible_def)
  then have "List.find (\<lambda>j. claimable now (optional_json_text (jget fp ''os'')) (available_harness_ids fp) js j
        \<and> job_matches fp j) (order_by claim_order js)
      = List.find (\<lambda>j. eligible now js j \<and> job_matches fp j) (order_by claim_order js)"
    using assms(2) prefilter_complete by (intro find_cong_on) auto
  then show ?thesis
    by (simp add: find_candidate_flat [OF assms(1)] order_by_filter find_filter)
qed

theorem find_candidate_first_match_witness:
  "find_candidate 20 (JObj [(''harnesses'', JObj [])]) (available_harness_ids (JObj [(''harnesses'', JObj [])]))
     (optional_json_text (jget (JObj [(''harnesses'', JObj [])]) ''os'')) None
     [queued_job\<lparr>j_priority := - 1, j_id := ''job_0''\<rparr>, queued_job] = Some queued_job"
proof -
  have "distinct (map j_id [queued_job\<lparr>j_priority := - 1, j_id := ''job_0''\<rparr>, queued_job])" by code_simp
  moreover have "\<forall>j\<in>set [queued_job\<lparr>j_priority := - 1, j_id := ''job_0''\<rparr>, queued_job].
      j_required_os j = optional_json_text (jget (j_required_fingerprint j) ''os'')" by code_simp
  ultimately have "find_candidate 20 (JObj [(''harnesses'', JObj [])]) (available_harness_ids (JObj [(''harnesses'', JObj [])]))
     (optional_json_text (jget (JObj [(''harnesses'', JObj [])]) ''os'')) None
     [queued_job\<lparr>j_priority := - 1, j_id := ''job_0''\<rparr>, queued_job]
    = List.find (job_matches (JObj [(''harnesses'', JObj [])])) (order_by claim_order
       (filter (eligible 20 [queued_job\<lparr>j_priority := - 1, j_id := ''job_0''\<rparr>, queued_job])
         [queued_job\<lparr>j_priority := - 1, j_id := ''job_0''\<rparr>, queued_job]))"
    by (rule find_candidate_first_match)
  also have "\<dots> = Some queued_job" by code_simp
  finally show ?thesis .
qed

lemma claim_candidate_cases:
  assumes "claim_candidate E now au ru w fp lease c s = (Inr r, s')"
  shows "claim_candidate_tx E now au ru w fp lease c s = Inr (r, s')"
  using assms by (simp add: claim_candidate_def transaction_Inr_iff)

lemma claimed_attempt_simps [simp]:
  "a_id (claimed_attempt E now au ru w fp lease c n) = new_id ''attempt'' au"
  "a_number (claimed_attempt E now au ru w fp lease c n) = n"
  "a_job_id (claimed_attempt E now au ru w fp lease c n) = j_id c"
  "a_status (claimed_attempt E now au ru w fp lease c n) = AttemptClaimed"
  "a_lease_owner (claimed_attempt E now au ru w fp lease c n) = Some w"
  "a_leased_until (claimed_attempt E now au ru w fp lease c n) = Some (now + max lease second)"
  by (simp_all add: claimed_attempt_def future_time_def)

lemma claim_edit_simps [simp]:
  "j_id (claim_edit now j) = j_id j" "j_status (claim_edit now j) = JobRunning"
  "j_version (claim_edit now j) = j_version j + 1" "j_session_id (claim_edit now j) = j_session_id j"
  "j_origin (claim_edit now j) = j_origin j" "j_created_at (claim_edit now j) = j_created_at j"
  by (simp_all add: claim_edit_def)

text \<open>What a successful claim committed.\<close>

lemma claim_candidate_commits:
  assumes ok: "db_ok s" and read: "read_before c s"
    and run: "claim_candidate E now au ru w fp lease c s = (Inr (Some (job, a)), s')"
  shows "c \<in> set (jobs s)" "claim_target now c c" "job = claim_edit now c"
    "jobs s' = upd_where (\<lambda>j. j = c) (\<lambda>_. claim_edit now c) (jobs s)"
    "job_by (j_id c) s' = Some job" "attempts s' = attempts s @ [a]"
    "a = claimed_attempt E now au ru w fp lease c (max_attempt_number (j_id c) s + 1)"
    "max_attempt_number (j_id c) s + 1 \<le> j_max_attempts c"
    "outbox s' = outbox s"
proof -
  from claim_candidate_cases [OF run] obtain
    ch: "changes (claim_target now c) (jobs s) = 1" and a: "a = claimed_attempt E now au ru w fp lease c (max_attempt_number (j_id c) s + 1)"
    and n: "max_attempt_number (j_id c) s + 1 \<le> j_max_attempts c"
    and ins: "insert_attempt a (update_jobs (claim_target now c) (claim_edit now) s) = Inr s'"
    and job: "job_by (j_id c) s' = Some job"
    by (cases rule: claim_candidate_tx_cases) auto
  obtain r where r: "r \<in> set (jobs s)" "j_id r = j_id c" "claim_target now c r"
    using changes_1_row [OF db_ok_jobs [OF ok] ch] by blast
  with read have "r = c" by (simp add: read_before_def)
  with r show c: "c \<in> set (jobs s)" and t: "claim_target now c c" by auto
  have s': "s' = bump 1 (update_jobs (claim_target now c) (claim_edit now) s
      \<lparr>attempts := attempts (update_jobs (claim_target now c) (claim_edit now) s) @ [a]\<rparr>)"
    using ins by (rule insert_attempt_Inr)
  have only: "j = c" if "j \<in> set (jobs s)" "j_id j = j_id c" for j
    using that c db_ok_jobs [OF ok] by (auto simp: distinct_map inj_on_def)
  show js: "jobs s' = upd_where (\<lambda>j. j = c) (\<lambda>_. claim_edit now c) (jobs s)"
  proof -
    have "jobs s' = upd_where (claim_target now c) (claim_edit now) (jobs s)" unfolding s' by simp
    also have "\<dots> = upd_where (\<lambda>j. j = c) (\<lambda>_. claim_edit now c) (jobs s)"
    proof (rule upd_where_single)
      fix r assume r: "r \<in> set (jobs s)"
      show "claim_target now c r \<longleftrightarrow> r = c"
      proof
        assume "claim_target now c r"
        then show "r = c" using only [OF r] by simp
      next
        assume "r = c"
        then show "claim_target now c r" using t by simp
      qed
    qed
    finally show ?thesis .
  qed
  with job have "row_by j_id (j_id c) (upd_where (\<lambda>j. j = c) (\<lambda>_. claim_edit now c) (jobs s)) = Some job" by simp
  then show "job = claim_edit now c"
    using row_by_distinct [OF db_ok_jobs [OF ok] c]
    by (subst (asm) row_by_upd_where [where P = "\<lambda>j. j = c" and f = "\<lambda>_. claim_edit now c" and key = j_id]) auto
  show "job_by (j_id c) s' = Some job" by (rule job)
  show "attempts s' = attempts s @ [a]" "outbox s' = outbox s" unfolding s' by simp_all
  show "a = claimed_attempt E now au ru w fp lease c (max_attempt_number (j_id c) s + 1)" by (rule a)
  show "max_attempt_number (j_id c) s + 1 \<le> j_max_attempts c" by (rule n)
qed

text \<open>
  C3. A claim is a compare-and-swap on the candidate it read. Let the candidate be read in some
  earlier state of the database. If the claim commits, the row is unchanged since that read and
  still claimable (queued, due, not canceled); the transaction turns exactly this row into the
  running job and adds exactly one attempt, leased to the worker for at least a second, with the
  next attempt number, which is within the job's budget.
\<close>

theorem claim_candidate_compare_and_swap:
  assumes "evolves s0 s" "db_ok s" "c \<in> set (jobs s0)"
    "claim_candidate E now au ru w fp lease c s = (Inr (Some (job, a)), s')"
  shows "job_by (j_id c) s = Some c \<and> j_status c = JobQueued \<and> j_cancel_requested_at c = None \<and>
    (case j_available_at c of None \<Rightarrow> True | Some t \<Rightarrow> t \<le> now) \<and>
    job = claim_edit now c \<and> jobs s' = upd_where (\<lambda>j. j = c) (\<lambda>_. job) (jobs s) \<and>
    attempts s' = attempts s @ [a] \<and> a_job_id a = j_id c \<and> a_status a = AttemptClaimed \<and>
    a_number a = max_attempt_number (j_id c) s + 1 \<and> a_number a \<le> j_max_attempts c \<and>
    a_lease_owner a = Some w \<and> a_leased_until a = Some (now + max lease second)"
proof -
  note commits = claim_candidate_commits [OF assms(2) read_before_evolves [OF assms(1-3)] assms(4)]
  show ?thesis
    using commits row_by_distinct [OF db_ok_jobs [OF assms(2)] commits(1)] by simp
qed

theorem claim_candidate_compare_and_swap_witness:
  "\<exists>job a s'. claim_candidate sample_env 20 ''1'' ''9'' ''w'' (JObj []) 0 queued_job queued_store = (Inr (Some (job, a)), s')
     \<and> a_leased_until a = Some 1000020"
proof -
  let ?r = "claim_candidate sample_env 20 ''1'' ''9'' ''w'' (JObj []) 0 queued_job queued_store"
  let ?a = "claimed_attempt sample_env 20 ''1'' ''9'' ''w'' (JObj []) 0 queued_job 1"
  have run: "?r = (Inr (Some (claim_edit 20 queued_job, ?a)), snd ?r)" by code_simp
  have "queued_job \<in> set (jobs queued_store)" by code_simp
  from claim_candidate_compare_and_swap [OF evolves_refl sample_ok(1) this run]
  have "a_leased_until ?a = Some (20 + max 0 second)" by blast
  with run show ?thesis
    by (intro exI [of _ "claim_edit 20 queued_job"] exI [of _ ?a] exI [of _ "snd ?r"]) (simp add: second_def)
qed

text \<open>
  C2. A job is claimed at most once. After a claim of a candidate has committed, in whatever
  state the database evolves to, a second worker that holds the same candidate gets nothing and
  changes nothing.
\<close>

theorem claim_candidate_exclusive:
  assumes "db_ok s" "c \<in> set (jobs s)"
    "claim_candidate E now au ru w fp lease c s = (Inr (Some (job, a)), s1)"
    "evolves s1 s2" "db_ok s2"
  shows "claim_candidate E' now' au' ru' w' fp' lease' c s2 = (Inr None, s2)"
proof -
  note commits = claim_candidate_commits [OF assms(1) read_before_now [OF assms(1,2)] assms(3)]
  have "job \<in> set (jobs s1)" using commits(5) by (rule row_by_SomeD)
  then obtain k where k: "k \<in> set (jobs s2)" "job_next job k"
    using assms(4) by (auto simp: evolves_def rows_next_def)
  then have v: "j_id k = j_id c" "j_version c < j_version k"
    using commits(3) by (auto simp: job_next_def)
  have "\<not> claim_target now' c j" if j: "j \<in> set (jobs s2)" for j
  proof
    assume t: "claim_target now' c j"
    then have "j = k" using j k(1) v(1) db_ok_jobs [OF assms(5)] by (auto simp: distinct_map inj_on_def)
    with t v(2) show False by simp
  qed
  then have "changes (claim_target now' c) (jobs s2) = 0"
    "update_jobs (claim_target now' c) (claim_edit now') s2 = s2"
    by (auto simp: changes_0_iff update_jobs_def upd_where_none bump_def changes_0_iff [THEN iffD2])
  then show ?thesis
    by (simp add: claim_candidate_def claim_candidate_tx_def Let_def)
qed

theorem claim_candidate_exclusive_witness:
  "claim_candidate sample_env 30 ''2'' ''9'' ''v'' (JObj []) 0 queued_job
     (snd (claim_candidate sample_env 20 ''1'' ''9'' ''w'' (JObj []) 0 queued_job queued_store))
   = (Inr None, snd (claim_candidate sample_env 20 ''1'' ''9'' ''w'' (JObj []) 0 queued_job queued_store))"
proof -
  let ?r = "claim_candidate sample_env 20 ''1'' ''9'' ''w'' (JObj []) 0 queued_job queued_store"
  have run: "?r = (Inr (Some (claim_edit 20 queued_job, claimed_attempt sample_env 20 ''1'' ''9'' ''w'' (JObj []) 0 queued_job 1)), snd ?r)"
    by code_simp
  have mem: "queued_job \<in> set (jobs queued_store)" by code_simp
  have "db_ok (snd ?r)"
    using claim_candidate_legal [OF read_before_now [OF sample_ok(1) mem]] sample_ok(1) by (auto simp: legal_def)
  from claim_candidate_exclusive [OF sample_ok(1) mem run evolves_refl this] show ?thesis .
qed

text \<open>The loop returns the claim of the candidate that one of its turns found in a legal later state.\<close>

lemma claim_loop_SomeE:
  assumes "db_ok s" "\<forall>t\<in>set ts. fair_turn t" "claim_loop ts E w fp lease s = (Inr (Some (job, a)), s')"
  obtains t s1 c where "t \<in> set ts" "db_ok s1" "evolves s s1"
    "find_compatible_candidate (ct_search_time t) fp (ct_before t s1) = Some c"
    "claim_candidate E (ct_claim_time t) (ct_attempt t) (ct_run t) w fp lease c (ct_between t (ct_before t s1))
       = (Inr (Some (job, a)), s')"
proof -
  have "\<exists>t s1 c. t \<in> set ts \<and> db_ok s1 \<and> evolves s s1 \<and>
    find_compatible_candidate (ct_search_time t) fp (ct_before t s1) = Some c \<and>
    claim_candidate E (ct_claim_time t) (ct_attempt t) (ct_run t) w fp lease c (ct_between t (ct_before t s1))
       = (Inr (Some (job, a)), s')"
    using assms
  proof (induction ts arbitrary: s)
    case (Cons t ts)
    have fair: "fair_turn t" and rest: "\<forall>t\<in>set ts. fair_turn t" using Cons.prems(2) by simp_all
    show ?case
    proof (cases "find_compatible_candidate (ct_search_time t) fp (ct_before t s)")
      case None
      with Cons.prems(3) show ?thesis by (simp add: Let_def)
    next
      case (Some c)
      define r where "r = claim_candidate E (ct_claim_time t) (ct_attempt t) (ct_run t) w fp lease c (ct_between t (ct_before t s))"
      have leg: "legal s (snd r)"
        unfolding r_def by (rule claim_turn_legal(2) [OF fair Cons.prems(1) Some])
      from Cons.prems(3) Some have run: "(case r of (Inl e, s') \<Rightarrow> (Inl e, s')
          | (Inr (Some claimed), s') \<Rightarrow> (Inr (Some claimed), s')
          | (Inr None, s') \<Rightarrow> claim_loop ts E w fp lease s') = (Inr (Some (job, a)), s')"
        by (simp add: Let_def r_def)
      show ?thesis
      proof (cases "fst r = Inr None")
        case True
        with run have "claim_loop ts E w fp lease (snd r) = (Inr (Some (job, a)), s')" by (cases r) simp
        from Cons.IH [OF _ rest this] leg Cons.prems(1) obtain t' s1 c' where
          *: "t' \<in> set ts" "db_ok s1" "evolves (snd r) s1"
            "find_compatible_candidate (ct_search_time t') fp (ct_before t' s1) = Some c'"
            "claim_candidate E (ct_claim_time t') (ct_attempt t') (ct_run t') w fp lease c' (ct_between t' (ct_before t' s1))
               = (Inr (Some (job, a)), s')"
          by (auto simp: legal_def)
        have "evolves s s1" using leg Cons.prems(1) *(3) by (meson evolves_trans legal_def)
        with * show ?thesis by (intro exI [of _ t'] exI [of _ s1] exI [of _ c']) simp
      next
        case False
        with run have "r = (Inr (Some (job, a)), s')"
          by (cases r) (auto split: sum.splits option.splits)
        with Some Cons.prems(1) show ?thesis
          by (intro exI [of _ t] exI [of _ s] exI [of _ c]) (simp add: r_def)
      qed
    qed
  qed simp
  with that show thesis by blast
qed

text \<open>Another job of the session that runs, or is older and still to be worked on.\<close>

definition ahead_in_session :: "job \<Rightarrow> job \<Rightarrow> bool" where
  "ahead_in_session job j \<longleftrightarrow> j_session_id j = j_session_id job \<and> j_id j \<noteq> j_id job \<and>
     (j_status j = JobRunning
      \<or> j_status j \<in> {JobQueued, JobRetryWait, JobWaitingApproval, JobWaitingInput}
        \<and> (j_created_at j, j_id j) < (j_created_at job, j_id job))"

lemma found_blocked:
  assumes "db_ok s" "find_compatible_candidate now fp s = Some c" "j_origin c = ''interactive''"
    "j \<in> set (jobs s)"
  shows "\<not> ahead_in_session (claim_edit now' c) j"
proof -
  have "\<not> blocks j c"
    using found_member(2) [OF assms(1,2)] assms(3,4) by (auto simp: claimable_def list_ex_iff)
  then show ?thesis by (auto simp: ahead_in_session_def blocks_def)
qed

text \<open>
  C1. Interactive work of one session is serialised up to the window between the search and the
  claim. The search and the claim are two transactions, and other connections may commit legal
  changes before each of them. When \<open>claim_next_job\<close> hands out an interactive job, one of its
  passes found this job, its row was still the same at the claim, and only this row changed then.
  A job of the same session that runs at the end, or is older and queued, waiting for a retry, an
  approval or an input, was written by another connection between the search and the claim of
  that pass. If nobody commits in these windows, there is no such job.
\<close>

theorem claim_next_job_serializes_session:
  assumes "db_ok s" "\<forall>k. fair_turn (turns k)"
    "claim_next_job E turns w fp lease s = (Inr (Some (job, a)), s')" "j_origin job = ''interactive''"
  shows "(\<exists>k s0 c. k < CLAIM_MAX_CAS_RETRIES \<and> db_ok s0 \<and> evolves s s0 \<and>
      (let searched = ct_before (turns k) s0; found = ct_between (turns k) searched in
         find_compatible_candidate (ct_search_time (turns k)) fp searched = Some c \<and>
         job_by (j_id c) found = Some c \<and> job = claim_edit (ct_claim_time (turns k)) c \<and>
         jobs s' = upd_where (\<lambda>j. j = c) (\<lambda>_. job) (jobs found) \<and>
         (\<forall>j\<in>set (jobs s'). ahead_in_session job j \<longrightarrow> j \<in> set (jobs found) \<and> j \<notin> set (jobs searched))))
    \<and> ((\<forall>k. ct_between (turns k) = id) \<longrightarrow> (\<forall>j\<in>set (jobs s'). \<not> ahead_in_session job j))"
proof -
  from assms(3) obtain w' where
    loop: "claim_loop (map turns [0..<CLAIM_MAX_CAS_RETRIES]) E w' fp lease s = (Inr (Some (job, a)), s')"
    by (auto simp: claim_next_job_def split: sum.splits)
  have "\<forall>t\<in>set (map turns [0..<CLAIM_MAX_CAS_RETRIES]). fair_turn t" using assms(2) by simp
  then obtain t s0 c where turn: "t \<in> set (map turns [0..<CLAIM_MAX_CAS_RETRIES])"
    and s0: "db_ok s0" "evolves s s0"
    and at_t: "find_compatible_candidate (ct_search_time t) fp (ct_before t s0) = Some c"
      "claim_candidate E (ct_claim_time t) (ct_attempt t) (ct_run t) w' fp lease c (ct_between t (ct_before t s0))
        = (Inr (Some (job, a)), s')"
    using loop by (rule claim_loop_SomeE [OF assms(1)])
  from turn obtain k where k: "k < CLAIM_MAX_CAS_RETRIES" and t: "t = turns k" by auto
  note find = at_t(1) [unfolded t] and claim = at_t(2) [unfolded t]
  define searched where "searched = ct_before (turns k) s0"
  define found where "found = ct_between (turns k) searched"
  have ok: "db_ok searched" "db_ok found" "evolves searched found"
    using assms(2) s0(1) by (simp_all add: legal_def searched_def found_def)
  note find = find [folded searched_def] and claim = claim [folded searched_def, folded found_def]
  have read: "read_before c found"
    by (rule read_before_evolves [OF ok(3,2) found_member(1) [OF ok(1) find]])
  note commits = claim_candidate_commits [OF ok(2) read claim]
  have window: "j \<in> set (jobs found) \<and> j \<notin> set (jobs searched)"
    if j: "j \<in> set (jobs s')" "ahead_in_session job j" for j
  proof
    have "j \<in> set (upd_where (\<lambda>j. j = c) (\<lambda>_. claim_edit (ct_claim_time (turns k)) c) (jobs found))"
      using j(1) commits(4) by simp
    then show "j \<in> set (jobs found)"
      by (rule upd_whereE) (use commits(3) j(2) in \<open>auto simp: ahead_in_session_def\<close>)
    show "j \<notin> set (jobs searched)"
      using found_blocked [OF ok(1) find] j(2) assms(4) commits(3) by auto
  qed
  have "job_by (j_id c) found = Some c"
    by (rule row_by_distinct [OF db_ok_jobs [OF ok(2)] commits(1)])
  then have "\<exists>k s0 c. k < CLAIM_MAX_CAS_RETRIES \<and> db_ok s0 \<and> evolves s s0 \<and>
      (let searched = ct_before (turns k) s0; found = ct_between (turns k) searched in
         find_compatible_candidate (ct_search_time (turns k)) fp searched = Some c \<and>
         job_by (j_id c) found = Some c \<and> job = claim_edit (ct_claim_time (turns k)) c \<and>
         jobs s' = upd_where (\<lambda>j. j = c) (\<lambda>_. job) (jobs found) \<and>
         (\<forall>j\<in>set (jobs s'). ahead_in_session job j \<longrightarrow> j \<in> set (jobs found) \<and> j \<notin> set (jobs searched)))"
    unfolding Let_def using k s0 find commits(3,4) window
    by (intro exI [of _ k] exI [of _ s0] exI [of _ c]) (simp add: searched_def found_def)
  moreover have "found = searched" if "\<forall>k. ct_between (turns k) = id" using that by (simp add: found_def)
  ultimately show ?thesis using window by auto
qed

definition session_store :: store where
  "session_store = empty_store\<lparr>jobs := [queued_job\<lparr>j_origin := ''interactive''\<rparr>,
     queued_job\<lparr>j_id := ''job_2'', j_idempotency_key_hash := ''#l'', j_origin := ''interactive'',
       j_initial_run_id := ''run_2'', j_created_at := 11\<rparr>]\<rparr>"

definition race_fingerprint :: json where
  "race_fingerprint = JObj [(''harnesses'', JObj [])]"

lemma lone_turn_simps [simp]:
  "ct_search_time (lone_turn now au ru) = now" "ct_claim_time (lone_turn now au ru) = now"
  "ct_attempt (lone_turn now au ru) = au" "ct_run (lone_turn now au ru) = ru"
  "ct_before (lone_turn now au ru) = id" "ct_between (lone_turn now au ru) = id"
  by (simp_all add: lone_turn_def)

text \<open>The older of two queued jobs of a session is claimed; the other is not ahead of it.\<close>

theorem claim_next_job_serializes_session_witness:
  "\<exists>job a s'. claim_next_job sample_env (\<lambda>_. lone_turn 20 ''1'' ''9'') ''w'' race_fingerprint 0 session_store
       = (Inr (Some (job, a)), s')
     \<and> map (\<lambda>j. (j_id j, j_session_id j, j_status j)) (jobs s') = [(''job_1'', ''s'', JobRunning), (''job_2'', ''s'', JobQueued)]
     \<and> list_all (\<lambda>j. \<not> ahead_in_session job j) (jobs s')"
proof -
  let ?r = "claim_next_job sample_env (\<lambda>_. lone_turn 20 ''1'' ''9'') ''w'' race_fingerprint 0 session_store"
  let ?c = "queued_job\<lparr>j_origin := ''interactive''\<rparr>"
  have run: "?r = (Inr (Some (claim_edit 20 ?c, claimed_attempt sample_env 20 ''1'' ''9'' ''w'' race_fingerprint 0 ?c 1)), snd ?r)"
    by code_simp
  have ok: "db_ok session_store" by code_simp
  have origin: "j_origin (claim_edit 20 ?c) = ''interactive''" by code_simp
  have rows: "map (\<lambda>j. (j_id j, j_session_id j, j_status j)) (jobs (snd ?r))
    = [(''job_1'', ''s'', JobRunning), (''job_2'', ''s'', JobQueued)]" by code_simp
  from claim_next_job_serializes_session [OF ok _ run origin]
  have "list_all (\<lambda>j. \<not> ahead_in_session (claim_edit 20 ?c) j) (jobs (snd ?r))"
    by (simp add: list_all_iff)
  with run rows show ?thesis
    by (intro exI [of _ "claim_edit 20 ?c"] exI [of _ "claimed_attempt sample_env 20 ''1'' ''9'' ''w'' race_fingerprint 0 ?c 1"]
        exI [of _ "snd ?r"]) simp
qed

text \<open>A candidate whose row is unchanged, with attempts left and fresh ids, is claimed.\<close>

lemma claim_candidate_succeeds:
  assumes a_def: "a = claimed_attempt E now au ru w fp lease c (max_attempt_number (j_id c) s + 1)"
    and ok: "db_ok s" and row: "job_by (j_id c) s = Some c" and t: "claim_target now c c"
    and left: "max_attempt_number (j_id c) s < j_max_attempts c"
    and fresh: "a_id a \<notin> a_id ` set (attempts s)" "a_run_id a \<notin> a_run_id ` set (attempts s)"
  shows "\<exists>s'. claim_candidate E now au ru w fp lease c s = (Inr (Some (claim_edit now c, a)), s')
    \<and> jobs s' = upd_where (claim_target now c) (claim_edit now) (jobs s) \<and> attempts s' = attempts s @ [a]"
proof -
  let ?s1 = "update_jobs (claim_target now c) (claim_edit now) s"
  have mem: "c \<in> set (jobs s)" by (rule row_by_SomeD [OF row])
  have ch: "changes (claim_target now c) (jobs s) = 1"
    using changes_unique [OF db_ok_jobs [OF ok], of "j_id c"
      "\<lambda>j. j_status j = JobQueued \<and> j_version j = j_version c \<and> j_cancel_requested_at j = None
        \<and> (case j_available_at j of None \<Rightarrow> True | Some t \<Rightarrow> t \<le> now)"] t row by simp
  have n: "max_attempt_number i ?s1 = max_attempt_number i s" for i by (simp add: max_attempt_number_def)
  have "attempt_key a \<notin> attempt_key ` set (attempts s)"
  proof
    assume "attempt_key a \<in> attempt_key ` set (attempts s)"
    then obtain b where "b \<in> set (attempts s)" "a_job_id b = j_id c" "a_number b = max_attempt_number (j_id c) s + 1"
      by (auto simp: attempt_key_def a_def)
    with max_attempt_number_ge [of b s "j_id c"] show False by simp
  qed
  moreover have "j_id ` set (jobs ?s1) = j_id ` set (jobs s)"
    unfolding update_jobs_jobs by (rule keys_upd_where) simp
  then have "a_job_id a \<in> j_id ` set (jobs ?s1)" using mem by (simp add: a_def del: update_jobs_jobs)
  ultimately have "insert_attempt a ?s1 = Inr (bump 1 (?s1\<lparr>attempts := attempts s @ [a]\<rparr>))"
    using fresh max_attempt_number_nonneg [of "j_id c" s]
    by (simp add: insert_attempt_def del: update_jobs_jobs) (simp add: a_def)
  moreover have "row_by j_id (j_id c) (jobs ?s1) = Some (claim_edit now c)"
    unfolding update_jobs_jobs by (rule row_by_updated [OF row]) (use t in simp_all)
  ultimately have "claim_candidate E now au ru w fp lease c s
      = (Inr (Some (claim_edit now c, a)), bump 1 (?s1\<lparr>attempts := attempts s @ [a]\<rparr>))"
    using ch left
    by (simp add: claim_candidate_def claim_candidate_tx_def Let_def n a_def [symmetric] del: update_jobs_jobs)
  then show ?thesis by simp
qed

text \<open>Two interactive jobs of one session: an older one that has failed and a queued one.\<close>

definition race_store :: store where
  "race_store = empty_store\<lparr>
     jobs := [sample_job\<lparr>j_origin := ''interactive'', j_status := JobFailed, j_terminal_at := Some 15\<rparr>,
       queued_job\<lparr>j_id := ''job_2'', j_idempotency_key_hash := ''#l'', j_origin := ''interactive'',
         j_initial_run_id := ''run_2'', j_created_at := 11\<rparr>],
     attempts := [sample_attempt\<lparr>a_status := AttemptFailed, a_finished_at := Some 15\<rparr>]\<rparr>"

text \<open>Between the search and the claim the failed job is queued again by an explicit retry and claimed.\<close>

definition race_between :: store where
  "race_between = snd (claim_next_job sample_env (\<lambda>_. lone_turn 20 ''5'' ''5'') ''v'' race_fingerprint 0
     (snd (retry_safe_job 20 ''job_1'' race_store)))"

definition race_candidate :: job where
  "race_candidate = queued_job\<lparr>j_id := ''job_2'', j_idempotency_key_hash := ''#l'', j_origin := ''interactive'',
         j_initial_run_id := ''run_2'', j_created_at := 11\<rparr>"

text \<open>
  C25. The claim checks the candidate's own row only, not the other jobs of its session. Let a search
  have found an interactive job, and let the database have evolved to a state in which the row is
  still the same and another job of the session runs. With attempts left and fresh ids the claim
  commits in that state, and both jobs of the session run.
\<close>

theorem stale_candidate_overlaps_session:
  assumes "db_ok s0" "find_compatible_candidate now0 fp s0 = Some c" "j_origin c = ''interactive''"
    "evolves s0 s" "db_ok s" "job_by (j_id c) s = Some c" "now0 \<le> now"
    "k \<in> set (jobs s)" "j_session_id k = j_session_id c" "j_id k \<noteq> j_id c" "j_status k = JobRunning"
    "max_attempt_number (j_id c) s < j_max_attempts c"
    "new_id ''attempt'' au \<notin> a_id ` set (attempts s)"
    "a_run_id (claimed_attempt E now au ru w fp lease c (max_attempt_number (j_id c) s + 1))
       \<notin> a_run_id ` set (attempts s)"
  shows "\<exists>job a s'. claim_candidate E now au ru w fp lease c s = (Inr (Some (job, a)), s') \<and>
    job \<in> set (jobs s') \<and> k \<in> set (jobs s') \<and> j_id job = j_id c \<and> j_status job = JobRunning \<and>
    ahead_in_session job k"
proof -
  have t: "claim_target now c c"
    using found_member(2) [OF assms(1,2)] assms(7) by (auto simp: claimable_def split: option.splits)
  from claim_candidate_succeeds [OF refl assms(5,6) t assms(12), of E au ru w fp lease] assms(13,14)
  obtain a s' where run: "claim_candidate E now au ru w fp lease c s = (Inr (Some (claim_edit now c, a)), s')"
    and js: "jobs s' = upd_where (claim_target now c) (claim_edit now) (jobs s)" by auto
  have "c \<in> set (jobs s)" by (rule row_by_SomeD [OF assms(6)])
  with t assms(8,10) have "claim_edit now c \<in> set (jobs s')" "k \<in> set (jobs s')"
    unfolding js by (auto simp: set_upd_where)
  moreover have "ahead_in_session (claim_edit now c) k" using assms(9-11) by (simp add: ahead_in_session_def)
  ultimately show ?thesis
    using run by (intro exI [of _ "claim_edit now c"] exI [of _ a] exI [of _ s']) simp
qed

theorem stale_candidate_overlaps_session_witness:
  "\<exists>job a s' k. claim_candidate sample_env 20 ''6'' ''6'' ''w'' race_fingerprint 0 race_candidate race_between
      = (Inr (Some (job, a)), s') \<and> job \<in> set (jobs s') \<and> k \<in> set (jobs s') \<and> j_id job = ''job_2'' \<and>
    j_status job = JobRunning \<and> j_id k = ''job_1'' \<and> ahead_in_session job k"
proof -
  have ok: "db_ok race_store" by code_simp
  have retried: "legal race_store (snd (retry_safe_job 20 ''job_1'' race_store))" by (rule retry_safe_job.op_legal)
  have "legal (snd (retry_safe_job 20 ''job_1'' race_store)) race_between"
    unfolding race_between_def by (rule claim_next_job_legal) simp
  with retried have "legal race_store race_between" by (rule legal_trans)
  then have later: "evolves race_store race_between" "db_ok race_between" using ok by (simp_all add: legal_def)
  have "list_ex (\<lambda>k. j_id k = ''job_1'' \<and> j_session_id k = ''s'' \<and> j_status k = JobRunning) (jobs race_between)"
    by code_simp
  then obtain k where k: "k \<in> set (jobs race_between)" "j_id k = ''job_1''" "j_session_id k = ''s''" "j_status k = JobRunning"
    by (auto simp: list_ex_iff)
  have c: "j_session_id race_candidate = ''s''" "j_id race_candidate = ''job_2''" by code_simp+
  have found: "find_compatible_candidate 20 race_fingerprint race_store = Some race_candidate" by code_simp
  have "j_origin race_candidate = ''interactive''"
    "job_by (j_id race_candidate) race_between = Some race_candidate"
    "max_attempt_number (j_id race_candidate) race_between < j_max_attempts race_candidate"
    "new_id ''attempt'' ''6'' \<notin> a_id ` set (attempts race_between)"
    "a_run_id (claimed_attempt sample_env 20 ''6'' ''6'' ''w'' race_fingerprint 0 race_candidate
       (max_attempt_number (j_id race_candidate) race_between + 1)) \<notin> a_run_id ` set (attempts race_between)"
    by code_simp+
  note facts = this
  from stale_candidate_overlaps_session [OF ok found facts(1) later facts(2) order_refl k(1) _ _ k(4) facts(3-5)]
  obtain job a s' where "claim_candidate sample_env 20 ''6'' ''6'' ''w'' race_fingerprint 0 race_candidate race_between
      = (Inr (Some (job, a)), s')" "job \<in> set (jobs s')" "k \<in> set (jobs s')" "j_id job = ''job_2''"
    "j_status job = JobRunning" "ahead_in_session job k"
    using k(2,3) c by auto
  with k(2) show ?thesis by blast
qed

text \<open>A candidate whose attempts are used up.\<close>

lemma exhaust_edit_simps [simp]:
  "j_id (exhaust_edit now j) = j_id j" "j_status (exhaust_edit now j) = JobFailed"
  "j_terminal_at (exhaust_edit now j) = Some now" "j_version (exhaust_edit now j) = j_version j"
  by (simp_all add: exhaust_edit_def)

text \<open>
  C26. A claim that finds the attempts used up fails the job without telling the run history. The
  row is terminal afterwards, with one version step for two updates, and unlike every other way
  to settle a job no terminal entry is added to the outbox.
\<close>

theorem exhausted_claim_enqueues_nothing:
  assumes "db_ok s" "c \<in> set (jobs s)" "claim_target now c c"
    "j_max_attempts c \<le> max_attempt_number (j_id c) s"
  shows "\<exists>s' j'. claim_candidate E now au ru w fp lease c s = (Inr None, s') \<and>
    job_by (j_id c) s' = Some j' \<and> j_status j' = JobFailed \<and> j_terminal_at j' = Some now \<and>
    j_version j' = j_version c + 1 \<and> outbox s' = outbox s \<and> attempts s' = attempts s"
proof -
  let ?s1 = "update_jobs (claim_target now c) (claim_edit now) s"
  let ?s' = "update_jobs (exhaust_target c) (exhaust_edit now) ?s1"
  have c: "job_by (j_id c) s = Some c" by (rule row_by_distinct [OF db_ok_jobs [OF assms(1)] assms(2)])
  then have ch: "changes (claim_target now c) (jobs s) = 1"
    using changes_unique [OF db_ok_jobs [OF assms(1)], of "j_id c"
      "\<lambda>j. j_status j = JobQueued \<and> j_version j = j_version c \<and> j_cancel_requested_at j = None
        \<and> (case j_available_at j of None \<Rightarrow> True | Some t \<Rightarrow> t \<le> now)"] assms(3) by simp
  have n: "max_attempt_number i ?s1 = max_attempt_number i s" for i by (simp add: max_attempt_number_def)
  have "claim_candidate E now au ru w fp lease c s = (Inr None, ?s')"
    using ch assms(4) by (simp add: claim_candidate_def claim_candidate_tx_def Let_def n del: update_jobs_jobs)
  moreover have s1: "row_by j_id (j_id c) (jobs ?s1) = Some (claim_edit now c)"
    unfolding update_jobs_jobs by (rule row_by_updated [OF c]) (use assms(3) in simp_all)
  have "row_by j_id (j_id c) (jobs ?s') = Some (exhaust_edit now (claim_edit now c))"
    unfolding update_jobs_jobs [of "exhaust_target c"] by (rule row_by_updated [OF s1]) simp_all
  ultimately show ?thesis by (intro exI conjI) (assumption, assumption, simp_all)
qed

theorem exhausted_claim_enqueues_nothing_witness:
  "\<exists>s' j'. claim_candidate sample_env 20 ''5'' ''5'' ''w'' (JObj []) 0 (queued_job\<lparr>j_max_attempts := 1\<rparr>)
      (running_store\<lparr>jobs := [queued_job\<lparr>j_max_attempts := 1\<rparr>]\<rparr>) = (Inr None, s') \<and>
    job_by ''job_1'' s' = Some j' \<and> j_status j' = JobFailed \<and> outbox s' = []"
proof -
  let ?c = "queued_job\<lparr>j_max_attempts := 1\<rparr>" and ?s = "running_store\<lparr>jobs := [queued_job\<lparr>j_max_attempts := 1\<rparr>]\<rparr>"
  have "db_ok ?s" "?c \<in> set (jobs ?s)" "j_max_attempts ?c \<le> max_attempt_number (j_id ?c) ?s"
    "claim_target 20 ?c ?c" by code_simp+
  from exhausted_claim_enqueues_nothing [OF this(1,2,4,3), of sample_env "''5''" "''5''" "''w''" "JObj []" 0]
  obtain s' j' where r: "claim_candidate sample_env 20 ''5'' ''5'' ''w'' (JObj []) 0 ?c ?s = (Inr None, s')"
    "job_by (j_id ?c) s' = Some j'" "j_status j' = JobFailed" "outbox s' = outbox ?s"
    by blast
  have "j_id ?c = ''job_1''" "outbox ?s = []" by code_simp+
  with r show ?thesis by (intro exI [of _ s'] exI [of _ j']) simp
qed

text \<open>
  C17. Claiming makes progress. If the search of the first pass finds a candidate whose row the
  other connections leave alone until the claim, with attempts left and new ids drawn, the clock
  does not run backwards and they commit only legal changes, \<open>claim_next_job\<close> hands out this job; it
  does not spin or come back empty.
\<close>

theorem claim_next_job_progress:
  assumes "db_ok s" "required_text w ''worker_id'' = Inr w'"
    "t = turns 0" "fair_turn t" "searched = ct_before t s" "found = ct_between t searched"
    "find_compatible_candidate (ct_search_time t) fp searched = Some c"
    "job_by (j_id c) found = Some c" "ct_search_time t \<le> ct_claim_time t"
    "max_attempt_number (j_id c) found < j_max_attempts c"
    "new_id ''attempt'' (ct_attempt t) \<notin> a_id ` set (attempts found)"
    "a_run_id (claimed_attempt E (ct_claim_time t) (ct_attempt t) (ct_run t) w' fp lease c
       (max_attempt_number (j_id c) found + 1)) \<notin> a_run_id ` set (attempts found)"
  shows "\<exists>a s'. claim_next_job E turns w fp lease s = (Inr (Some (claim_edit (ct_claim_time t) c, a)), s')
    \<and> a_job_id a = j_id c \<and> a_lease_owner a = Some w'"
proof -
  have ok: "db_ok searched" "db_ok found" using assms(1,4-6) by (simp_all add: legal_def)
  have target: "claim_target (ct_claim_time t) c c"
    using found_member(2) [OF ok(1) assms(7)] assms(9) by (auto simp: claimable_def split: option.splits)
  from claim_candidate_succeeds [OF refl ok(2) assms(8) target assms(10), of E "ct_attempt t" "ct_run t" w' fp lease] assms(11,12)
  obtain s' where run: "claim_candidate E (ct_claim_time t) (ct_attempt t) (ct_run t) w' fp lease c found
      = (Inr (Some (claim_edit (ct_claim_time t) c, claimed_attempt E (ct_claim_time t) (ct_attempt t) (ct_run t) w' fp lease c
          (max_attempt_number (j_id c) found + 1))), s')" by auto
  have turns: "map turns [0..<CLAIM_MAX_CAS_RETRIES] = t # map turns [1..<CLAIM_MAX_CAS_RETRIES]"
    by (simp add: CLAIM_MAX_CAS_RETRIES_def upt_conv_Cons assms(3))
  show ?thesis
    unfolding claim_next_job_def turns
    by (simp add: assms(2,7) Let_def run assms(5) [symmetric] assms(6) [symmetric])
qed

text \<open>Another connection registers a cancel of an unrelated job between the search and the claim.\<close>

definition busy_turn :: claim_turn where
  "busy_turn = (lone_turn 20 ''1'' ''9'')\<lparr>ct_claim_time := 21, ct_between := (\<lambda>s. snd (request_cancel 20 ''job_2'' s))\<rparr>"

theorem claim_next_job_progress_witness:
  "\<exists>a s'. claim_next_job sample_env (\<lambda>_. busy_turn) ''w'' race_fingerprint 0 session_store
     = (Inr (Some (claim_edit 21 (queued_job\<lparr>j_origin := ''interactive''\<rparr>), a)), s') \<and> a_lease_owner a = Some ''w''"
proof -
  let ?c = "queued_job\<lparr>j_origin := ''interactive''\<rparr>"
  let ?found = "ct_between busy_turn (ct_before busy_turn session_store)"
  have ok: "db_ok session_store" by code_simp
  have fair: "fair_turn busy_turn" by (simp add: busy_turn_def request_cancel.op_legal)
  have "required_text ''w'' ''worker_id'' = Inr ''w''"
    "find_compatible_candidate (ct_search_time busy_turn) race_fingerprint (ct_before busy_turn session_store) = Some ?c"
    "job_by (j_id ?c) ?found = Some ?c" "ct_search_time busy_turn \<le> ct_claim_time busy_turn"
    "max_attempt_number (j_id ?c) ?found < j_max_attempts ?c"
    "new_id ''attempt'' (ct_attempt busy_turn) \<notin> a_id ` set (attempts ?found)"
    "a_run_id (claimed_attempt sample_env (ct_claim_time busy_turn) (ct_attempt busy_turn) (ct_run busy_turn) ''w''
       race_fingerprint 0 ?c (max_attempt_number (j_id ?c) ?found + 1)) \<notin> a_run_id ` set (attempts ?found)"
    by code_simp+
  note facts = this
  from claim_next_job_progress [where turns = "\<lambda>_. busy_turn", OF ok facts(1) refl fair refl refl facts(2-7)]
  have "\<exists>a s'. claim_next_job sample_env (\<lambda>_. busy_turn) ''w'' race_fingerprint 0 session_store
     = (Inr (Some (claim_edit (ct_claim_time busy_turn) ?c, a)), s') \<and> a_lease_owner a = Some ''w''" by blast
  moreover have "ct_claim_time busy_turn = 21" by (simp add: busy_turn_def)
  ultimately show ?thesis by simp
qed

end
