(* ===== verification/Workers.thy ===== *)
theory Workers
  imports Claims
begin

text \<open>
  Worker lifecycle and maintenance: the worker rows, combined lease and liveness heartbeats, the
  requeueing of due retries and the bound on an idle wait of \<open>runtime/workers/repository.py\<close>, the
  status projection of \<open>runtime/workers/status.py\<close>, and the maintenance cadences of
  \<open>runtime/workers/scheduler.py\<close>. Clock readings are arguments; a duration in seconds of the
  code is one in microseconds here.
\<close>

section \<open>Worker rows\<close>

definition requeue_due :: "time \<Rightarrow> job \<Rightarrow> bool" where
  "requeue_due now j = (j_status j = JobRetryWait
     \<and> (case j_available_at j of None \<Rightarrow> False | Some t \<Rightarrow> t \<le> now) \<and> j_cancel_requested_at j = None)"

definition requeue_edit :: "time \<Rightarrow> job \<Rightarrow> job" where
  "requeue_edit now j = j\<lparr>j_status := JobQueued, j_updated_at := now, j_version := j_version j + 1\<rparr>"

definition requeue_due_jobs :: "time \<Rightarrow> nat op" where
  "requeue_due_jobs now = transaction (\<lambda>s.
     Inr (changes (requeue_due now) (jobs s), update_jobs (requeue_due now) (requeue_edit now) s))"

text \<open>The deadlines after \<open>now\<close> that end an idle wait.\<close>

definition maintenance_deadlines :: "time \<Rightarrow> store \<Rightarrow> time list" where
  "maintenance_deadlines now s = filter (\<lambda>t. now < t)
     (List.map_filter j_available_at
        (filter (\<lambda>j. j_status j \<in> {JobQueued, JobRetryWait} \<and> j_cancel_requested_at j = None) (jobs s))
      @ List.map_filter a_leased_until
        (filter (\<lambda>a. a_status a \<in> {AttemptClaimed, AttemptStarting, AttemptRunning}) (attempts s))
      @ List.map_filter s_next_run_at
        (filter (\<lambda>x. s_enabled x \<and> s_status x = ''active'') (schedules s)))"

definition next_worker_maintenance_delay :: "time \<Rightarrow> int \<Rightarrow> store \<Rightarrow> int" where
  "next_worker_maintenance_delay now maximum_seconds s =
     (let maximum = max maximum_seconds 0; deadlines = maintenance_deadlines now s
      in if deadlines = [] then maximum
         else min maximum (max (Min (set deadlines) - now) 0))"

definition register_edit :: "env \<Rightarrow> time \<Rightarrow> int \<Rightarrow> string \<Rightarrow> json \<Rightarrow> worker \<Rightarrow> worker" where
  "register_edit E now process_id hostname fingerprint w = w\<lparr>w_process_id := process_id,
     w_hostname := hostname, w_status := ''online'', w_heartbeat_at := now, w_stopped_at := None,
     w_fingerprint := redact_for_storage E fingerprint\<rparr>"

definition new_worker :: "env \<Rightarrow> time \<Rightarrow> string \<Rightarrow> int \<Rightarrow> string \<Rightarrow> json \<Rightarrow> worker" where
  "new_worker E now worker_id process_id hostname fingerprint = \<lparr>w_id = worker_id,
     w_process_id = process_id, w_hostname = hostname, w_status = ''online'', w_started_at = now,
     w_heartbeat_at = now, w_stopped_at = None, w_fingerprint = redact_for_storage E fingerprint\<rparr>"

definition register_worker :: "env \<Rightarrow> time \<Rightarrow> string \<Rightarrow> int \<Rightarrow> string \<Rightarrow> json \<Rightarrow> worker op" where
  "register_worker E now worker_id process_id hostname fingerprint = transaction (\<lambda>s.
     let s' = (if worker_id \<in> w_id ` set (workers s)
               then update_workers True (\<lambda>w. w_id w = worker_id)
                      (register_edit E now process_id hostname fingerprint) s
               else insert_worker (new_worker E now worker_id process_id hostname fingerprint) s)
     in and_then (fetch (KeyError worker_id) (row_by w_id worker_id (workers s'))) (\<lambda>w. Inr (w, s')))"

text \<open>The UPDATE names no column of the revision trigger (the status is not in its list).\<close>

definition online_edit :: "time \<Rightarrow> worker \<Rightarrow> worker" where
  "online_edit now w = w\<lparr>w_heartbeat_at := now, w_status := ''online''\<rparr>"

definition heartbeat_worker :: "time \<Rightarrow> string \<Rightarrow> unit op" where
  "heartbeat_worker now worker_id = transaction (\<lambda>s.
     Inr ((), update_workers False (\<lambda>w. w_id w = worker_id) (online_edit now) s))"

text \<open>Stored instants are well formed, so the parse failures of the code do not arise.\<close>

definition heartbeat_is_fresh :: "attempt \<Rightarrow> time \<Rightarrow> int \<Rightarrow> bool" where
  "heartbeat_is_fresh a now minimum_interval =
     (if minimum_interval \<le> 0 then False
      else case (a_heartbeat_at a, a_leased_until a) of
        (Some heartbeat_at, Some leased_until) \<Rightarrow>
          max (now - heartbeat_at) 0 < minimum_interval \<and> now < leased_until
      | _ \<Rightarrow> False)"

definition heartbeat_worker_attempt_tx ::
    "time \<Rightarrow> string \<Rightarrow> string \<Rightarrow> int \<Rightarrow> int \<Rightarrow> store \<Rightarrow> (attempt \<times> store) result" where
  "heartbeat_worker_attempt_tx now attempt_id worker_id lease_seconds minimum_interval_seconds s =
     and_then (fetch (AttemptNotFoundError attempt_id) (attempt_by attempt_id s)) (\<lambda>current.
     and_then (guard (a_lease_owner current = Some worker_id) (ConcurrentUpdateError attempt_id)) (\<lambda>_.
     and_then (guard (\<not> terminal_attempt (a_status current)) (InvalidStateTransitionError attempt_id)) (\<lambda>_.
       if heartbeat_is_fresh current now (max minimum_interval_seconds 0) then Inr (current, s)
       else
         let P = (\<lambda>a. a_id a = attempt_id \<and> (a_lease_owner a = Some worker_id
               \<and> a_version a = a_version current
               \<and> a_status a \<notin> {AttemptSucceeded, AttemptFailed, AttemptCanceled, AttemptInterrupted}));
             s1 = update_attempts P (lease_edit now (now + max lease_seconds second)) s
         in and_then (guard (changes P (attempts s) = 1) (ConcurrentUpdateError attempt_id)) (\<lambda>_.
            let s2 = update_workers False (\<lambda>w. w_id w = worker_id) (online_edit now) s1
            in and_then (fetch (AttemptNotFoundError attempt_id) (attempt_by attempt_id s2)) (\<lambda>updated.
                 Inr (updated, s2))))))"

definition heartbeat_worker_attempt :: "time \<Rightarrow> string \<Rightarrow> string \<Rightarrow> int \<Rightarrow> int \<Rightarrow> attempt op" where
  "heartbeat_worker_attempt now attempt_id worker_id lease_seconds minimum_interval_seconds =
     transaction (heartbeat_worker_attempt_tx now attempt_id worker_id lease_seconds minimum_interval_seconds)"

definition stop_worker :: "time \<Rightarrow> string \<Rightarrow> unit op" where
  "stop_worker now worker_id = transaction (\<lambda>s.
     Inr ((), update_workers True (\<lambda>w. w_id w = worker_id)
       (\<lambda>w. w\<lparr>w_status := ''stopped'', w_stopped_at := Some now, w_heartbeat_at := now\<rparr>) s))"

definition list_workers :: "store \<Rightarrow> worker list" where
  "list_workers s = order_by (\<lambda>w. (- w_heartbeat_at w, w_id w)) (workers s)"

definition effective_status :: "time \<Rightarrow> int \<Rightarrow> worker \<Rightarrow> string" where
  "effective_status now stale_after w =
     (if w_status w = ''online'' \<and> stale_after < now - w_heartbeat_at w then ''offline'' else w_status w)"

definition worker_status :: "time \<Rightarrow> int \<Rightarrow> store \<Rightarrow> (worker \<times> string) list \<times> nat" where
  "worker_status now stale_after s =
     (let ws = map (\<lambda>w. (w, effective_status now stale_after w)) (list_workers s)
      in (ws, length (filter (\<lambda>x. snd x = ''online'') ws)))"

section \<open>Maintenance cadences\<close>

definition MAINTENANCE_TASKS :: "string list" where
  "MAINTENANCE_TASKS = [''heartbeat'', ''schedules'', ''retries'', ''recovery'', ''reconciliation'']"

text \<open>\<open>WorkerMaintenanceScheduler\<close>: the cadence and the next deadline of each task.\<close>

record scheduler =
  sc_cadences :: "(string \<times> int) list"
  sc_next_due :: "(string \<times> time) list"

definition tenth :: int where
  "tenth = 100000"

definition new_scheduler :: "time \<Rightarrow> int \<Rightarrow> int \<Rightarrow> int \<Rightarrow> int \<Rightarrow> int \<Rightarrow> scheduler" where
  "new_scheduler now heartbeat schedule retry recovery reconciliation = \<lparr>
     sc_cadences = [(''heartbeat'', max heartbeat tenth), (''schedules'', max schedule tenth),
       (''retries'', max retry tenth), (''recovery'', max recovery tenth),
       (''reconciliation'', max reconciliation tenth)],
     sc_next_due = map (\<lambda>task. (task, now)) MAINTENANCE_TASKS\<rparr>"

definition require_task :: "string \<Rightarrow> unit result" where
  "require_task task = guard (task \<in> set MAINTENANCE_TASKS) (ValueError (''unknown worker maintenance task: '' @ task))"

text \<open>\<open>dict[key]\<close> on a dict that has the key; assignment keeps the place of the key.\<close>

definition dict_get :: "(string \<times> int) list \<Rightarrow> string \<Rightarrow> int" where
  "dict_get d k = (case map_of d k of Some v \<Rightarrow> v | None \<Rightarrow> 0)"

definition dict_set :: "(string \<times> int) list \<Rightarrow> string \<Rightarrow> int \<Rightarrow> (string \<times> int) list" where
  "dict_set d k v = map (\<lambda>kv. if fst kv = k then (k, v) else kv) d"

definition is_due :: "time \<Rightarrow> string \<Rightarrow> scheduler \<Rightarrow> bool result" where
  "is_due now task sc = and_then (require_task task) (\<lambda>_. Inr (dict_get (sc_next_due sc) task \<le> now))"

definition complete :: "time \<Rightarrow> string \<Rightarrow> scheduler \<Rightarrow> scheduler result" where
  "complete now task sc = and_then (require_task task) (\<lambda>_.
     Inr (sc\<lparr>sc_next_due := dict_set (sc_next_due sc) task (now + dict_get (sc_cadences sc) task)\<rparr>))"

fun request_tasks :: "time \<Rightarrow> string list \<Rightarrow> scheduler \<Rightarrow> unit result \<times> scheduler" where
  "request_tasks deadline [] sc = (Inr (), sc)"
| "request_tasks deadline (task # tasks) sc =
     (case require_task task of
        Inl e \<Rightarrow> (Inl e, sc)
      | Inr _ \<Rightarrow> request_tasks deadline tasks
          (sc\<lparr>sc_next_due := dict_set (sc_next_due sc) task (min (dict_get (sc_next_due sc) task) deadline)\<rparr>))"

definition request :: "time \<Rightarrow> string list \<Rightarrow> int \<Rightarrow> scheduler \<Rightarrow> unit result \<times> scheduler" where
  "request now tasks delay_seconds sc = request_tasks (now + max delay_seconds 0) tasks sc"

definition next_delay :: "time \<Rightarrow> int \<Rightarrow> scheduler \<Rightarrow> int" where
  "next_delay now maximum_seconds sc =
     min (max maximum_seconds 0) (Min (set (map (\<lambda>kv. max (snd kv - now) 0) (sc_next_due sc))))"

text \<open>
  \<open>WorkerMaintenanceRunner.run_due\<close> over a world \<open>w\<close>: \<open>operation task\<close> is the task's effect,
  \<open>clock task\<close> the readings of \<open>is_due\<close> and \<open>complete\<close>. An exception ends the pass; the failed
  task is not completed.
\<close>

definition RUN_ORDER :: "string list" where
  "RUN_ORDER = [''heartbeat'', ''schedules'', ''recovery'', ''retries'', ''reconciliation'']"

fun run_tasks ::
    "(string \<Rightarrow> 'w \<Rightarrow> unit result \<times> 'w) \<Rightarrow> (string \<Rightarrow> time \<times> time) \<Rightarrow> string list option
     \<Rightarrow> string list \<Rightarrow> scheduler \<Rightarrow> 'w \<Rightarrow> unit result \<times> scheduler \<times> 'w" where
  "run_tasks operation clock only [] sc w = (Inr (), sc, w)"
| "run_tasks operation clock only (task # tasks) sc w =
     (if (case only of None \<Rightarrow> False | Some ts \<Rightarrow> task \<notin> set ts)
         \<or> \<not> dict_get (sc_next_due sc) task \<le> fst (clock task)
      then run_tasks operation clock only tasks sc w
      else case operation task w of
        (Inl e, w') \<Rightarrow> (Inl e, sc, w')
      | (Inr _, w') \<Rightarrow>
          (case complete (snd (clock task)) task sc of
             Inl e \<Rightarrow> (Inl e, sc, w')
           | Inr sc' \<Rightarrow> run_tasks operation clock only tasks sc' w'))"

definition run_due ::
    "(string \<Rightarrow> 'w \<Rightarrow> unit result \<times> 'w) \<Rightarrow> (string \<Rightarrow> time \<times> time) \<Rightarrow> string list option
     \<Rightarrow> scheduler \<Rightarrow> 'w \<Rightarrow> unit result \<times> scheduler \<times> 'w" where
  "run_due operation clock only = run_tasks operation clock only RUN_ORDER"

definition adaptive_idle_delay :: "int \<Rightarrow> int \<Rightarrow> int \<Rightarrow> int" where
  "adaptive_idle_delay minimum_seconds maximum_seconds idle_cycles =
     (let minimum = max minimum_seconds 50000;
          maximum = max maximum_seconds minimum;
          exponent = max (min (idle_cycles - 1) 16) 0
      in min (minimum * 2 ^ nat exponent) maximum)"

section \<open>Contracts\<close>

lemma update_workers_legal: "legal s (update_workers named P f s)"
  by (rule legalI) (erule update_workers_ok, rule update_workers_evolves)

lemma insert_worker_legal: "legal s (insert_worker w s)"
  by (rule legalI) (erule insert_worker_ok, rule insert_worker_evolves)

lemma requeue_legal: "legal s (update_jobs (requeue_due now) (requeue_edit now) s)"
  by (rule update_jobs_legal)
    (auto simp: requeue_due_def requeue_edit_def job_edit_def job_key_def job_lifecycle_def)

interpretation requeue_due_jobs: coordination_op "requeue_due_jobs now" for now
  by unfold_locales (auto simp: requeue_due_jobs_def transaction_def requeue_legal)

interpretation register_worker: coordination_op "register_worker E now i p h fp" for E now i p h fp
  unfolding register_worker_def
  by unfold_locales (rule transaction_legal,
    auto simp: and_then_Inr_iff Let_def insert_worker_legal update_workers_legal split: if_splits)

interpretation heartbeat_worker: coordination_op "heartbeat_worker now i" for now i
  by unfold_locales (auto simp: heartbeat_worker_def transaction_def update_workers_legal)

interpretation stop_worker: coordination_op "stop_worker now i" for now i
  by unfold_locales (auto simp: stop_worker_def transaction_def update_workers_legal)

lemma lease_edit_next: "attempt_next a (lease_edit now u a)"
  by (auto simp: lease_edit_def attempt_next_def attempt_edit_def attempt_key_def)

lemma heartbeat_worker_attempt_tx_legal:
  assumes "heartbeat_worker_attempt_tx now i w l m s = Inr (a, s')"
  shows "legal s s'"
proof -
  from assms obtain c where c: "attempt_by i s = Some c"
    by (auto simp: heartbeat_worker_attempt_tx_def and_then_Inr_iff)
  define s1 where "s1 = update_attempts (\<lambda>a. a_id a = i \<and> (a_lease_owner a = Some w
      \<and> a_version a = a_version c \<and> a_status a \<notin> {AttemptSucceeded, AttemptFailed, AttemptCanceled, AttemptInterrupted}))
      (lease_edit now (now + max l second)) s"
  have "legal s s1" unfolding s1_def by (rule update_attempts_legal) (rule lease_edit_next)
  moreover have "s' = s \<or> s' = update_workers False (\<lambda>x. w_id x = w) (online_edit now) s1"
    using assms c
    by (auto simp: heartbeat_worker_attempt_tx_def and_then_Inr_iff Let_def s1_def simp del: update_attempts_frame split: if_splits)
  ultimately show ?thesis by (auto intro: legal_trans update_workers_legal)
qed

interpretation heartbeat_worker_attempt: coordination_op "heartbeat_worker_attempt now i w l m" for now i w l m
  by unfold_locales (auto simp: heartbeat_worker_attempt_def intro!: transaction_legal dest: heartbeat_worker_attempt_tx_legal)

section \<open>What maintenance promises\<close>

lemma find_sorted_first:
  assumes "sorted (map k xs)" "x \<in> set xs" "P x"
  shows "\<exists>y. List.find P xs = Some y \<and> k y \<le> k x"
  using assms by (induction xs) auto

lemma found_no_later:
  assumes "db_ok s" "j \<in> set (jobs s)" "eligible now (jobs s) j" "job_matches fp j"
    "j_required_os j = optional_json_text (jget (j_required_fingerprint j) ''os'')"
  shows "\<exists>c. find_compatible_candidate now fp s = Some c \<and> claim_order c \<le> claim_order j"
  unfolding find_compatible_candidate_def find_candidate_flat [OF db_ok_jobs [OF assms(1)]]
  by (rule find_sorted_first) (use assms prefilter_complete in auto)

text \<open>
  C20. Requeueing makes exactly the due retries claimable. The jobs that wait for a retry whose time
  has come and that are not canceled, and no others, become queued under their next version; all
  rows keep their place and their other columns, and the count of the changed rows is reported. A
  search at the same time, by a worker whose capabilities match such a job, then finds this job
  or one before it in claim order, unless the job is interactive and another one of its session
  is ahead of it.
\<close>

theorem requeue_due_jobs_exact:
  fixes now :: time
  defines "due \<equiv> \<lambda>j. j_status j = JobRetryWait \<and> (\<exists>t\<le>now. j_available_at j = Some t) \<and> j_cancel_requested_at j = None"
  assumes "db_ok s" "requeue_due_jobs now s = (Inr n, s')"
  shows "jobs s' = map (\<lambda>j. if due j
        then j\<lparr>j_status := JobQueued, j_updated_at := now, j_version := j_version j + 1\<rparr> else j) (jobs s)
    \<and> n = length (filter due (jobs s))
    \<and> (\<forall>j\<in>set (jobs s). due j \<and> job_matches fp j
        \<and> j_required_os j = optional_json_text (jget (j_required_fingerprint j) ''os'')
        \<and> (j_origin j \<noteq> ''interactive'' \<or> (\<forall>k\<in>set (jobs s'). \<not> ahead_in_session j k))
      \<longrightarrow> (\<exists>c. find_compatible_candidate now fp s' = Some c \<and> claim_order c \<le> claim_order j))"
proof -
  have due: "requeue_due now = due"
    by (auto simp: requeue_due_def due_def fun_eq_iff split: option.splits)
  from assms(3) have n: "n = length (filter due (jobs s))"
    and s': "s' = update_jobs due (requeue_edit now) s"
    by (auto simp: requeue_due_jobs_def transaction_def changes_def due)
  then have js: "jobs s' = map (\<lambda>j. if due j then requeue_edit now j else j) (jobs s)"
    by (simp add: upd_where_def)
  have ok: "db_ok s'" using requeue_legal [of s now] assms(2) by (simp add: legal_def due s')
  have "\<exists>c. find_compatible_candidate now fp s' = Some c \<and> claim_order c \<le> claim_order j"
    if j: "j \<in> set (jobs s)" "due j" "job_matches fp j"
      "j_required_os j = optional_json_text (jget (j_required_fingerprint j) ''os'')"
      "j_origin j \<noteq> ''interactive'' \<or> (\<forall>k\<in>set (jobs s'). \<not> ahead_in_session j k)" for j
  proof -
    let ?q = "requeue_edit now j"
    have "blocks k ?q \<Longrightarrow> ahead_in_session j k" for k
      by (auto simp: blocks_def ahead_in_session_def requeue_edit_def)
    then have "eligible now (jobs s') ?q"
      using j(2,5) by (auto simp: eligible_def due_def requeue_edit_def list_ex_iff)
    moreover have "?q \<in> set (jobs s')" using j(1,2) unfolding js by force
    moreover have "job_matches fp ?q" "claim_order ?q = claim_order j"
      "j_required_os ?q = optional_json_text (jget (j_required_fingerprint ?q) ''os'')"
      using j(3,4) by (simp_all add: job_matches_def claim_order_def requeue_edit_def)
    ultimately show ?thesis using found_no_later [OF ok] by metis
  qed
  then show ?thesis using js n unfolding requeue_edit_def by blast
qed

theorem requeue_due_jobs_exact_witness:
  "\<exists>s' c. requeue_due_jobs 20 (queued_store\<lparr>jobs := [queued_job\<lparr>j_status := JobRetryWait, j_available_at := Some 15\<rparr>]\<rparr>)
      = (Inr 1, s') \<and> find_compatible_candidate 20 race_fingerprint s' = Some c \<and> claim_order c \<le> claim_order queued_job"
proof -
  let ?j = "queued_job\<lparr>j_status := JobRetryWait, j_available_at := Some 15\<rparr>"
  let ?s = "queued_store\<lparr>jobs := [?j]\<rparr>"
  have run: "requeue_due_jobs 20 ?s = (Inr 1, snd (requeue_due_jobs 20 ?s))" by code_simp
  have ok: "db_ok ?s" by code_simp
  have "job_matches race_fingerprint ?j \<and> claim_order ?j = claim_order queued_job
      \<and> j_required_os ?j = optional_json_text (jget (j_required_fingerprint ?j) ''os'')
      \<and> j_origin ?j \<noteq> ''interactive'' \<and> j_status ?j = JobRetryWait \<and> j_available_at ?j = Some 15
      \<and> j_cancel_requested_at ?j = None"
    by code_simp
  with requeue_due_jobs_exact [OF ok run, of race_fingerprint]
  have "\<exists>c. find_compatible_candidate 20 race_fingerprint (snd (requeue_due_jobs 20 ?s)) = Some c
      \<and> claim_order c \<le> claim_order queued_job"
    by auto
  with run show ?thesis by (intro exI [of _ "snd (requeue_due_jobs 20 ?s)"]) auto
qed

lemma maintenance_delay_bounds:
  "let d = next_worker_maintenance_delay now maximum s in
   0 \<le> d \<and> d \<le> max maximum 0 \<and> (\<forall>t\<in>set (maintenance_deadlines now s). now + d \<le> t) \<and>
   (d = max maximum 0 \<or> now + d \<in> set (maintenance_deadlines now s))"
proof (cases "maintenance_deadlines now s = []")
  case True
  then show ?thesis by (simp add: next_worker_maintenance_delay_def Let_def)
next
  case False
  define m where "m = Min (set (maintenance_deadlines now s))"
  have m: "m \<in> set (maintenance_deadlines now s)" "\<forall>t\<in>set (maintenance_deadlines now s). m \<le> t"
    using False by (auto simp: m_def)
  then have "now < m" by (auto simp: maintenance_deadlines_def)
  then have "next_worker_maintenance_delay now maximum s = min (max maximum 0) (m - now)"
    using False by (simp add: next_worker_maintenance_delay_def Let_def m_def)
  with m \<open>now < m\<close> show ?thesis by (auto simp: Let_def min_def)
qed

lemma set_map_filter_Some: "set (List.map_filter f xs) = {t. \<exists>x\<in>set xs. f x = Some t}"
  by (force simp: List.map_filter_def image_iff)

lemma maintenance_deadlines_sources:
  "set (maintenance_deadlines now s) = {t. now < t \<and>
     ((\<exists>j\<in>set (jobs s). j_status j \<in> {JobQueued, JobRetryWait} \<and> j_cancel_requested_at j = None
         \<and> j_available_at j = Some t)
      \<or> (\<exists>a\<in>set (attempts s). a_status a \<in> {AttemptClaimed, AttemptStarting, AttemptRunning}
         \<and> a_leased_until a = Some t)
      \<or> (\<exists>x\<in>set (schedules s). s_enabled x \<and> s_status x = ''active'' \<and> s_next_run_at x = Some t))}"
  unfolding maintenance_deadlines_def set_filter set_append set_map_filter_Some by blast

text \<open>
  C22. An idle wait never sleeps past a deadline. The deadlines are the future instants at which an
  uncanceled queued or retrying job becomes available, the lease of a claimed, starting or running
  attempt ends, or an enabled active schedule is due. The delay is between zero and the given
  maximum, no deadline lies strictly inside it, and a wait shorter than the maximum ends exactly
  at a deadline.
\<close>

theorem maintenance_delay_reaches_deadline:
  "let d = next_worker_maintenance_delay now maximum s in
   0 \<le> d \<and> d \<le> max maximum 0 \<and> (\<forall>t\<in>set (maintenance_deadlines now s). now + d \<le> t) \<and>
   (d = max maximum 0 \<or> now + d \<in> set (maintenance_deadlines now s)) \<and>
   set (maintenance_deadlines now s) = {t. now < t \<and>
     ((\<exists>j\<in>set (jobs s). j_status j \<in> {JobQueued, JobRetryWait} \<and> j_cancel_requested_at j = None
         \<and> j_available_at j = Some t)
      \<or> (\<exists>a\<in>set (attempts s). a_status a \<in> {AttemptClaimed, AttemptStarting, AttemptRunning}
         \<and> a_leased_until a = Some t)
      \<or> (\<exists>x\<in>set (schedules s). s_enabled x \<and> s_status x = ''active'' \<and> s_next_run_at x = Some t))}"
  using maintenance_delay_bounds [of now maximum s] maintenance_deadlines_sources [of now s]
  unfolding Let_def by (intro conjI) (elim conjE; assumption)+

theorem maintenance_delay_reaches_deadline_witness:
  "next_worker_maintenance_delay 20 100 running_store = 30 \<and> 50 \<in> set (maintenance_deadlines 20 running_store)"
proof -
  have d: "next_worker_maintenance_delay 20 100 running_store = 30" by code_simp
  from maintenance_delay_reaches_deadline [of 20 100 running_store, unfolded Let_def d]
  have "(30::int) = max 100 0 \<or> 20 + 30 \<in> set (maintenance_deadlines 20 running_store)" by (elim conjE)
  then have "50 \<in> set (maintenance_deadlines 20 running_store)" by simp
  with d show ?thesis ..
qed

text \<open>
  C21. A combined heartbeat is refused or leaves a live lease. If \<open>heartbeat_worker_attempt\<close>
  returns, the attempt is owned by the calling worker and not settled, and its lease ends in the
  future; a version step is spent only when the lease is really renewed. If it fails, nothing has
  changed.
\<close>

theorem heartbeat_worker_attempt_leases:
  "case heartbeat_worker_attempt now i w lease interval s of
     (Inl e, s') \<Rightarrow> s' = s
   | (Inr a, s') \<Rightarrow> attempt_by i s' = Some a \<and> a_lease_owner a = Some w \<and> \<not> terminal_attempt (a_status a)
       \<and> (\<exists>u. a_leased_until a = Some u \<and> now < u)
       \<and> (s' = s \<or> (\<exists>c. attempt_by i s = Some c \<and> a_version a = a_version c + 1 \<and> a_status a = a_status c))"
proof (cases "heartbeat_worker_attempt now i w lease interval s")
  case (Pair r s')
  show ?thesis
  proof (cases r)
    case (Inl e)
    with Pair show ?thesis by (auto simp: heartbeat_worker_attempt_def transaction_Inl_iff)
  next
    case (Inr a)
    with Pair have tx: "heartbeat_worker_attempt_tx now i w lease interval s = Inr (a, s')"
      by (simp add: heartbeat_worker_attempt_def transaction_Inr_iff)
    then obtain c where c: "attempt_by i s = Some c" "a_lease_owner c = Some w" "\<not> terminal_attempt (a_status c)"
      by (auto simp: heartbeat_worker_attempt_tx_def and_then_Inr_iff)
    show ?thesis
    proof (cases "heartbeat_is_fresh c now (max interval 0)")
      case True
      with tx c have "a = c" "s' = s" by (simp_all add: heartbeat_worker_attempt_tx_def)
      moreover have "\<exists>u. a_leased_until c = Some u \<and> now < u"
        using True by (auto simp: heartbeat_is_fresh_def split: if_splits option.splits)
      ultimately show ?thesis using Pair Inr c by simp
    next
      case False
      define P where "P = (\<lambda>a::attempt. a_id a = i \<and> (a_lease_owner a = Some w \<and> a_version a = a_version c
        \<and> a_status a \<notin> {AttemptSucceeded, AttemptFailed, AttemptCanceled, AttemptInterrupted}))"
      define f where "f = lease_edit now (now + max lease second)"
      define s2 where "s2 = update_workers False (\<lambda>x. w_id x = w) (online_edit now) (update_attempts P f s)"
      have "s' = s2" "attempt_by i s2 = Some a"
        using tx c False
        by (auto simp: heartbeat_worker_attempt_tx_def and_then_Inr_iff Let_def P_def f_def s2_def
            simp del: update_attempts_frame)
      moreover have "attempts s2 = upd_where P f (attempts s)" by (simp add: s2_def update_workers_def)
      moreover have "P c" using c row_by_key [OF c(1)] by (simp add: P_def terminal_attempt_def)
      then have "row_by a_id i (upd_where P f (attempts s)) = Some (f c)"
        by (intro row_by_updated [OF c(1)]) (simp_all add: f_def lease_edit_def)
      ultimately have "a = f c" "attempt_by i s' = Some a" by simp_all
      moreover have "now < now + max lease second" by (simp add: second_def)
      ultimately show ?thesis using Pair Inr c by (simp add: f_def lease_edit_def)
    qed
  qed
qed

theorem heartbeat_worker_attempt_leases_witness:
  "fst (heartbeat_worker_attempt 20 ''attempt_1'' ''v'' 5 0 running_store) = Inl (ConcurrentUpdateError ''attempt_1'')
   \<and> snd (heartbeat_worker_attempt 20 ''attempt_1'' ''v'' 5 0 running_store) = running_store"
proof -
  have "fst (heartbeat_worker_attempt 20 ''attempt_1'' ''v'' 5 0 running_store) = Inl (ConcurrentUpdateError ''attempt_1'')"
    by code_simp
  with heartbeat_worker_attempt_leases [where now = 20 and i = "''attempt_1''" and w = "''v''" and lease = 5
      and interval = 0 and s = running_store] show ?thesis
    by (auto split: prod.splits)
qed

text \<open>
  A heartbeat can bring a stopped worker back without a trace in the revision. The UPDATE of
  \<open>heartbeat_worker\<close> sets the status, but the trigger that counts worker changes is bound to a
  column list without the status: the row turns from stopped to online, which the runs center
  shows, and the revision its readers poll stays the same.
\<close>

theorem heartbeat_worker_skips_revision:
  assumes "row_by w_id i (workers s) = Some w" "w_status w = ''stopped''"
  shows "\<exists>s' w'. heartbeat_worker now i s = (Inr (), s') \<and> row_by w_id i (workers s') = Some w' \<and>
    w_status w' = ''online'' \<and> worker_watched w' \<noteq> worker_watched w \<and> revision s' = revision s"
proof -
  have "row_by w_id i (upd_where (\<lambda>w. w_id w = i) (online_edit now) (workers s)) = Some (online_edit now w)"
    using row_by_key [OF assms(1)] by (intro row_by_updated [OF assms(1)]) (simp_all add: online_edit_def)
  then show ?thesis using assms(2)
    by (simp add: heartbeat_worker_def transaction_def update_workers_def online_edit_def worker_watched_def)
qed

definition stopped_worker :: worker where
  "stopped_worker = \<lparr>w_id = ''w'', w_process_id = 7, w_hostname = ''h'', w_status = ''stopped'',
     w_started_at = 1, w_heartbeat_at = 5, w_stopped_at = Some 5, w_fingerprint = JObj []\<rparr>"

theorem heartbeat_worker_skips_revision_witness:
  "\<exists>s' w'. heartbeat_worker 20 ''w'' (empty_store\<lparr>workers := [stopped_worker]\<rparr>) = (Inr (), s') \<and>
     row_by w_id ''w'' (workers s') = Some w' \<and> w_status w' = ''online'' \<and> revision s' = 0"
proof -
  have "row_by w_id ''w'' (workers (empty_store\<lparr>workers := [stopped_worker]\<rparr>)) = Some stopped_worker"
    "w_status stopped_worker = ''stopped''" by code_simp+
  from heartbeat_worker_skips_revision [OF this, of 20] show ?thesis by (auto simp: empty_store_def)
qed

lemma map_of_dict_set:
  "map_of (dict_set d k v) k' = (if k' = k \<and> k \<in> fst ` set d then Some v else map_of d k')"
  by (induction d) (fastforce simp: dict_set_def image_iff)+

lemma dict_get_set: "dict_get (dict_set d k v) k' = (if k' = k \<and> k \<in> fst ` set d then v else dict_get d k')"
  by (simp add: dict_get_def map_of_dict_set)

lemma keys_dict_set [simp]: "map fst (dict_set d k v) = map fst d"
  by (induction d) (auto simp: dict_set_def)

definition scheduler_ok :: "scheduler \<Rightarrow> bool" where
  "scheduler_ok sc \<longleftrightarrow> map fst (sc_next_due sc) = MAINTENANCE_TASKS \<and> map fst (sc_cadences sc) = MAINTENANCE_TASKS
     \<and> (\<forall>task\<in>set MAINTENANCE_TASKS. tenth \<le> dict_get (sc_cadences sc) task)"

lemma new_scheduler_ok: "scheduler_ok (new_scheduler now h s r c n)"
  by (simp add: scheduler_ok_def new_scheduler_def MAINTENANCE_TASKS_def dict_get_def)

lemma complete_known:
  assumes "scheduler_ok sc" "task \<in> set MAINTENANCE_TASKS"
  shows "complete now task sc = Inr (sc\<lparr>sc_next_due := dict_set (sc_next_due sc) task (now + dict_get (sc_cadences sc) task)\<rparr>)"
    "scheduler_ok (sc\<lparr>sc_next_due := dict_set (sc_next_due sc) task v\<rparr>)"
  using assms by (simp_all add: complete_def require_task_def scheduler_ok_def)

text \<open>A pass over distinct tasks treats each task by the deadline it had at the start.\<close>

lemma run_tasks_deadlines:
  assumes "run_tasks operation clock only tasks sc w = (Inr (), sc', w')" "scheduler_ok sc"
    "distinct tasks" "set tasks \<subseteq> set MAINTENANCE_TASKS"
  shows "scheduler_ok sc' \<and> sc_cadences sc' = sc_cadences sc \<and> (\<forall>task. dict_get (sc_next_due sc') task =
    (if task \<in> set tasks \<and> (case only of None \<Rightarrow> True | Some ts \<Rightarrow> task \<in> set ts)
        \<and> dict_get (sc_next_due sc) task \<le> fst (clock task)
     then snd (clock task) + dict_get (sc_cadences sc) task else dict_get (sc_next_due sc) task))"
  using assms
proof (induction operation clock only tasks sc w rule: run_tasks.induct)
  case (1 operation clock only sc w)
  then show ?case by simp
next
  case (2 operation clock only task tasks sc w)
  let ?skip = "(case only of None \<Rightarrow> False | Some ts \<Rightarrow> task \<notin> set ts) \<or> \<not> dict_get (sc_next_due sc) task \<le> fst (clock task)"
  show ?case
  proof (cases ?skip)
    case True
    with "2.prems"(1) have "run_tasks operation clock only tasks sc w = (Inr (), sc', w')" by simp
    with "2.IH"(1) [OF True] "2.prems" have ih: "scheduler_ok sc' \<and> sc_cadences sc' = sc_cadences sc \<and> (\<forall>task. dict_get (sc_next_due sc') task =
      (if task \<in> set tasks \<and> (case only of None \<Rightarrow> True | Some ts \<Rightarrow> task \<in> set ts)
        \<and> dict_get (sc_next_due sc) task \<le> fst (clock task)
       then snd (clock task) + dict_get (sc_cadences sc) task else dict_get (sc_next_due sc) task))" by simp
    have "\<not> ((case only of None \<Rightarrow> True | Some ts \<Rightarrow> task \<in> set ts) \<and> dict_get (sc_next_due sc) task \<le> fst (clock task))"
      using True by (auto split: option.splits)
    with ih show ?thesis by auto
  next
    case False
    define sc1 where "sc1 = sc\<lparr>sc_next_due := dict_set (sc_next_due sc) task (snd (clock task) + dict_get (sc_cadences sc) task)\<rparr>"
    have t: "task \<in> set MAINTENANCE_TASKS" using "2.prems"(4) by simp
    have c: "complete (snd (clock task)) task sc = Inr sc1" "scheduler_ok sc1"
      using complete_known [OF "2.prems"(2) t] by (simp_all add: sc1_def)
    obtain w1 where op: "operation task w = (Inr (), w1)"
      using "2.prems"(1) False by (auto split: prod.splits sum.splits)
    have run: "run_tasks operation clock only tasks sc1 w1 = (Inr (), sc', w')"
      using "2.prems"(1) False op c(1) by simp
    have ih: "scheduler_ok sc' \<and> sc_cadences sc' = sc_cadences sc1 \<and> (\<forall>task. dict_get (sc_next_due sc') task =
      (if task \<in> set tasks \<and> (case only of None \<Rightarrow> True | Some ts \<Rightarrow> task \<in> set ts)
        \<and> dict_get (sc_next_due sc1) task \<le> fst (clock task)
       then snd (clock task) + dict_get (sc_cadences sc1) task else dict_get (sc_next_due sc1) task))"
      using "2.IH"(2) [OF False op [symmetric] refl c(1) run c(2)] "2.prems"(3,4) by simp
    have "fst ` set (sc_next_due sc) = set MAINTENANCE_TASKS"
      using "2.prems"(2) by (metis list.set_map scheduler_ok_def)
    then have due: "dict_get (sc_next_due sc1) k = (if k = task then snd (clock task) + dict_get (sc_cadences sc) task
        else dict_get (sc_next_due sc) k)" for k
      using t by (simp add: sc1_def dict_get_set)
    have "task \<notin> set tasks" using "2.prems"(3) by simp
    moreover have "(case only of None \<Rightarrow> True | Some ts \<Rightarrow> task \<in> set ts) \<and> dict_get (sc_next_due sc) task \<le> fst (clock task)"
      using False by (auto split: option.splits)
    ultimately show ?thesis using ih due by (auto simp: sc1_def)
  qed
qed

text \<open>
  C23. A maintenance pass keeps the cadences apart. After a pass without an error each selected
  task that was due is due again one cadence (a tenth of a second at least) after its completion,
  and the deadlines of all other tasks are untouched.
\<close>

theorem run_due_advances_due_tasks:
  assumes "run_due operation clock only sc w = (Inr (), sc', w')" "scheduler_ok sc"
    "task \<in> set MAINTENANCE_TASKS"
  shows "dict_get (sc_next_due sc') task =
    (if (case only of None \<Rightarrow> True | Some ts \<Rightarrow> task \<in> set ts) \<and> dict_get (sc_next_due sc) task \<le> fst (clock task)
     then snd (clock task) + dict_get (sc_cadences sc) task else dict_get (sc_next_due sc) task)
    \<and> tenth \<le> dict_get (sc_cadences sc) task \<and> scheduler_ok sc'"
proof -
  have "distinct RUN_ORDER" "set RUN_ORDER = set MAINTENANCE_TASKS"
    by (auto simp: RUN_ORDER_def MAINTENANCE_TASKS_def)
  with run_tasks_deadlines [OF assms(1) [unfolded run_due_def] assms(2)] assms(2,3) show ?thesis
    by (simp add: scheduler_ok_def)
qed

theorem run_due_advances_due_tasks_witness:
  "\<exists>sc'. run_due (\<lambda>task w. (Inr (), task # w)) (\<lambda>_. (5, 6)) (Some [''retries'']) (new_scheduler 0 second second second second second) []
      = (Inr (), sc', [''retries'']) \<and> dict_get (sc_next_due sc') ''retries'' = 1000006 \<and> dict_get (sc_next_due sc') ''recovery'' = 0"
proof -
  let ?sc = "new_scheduler 0 second second second second second"
  let ?r = "run_due (\<lambda>task w. (Inr (), task # w)) (\<lambda>_. (5, 6)) (Some [''retries'']) ?sc []"
  have run: "?r = (Inr (), fst (snd ?r), [''retries''])" by code_simp
  have "''retries'' \<in> set MAINTENANCE_TASKS" "''recovery'' \<in> set MAINTENANCE_TASKS" by code_simp+
  note both = run_due_advances_due_tasks [OF run new_scheduler_ok this(1)] run_due_advances_due_tasks [OF run new_scheduler_ok this(2)]
  have "dict_get (sc_next_due ?sc) ''retries'' = 0" "dict_get (sc_next_due ?sc) ''recovery'' = 0"
    "dict_get (sc_cadences ?sc) ''retries'' = second" by code_simp+
  with both run show ?thesis by (intro exI [of _ "fst (snd ?r)"]) (simp add: second_def)
qed

text \<open>
  The idle delay backs off within bounds. It starts at the minimum (50 ms at least), doubles
  with every empty cycle up to sixteen doublings, never exceeds the maximum, and never shrinks
  while the worker stays idle.
\<close>

theorem adaptive_idle_delay_bounds:
  "max lo 50000 \<le> adaptive_idle_delay lo hi n \<and> adaptive_idle_delay lo hi n \<le> max hi (max lo 50000) \<and>
   (\<forall>m\<ge>n. adaptive_idle_delay lo hi n \<le> adaptive_idle_delay lo hi m) \<and>
   (n \<le> 1 \<longrightarrow> adaptive_idle_delay lo hi n = max lo 50000)"
proof -
  let ?lo = "max lo 50000" and ?hi = "max hi (max lo 50000)"
  define p where "p k = (2::int) ^ nat (max (min (k - 1) 16) 0)" for k :: int
  have d: "adaptive_idle_delay lo hi k = min (?lo * p k) ?hi" for k
    by (simp add: adaptive_idle_delay_def Let_def p_def)
  have "1 \<le> p k" for k by (simp add: p_def)
  then have "?lo * 1 \<le> ?lo * p n" by (intro mult_left_mono) auto
  moreover have "p n \<le> p m" if "n \<le> m" for m
    unfolding p_def using that by (intro power_increasing nat_mono) auto
  then have "?lo * p n \<le> ?lo * p m" if "n \<le> m" for m
    using that by (intro mult_left_mono) auto
  moreover have "p n = 1" if "n \<le> 1" using that by (simp add: p_def)
  ultimately show ?thesis unfolding d by (auto simp: min_le_iff_disj)
qed

theorem adaptive_idle_delay_bounds_witness:
  "adaptive_idle_delay 100000 second 2 = 200000 \<and> adaptive_idle_delay 100000 second 2 \<le> adaptive_idle_delay 100000 second 9"
proof -
  have "adaptive_idle_delay 100000 second 2 = 200000" by code_simp
  with adaptive_idle_delay_bounds [of 100000 second 2] show ?thesis by auto
qed

end
