(* ===== verification/Approvals.thy ===== *)
theory Approvals
  imports Attempts
begin

text \<open>
  Approval requests and attention state (\<open>runtime/approvals/repository.py\<close>), the expiry of
  pending requests, and the hash-chained policy audit log (\<open>_expire_approvals\<close> and
  \<open>_append_policy_audit_event\<close> of \<open>runtime/repositories/records.py\<close>).
\<close>

section \<open>Expiry\<close>

definition expired_by :: "time \<Rightarrow> approval_request \<Rightarrow> bool" where
  "expired_by now r = (r_status r = ApprovalPending
     \<and> (case r_expires_at r of None \<Rightarrow> False | Some t \<Rightarrow> t \<le> now))"

definition expire_edit :: "approval_request \<Rightarrow> approval_request" where
  "expire_edit r = r\<lparr>r_status := ApprovalExpired\<rparr>"

definition expire_approvals :: "time \<Rightarrow> store \<Rightarrow> store" where
  "expire_approvals now s = update_requests (expired_by now) expire_edit s"

section \<open>Audit events\<close>

definition approval_preview_binding :: "json \<Rightarrow> string option" where
  "approval_preview_binding preview = (case jget preview ''approval_binding_sha256'' of
     None \<Rightarrow> None
   | Some JNull \<Rightarrow> None
   | Some (JStr t) \<Rightarrow> if strip t = [] then None else Some t
   | Some v \<Rightarrow> (case optional_json_text (Some v) of None \<Rightarrow> None | Some t \<Rightarrow> Some t))"

definition opt_str :: "string option \<Rightarrow> json" where
  "opt_str t = (case t of None \<Rightarrow> JNull | Some x \<Rightarrow> JStr x)"

text \<open>The hashed payload of an event: every column of the row but the hash itself.\<close>

definition audit_payload :: "env \<Rightarrow> audit_event \<Rightarrow> json" where
  "audit_payload E v = JObj [
     (''action'', JStr (action_value (v_action v))),
     (''approval_binding_sha256'', opt_str (v_binding v)),
     (''approval_grant_id'', opt_str (v_approval_grant_id v)),
     (''approval_request_id'', JStr (v_approval_request_id v)),
     (''created_at'', JStr (iso_text E (v_created_at v))),
     (''decision'', JStr (v_decision v)),
     (''enforcement'', JStr (enforcement_value (v_enforcement v))),
     (''enforcement_owner'', JStr (v_enforcement_owner v)),
     (''evidence'', v_evidence v),
     (''id'', JStr (v_id v)),
     (''job_id'', opt_str (v_job_id v)),
     (''operation_id'', JStr (v_operation_id v)),
     (''phase'', JStr (audit_phase_value (v_phase v))),
     (''policy_source'', JStr (v_policy_source v)),
     (''previous_event_sha256'', opt_str (v_previous_sha256 v)),
     (''project_id'', opt_str (v_project_id v)),
     (''run_id'', opt_str (v_run_id v)),
     (''sequence'', JInt (v_sequence v)),
     (''session_id'', opt_str (v_session_id v))]"

definition latest_event :: "string \<Rightarrow> store \<Rightarrow> audit_event option" where
  "latest_event operation s =
     (case rev (order_by v_sequence (filter (\<lambda>v. v_operation_id v = operation) (audit s))) of
        [] \<Rightarrow> None | v # _ \<Rightarrow> Some v)"

text \<open>
  \<open>_append_policy_audit_event\<close>: the keyword arguments are the fields of a draft event that has no
  id, sequence and hashes yet.
\<close>

definition append_policy_audit_event :: "env \<Rightarrow> string \<Rightarrow> audit_event \<Rightarrow> store \<Rightarrow> store result" where
  "append_policy_audit_event E uuid draft s =
     and_then (required_text (v_operation_id draft) ''policy operation_id'') (\<lambda>operation.
     and_then (safe_mapping E (v_evidence draft) ''policy audit evidence'') (\<lambda>safe_evidence.
     and_then (required_text (v_approval_request_id draft) ''approval_request_id'') (\<lambda>request_id.
     and_then (required_text (v_decision draft) ''policy decision'') (\<lambda>decision.
     and_then (required_text (v_enforcement_owner draft) ''enforcement_owner'') (\<lambda>owner.
     and_then (required_text (v_policy_source draft) ''policy_source'') (\<lambda>source.
       let previous = latest_event operation s;
           event = draft\<lparr>
             v_id := new_id ''policy_audit'' uuid,
             v_operation_id := operation,
             v_sequence := (case previous of None \<Rightarrow> 1 | Some p \<Rightarrow> v_sequence p + 1),
             v_previous_sha256 := map_option v_event_sha256 previous,
             v_approval_request_id := request_id,
             v_decision := decision,
             v_enforcement_owner := owner,
             v_policy_source := source,
             v_approval_grant_id := optional_text (v_approval_grant_id draft),
             v_binding := optional_text (v_binding draft),
             v_project_id := optional_text (v_project_id draft),
             v_session_id := optional_text (v_session_id draft),
             v_run_id := optional_text (v_run_id draft),
             v_job_id := optional_text (v_job_id draft),
             v_evidence := safe_evidence\<rparr>
       in insert_audit (event\<lparr>v_event_sha256 := sha256 E (canonical (audit_payload E event))\<rparr>) s))))))"

text \<open>
  \<open>if text:\<close> on an optional text: not missing and not empty. An operation with an enforcement
  owner is audited.
\<close>

definition given :: "string option \<Rightarrow> bool" where
  "given t = (case t of None \<Rightarrow> False | Some x \<Rightarrow> x \<noteq> [])"

definition audit_if_owned :: "env \<Rightarrow> string \<Rightarrow> string option \<Rightarrow> audit_event \<Rightarrow> store \<Rightarrow> store result" where
  "audit_if_owned E uuid owner draft s =
     (if given owner then append_policy_audit_event E uuid draft s else Inr s)"

section \<open>Requests\<close>

definition scope_identity :: "policy_resolution \<Rightarrow> policy_context \<Rightarrow> string" where
  "scope_identity resolution context = join [CHR 0x00] [
     action_value (pr_action resolution),
     or_else (pc_project_id context) [], or_else (pc_session_id context) [],
     or_else (pc_run_id context) [], or_else (pc_job_id context) [],
     or_else (pc_approval_binding context) [], or_else (pc_enforcement_owner context) []]"

definition request_preview :: "env \<Rightarrow> policy_context \<Rightarrow> json result" where
  "request_preview E context =
     (let preview = redacted_policy_preview E (pc_preview context) in
      if given (pc_approval_binding context)
      then and_then (approval_binding_digest E (or_else (pc_approval_binding context) [])) (\<lambda>digest.
             Inr (jset preview ''approval_binding_sha256'' (JStr digest)))
      else Inr preview)"

definition requested_row ::
    "env \<Rightarrow> time \<Rightarrow> string \<Rightarrow> policy_resolution \<Rightarrow> policy_context \<Rightarrow> time option \<Rightarrow> approval_request result" where
  "requested_row E now uuid resolution context expires_at =
     and_then (guard (pr_decision resolution = ASK)
       (ValueError ''approval requests require an ask policy resolution'')) (\<lambda>_.
     and_then (request_preview E context) (\<lambda>preview.
     and_then (required_text (pc_reason context) ''approval reason'') (\<lambda>reason.
       Inr \<lparr>r_id = new_id ''approval'' uuid, r_action = pr_action resolution,
         r_status = ApprovalPending, r_enforcement = pr_enforcement resolution,
         r_policy_source = pr_source resolution,
         r_enforcement_owner = optional_text (pc_enforcement_owner context),
         r_reason = reason, r_preview = preview, r_created_at = now, r_expires_at = expires_at,
         r_decided_at = None, r_decision = None,
         r_project_id = optional_text (pc_project_id context),
         r_session_id = optional_text (pc_session_id context),
         r_run_id = optional_text (pc_run_id context),
         r_job_id = optional_text (pc_job_id context),
         r_dedupe_key = sha256 E (scope_identity resolution context)\<rparr>)))"

definition resolution_event :: "env \<Rightarrow> time \<Rightarrow> policy_context \<Rightarrow> policy_resolution \<Rightarrow> approval_request \<Rightarrow> audit_event" where
  "resolution_event E now context resolution row = \<lparr>v_id = [], v_operation_id = r_id row, v_sequence = 0,
     v_action = pr_action resolution, v_phase = RESOLUTION,
     v_decision = policy_decision_value (pr_decision resolution),
     v_enforcement = pr_enforcement resolution,
     v_enforcement_owner = or_else (pc_enforcement_owner context) [],
     v_policy_source = pr_source resolution, v_approval_request_id = r_id row,
     v_approval_grant_id = None, v_binding = approval_preview_binding (r_preview row),
     v_project_id = pc_project_id context, v_session_id = pc_session_id context,
     v_run_id = pc_run_id context, v_job_id = pc_job_id context,
     v_evidence = JObj [(''preview_sha256'', JStr (mapping_hash E (r_preview row)))],
     v_previous_sha256 = None, v_event_sha256 = [], v_created_at = now\<rparr>"

definition link_edit :: "time \<Rightarrow> string \<Rightarrow> job \<Rightarrow> job" where
  "link_edit now request_id j = j\<lparr>j_approval_request_id := Some request_id, j_updated_at := now,
     j_version := j_version j + 1\<rparr>"

text \<open>
  The pending request with the same action and scope is returned instead of a second one; the
  partial unique index decides.
\<close>

definition create_approval_request_tx ::
    "env \<Rightarrow> time \<Rightarrow> string \<Rightarrow> string \<Rightarrow> policy_resolution \<Rightarrow> policy_context \<Rightarrow> time option
     \<Rightarrow> store \<Rightarrow> (approval_request \<times> store) result" where
  "create_approval_request_tx E now uuid audit_uuid resolution context expires_at s =
     and_then (requested_row E now uuid resolution context expires_at) (\<lambda>row.
       let s1 = expire_approvals now s in
       case insert_request row s1 of
         Inl _ \<Rightarrow>
           and_then (fetch IntegrityError (List.find (\<lambda>r. r_dedupe_key r = r_dedupe_key row
               \<and> r_status r = ApprovalPending) (requests s1))) (\<lambda>existing. Inr (existing, s1))
       | Inr s2 \<Rightarrow>
           let s3 = (if given (pc_job_id context)
                 then update_jobs (\<lambda>j. j_id j = or_else (pc_job_id context) []) (link_edit now (r_id row)) s2
                 else s2)
           in and_then (audit_if_owned E audit_uuid (pc_enforcement_owner context)
                   (resolution_event E now context resolution row) s3) (\<lambda>s4.
              and_then (fetch (KeyError (r_id row)) (row_by r_id (r_id row) (requests s4))) (\<lambda>created.
                Inr (created, s4))))"

definition create_approval_request ::
    "env \<Rightarrow> time \<Rightarrow> string \<Rightarrow> string \<Rightarrow> policy_resolution \<Rightarrow> policy_context \<Rightarrow> time option \<Rightarrow> approval_request op" where
  "create_approval_request E now uuid audit_uuid resolution context expires_at =
     transaction (create_approval_request_tx E now uuid audit_uuid resolution context expires_at)"

text \<open>Reads apply expiry first, in the same transaction; not found is raised after the commit.\<close>

definition get_approval_request :: "time \<Rightarrow> string \<Rightarrow> approval_request op" where
  "get_approval_request now request_id s =
     (let s' = expire_approvals now s in (fetch (KeyError request_id) (row_by r_id request_id (requests s')), s'))"

definition newest_first :: "approval_request list \<Rightarrow> approval_request list" where
  "newest_first rs = rev (order_by (\<lambda>r. (r_created_at r, r_id r)) rs)"

text \<open>\<open>LIKE '%hash%'\<close> ignores the case of ASCII letters.\<close>

definition find_approval_request_by_binding :: "env \<Rightarrow> time \<Rightarrow> string \<Rightarrow> approval_request option op" where
  "find_approval_request_by_binding E now approval_binding s =
     (case approval_binding_digest E approval_binding of
        Inl e \<Rightarrow> (Inl e, s)
      | Inr digest \<Rightarrow>
          let s' = expire_approvals now s;
              rows = take 20 (newest_first (filter
                 (\<lambda>r. contains (lower digest) (lower (json_text (r_preview r)))) (requests s')))
          in (Inr (List.find (\<lambda>r. approval_preview_binding (r_preview r) = Some digest) rows), s'))"

definition list_approval_requests :: "time \<Rightarrow> approval_status option \<Rightarrow> int \<Rightarrow> approval_request list op" where
  "list_approval_requests now status limit s =
     (let s' = expire_approvals now s in
      (Inr (take (nat (max 1 (min limit 200))) (newest_first
         (filter (\<lambda>r. case status of None \<Rightarrow> True | Some st \<Rightarrow> r_status r = st) (requests s')))), s'))"

definition list_run_approval_requests :: "time \<Rightarrow> string \<Rightarrow> string option \<Rightarrow> int \<Rightarrow> approval_request list op" where
  "list_run_approval_requests now run_id job_id limit s =
     (let s' = expire_approvals now s in
      (Inr (take (nat (max 1 (min limit 200))) (newest_first
         (filter (\<lambda>r. r_run_id r = Some run_id \<or> (given job_id \<and> r_job_id r = job_id)) (requests s')))), s'))"

section \<open>Attention\<close>

fun required_texts :: "string list \<Rightarrow> string \<Rightarrow> string list result" where
  "required_texts [] name = Inr []"
| "required_texts (t # ts) name =
     and_then (required_text t name) (\<lambda>x. and_then (required_texts ts name) (\<lambda>xs. Inr (x # xs)))"

definition attention_read_ids :: "string list \<Rightarrow> store \<Rightarrow> string list result" where
  "attention_read_ids item_ids s = and_then (required_texts item_ids ''item_id'') (\<lambda>safe_ids.
     Inr (filter (\<lambda>i. i \<in> set safe_ids) (map fst (attention s))))"

definition mark_attention_read :: "time \<Rightarrow> string list \<Rightarrow> bool \<Rightarrow> unit op" where
  "mark_attention_read now item_ids read = transaction (\<lambda>s.
     and_then (required_texts item_ids ''item_id'') (\<lambda>safe_ids.
       let kept = filter (\<lambda>p. fst p \<notin> set safe_ids) (attention s)
       in Inr ((), s\<lparr>attention := if read then kept @ map (\<lambda>i. (i, now)) (remdups safe_ids) else kept\<rparr>)))"

section \<open>Contracts\<close>

lemma expire_approvals_legal: "legal s (expire_approvals now s)"
  unfolding expire_approvals_def
  by (rule update_requests_legal) (simp add: request_edit_def expire_edit_def expired_by_def)

lemma expire_approvals_frame [simp]:
  "jobs (expire_approvals now s) = jobs s" "attempts (expire_approvals now s) = attempts s"
  "grants (expire_approvals now s) = grants s" "audit (expire_approvals now s) = audit s"
  "outbox (expire_approvals now s) = outbox s" "effects (expire_approvals now s) = effects s"
  "requests (expire_approvals now s) = upd_where (expired_by now) expire_edit (requests s)"
  by (simp_all add: expire_approvals_def update_requests_def)

lemma latest_event_Some:
  assumes "latest_event op s = Some p"
  shows "p \<in> set (audit s)" "v_operation_id p = op"
    "\<And>v. v \<in> set (audit s) \<Longrightarrow> v_operation_id v = op \<Longrightarrow> v_sequence v \<le> v_sequence p"
proof -
  define vs where "vs = filter (\<lambda>v. v_operation_id v = op) (audit s)"
  from assms obtain us where us: "rev (order_by v_sequence vs) = p # us"
    by (auto simp: latest_event_def vs_def split: list.splits)
  then have ord: "order_by v_sequence vs = rev us @ [p]" by (metis rev.simps(2) rev_swap)
  then have "set vs = insert p (set us)" by (metis set_order_by Un_insert_right list.set(2) set_append set_rev sup_bot_right empty_set)
  then show "p \<in> set (audit s)" "v_operation_id p = op" by (auto simp: vs_def)
  fix v assume "v \<in> set (audit s)" "v_operation_id v = op"
  then have "v \<in> set (order_by v_sequence vs)" by (simp add: vs_def)
  moreover have "sorted (map v_sequence (rev us @ [p]))" by (metis ord sorted_order_by)
  ultimately show "v_sequence v \<le> v_sequence p" by (auto simp: ord sorted_append)
qed

lemma latest_event_None: "latest_event op s = None \<longleftrightarrow> (\<forall>v\<in>set (audit s). v_operation_id v \<noteq> op)"
proof -
  have "latest_event op s = None \<longleftrightarrow> rev (order_by v_sequence (filter (\<lambda>v. v_operation_id v = op) (audit s))) = []"
    unfolding latest_event_def by (cases "rev (order_by v_sequence (filter (\<lambda>v. v_operation_id v = op) (audit s)))") simp_all
  then show ?thesis by (simp add: filter_empty_conv)
qed

text \<open>The row an append adds.\<close>

definition next_event :: "audit_event \<Rightarrow> store \<Rightarrow> audit_event \<Rightarrow> bool" where
  "next_event v s draft \<longleftrightarrow> v_phase v = v_phase draft \<and> v_action v = v_action draft
     \<and> v_sequence v = (case latest_event (v_operation_id v) s of None \<Rightarrow> 1 | Some p \<Rightarrow> v_sequence p + 1)
     \<and> v_previous_sha256 v = map_option v_event_sha256 (latest_event (v_operation_id v) s)"

lemma append_inserts:
  assumes "append_policy_audit_event E u draft s = Inr s'"
  obtains v where "insert_audit v s = Inr s'" "next_event v s draft"
    "required_text (v_operation_id draft) ''policy operation_id'' = Inr (v_operation_id v)"
    "v_event_sha256 v = sha256 E (canonical (audit_payload E v))"
  using assms by (auto simp: append_policy_audit_event_def and_then_Inr_iff Let_def next_event_def audit_payload_def)

lemma next_event_chained:
  assumes "db_ok s" "next_event v s draft"
  shows "chained (audit s) v"
proof (cases "latest_event (v_operation_id v) s")
  case None
  with assms(2) show ?thesis by (simp add: next_event_def chained_def)
next
  case (Some p)
  note p = latest_event_Some [OF Some]
  have "0 < v_sequence p" using assms(1) p(1) by (auto simp: db_ok_def audit_ok_def chained_def)
  with assms(2) Some p(1,2) show ?thesis by (auto simp: next_event_def chained_def audit_key_def)
qed

lemma append_policy_audit_event_legal:
  assumes "append_policy_audit_event E u draft s = Inr s'"
  shows "legal s s'"
  using assms by (rule append_inserts) (blast intro: insert_audit_legal next_event_chained)

lemma append_policy_audit_event_frame:
  assumes "append_policy_audit_event E u draft s = Inr s'"
  shows "jobs s' = jobs s \<and> attempts s' = attempts s \<and> requests s' = requests s \<and> grants s' = grants s
    \<and> outbox s' = outbox s \<and> effects s' = effects s"
  using assms
  by (auto simp: append_policy_audit_event_def and_then_Inr_iff Let_def insert_audit_def split: if_splits)

lemma audit_if_owned_legal: "audit_if_owned E u owner draft s = Inr s' \<Longrightarrow> legal s s'"
  by (auto simp: audit_if_owned_def split: if_splits intro: append_policy_audit_event_legal)

lemma audit_if_owned_frame:
  assumes "audit_if_owned E u owner draft s = Inr s'"
  shows "jobs s' = jobs s" "attempts s' = attempts s" "requests s' = requests s" "grants s' = grants s"
    "outbox s' = outbox s" "effects s' = effects s"
  using assms append_policy_audit_event_frame [of E u draft s s']
  by (auto simp: audit_if_owned_def split: if_splits)

lemma link_edit_legal: "legal s (update_jobs (\<lambda>j. j_id j = i) (link_edit now r) s)"
  by (rule update_jobs_legal) (auto simp: link_edit_def job_edit_def job_key_def job_lifecycle_def)

lemma create_approval_request_tx_legal:
  assumes "create_approval_request_tx E now u au res ctx ex s = Inr (r, s')"
  shows "legal s s'"
proof -
  from assms obtain row where row: "requested_row E now u res ctx ex = Inr row"
    by (auto simp: create_approval_request_tx_def and_then_Inr_iff)
  show ?thesis
  proof (cases "insert_request row (expire_approvals now s)")
    case (Inl e)
    with assms row have "s' = expire_approvals now s"
      by (auto simp: create_approval_request_tx_def and_then_Inr_iff Let_def simp del: expire_approvals_frame)
    then show ?thesis by (simp only: expire_approvals_legal)
  next
    case (Inr s2)
    define s3 where "s3 = (if given (pc_job_id ctx)
      then update_jobs (\<lambda>j. j_id j = or_else (pc_job_id ctx) []) (link_edit now (r_id row)) s2 else s2)"
    have "audit_if_owned E au (pc_enforcement_owner ctx) (resolution_event E now ctx res row) s3 = Inr s'"
      using assms row Inr
      by (auto simp: create_approval_request_tx_def and_then_Inr_iff Let_def s3_def simp del: expire_approvals_frame split: if_splits)
    then have "legal s3 s'" by (rule audit_if_owned_legal)
    moreover have "legal s2 s3" by (simp add: s3_def link_edit_legal)
    moreover have "legal s s2"
      using insert_request_legal [OF Inr] expire_approvals_legal by (rule legal_trans [rotated])
    ultimately show ?thesis by (blast intro: legal_trans)
  qed
qed

interpretation create_approval_request: coordination_op "create_approval_request E now u au res ctx ex"
  for E now u au res ctx ex
  by unfold_locales (auto simp: create_approval_request_def intro!: transaction_legal dest: create_approval_request_tx_legal)

interpretation get_approval_request: coordination_op "get_approval_request now i" for now i
  by unfold_locales (simp add: get_approval_request_def Let_def expire_approvals_legal)

interpretation find_approval_request_by_binding: coordination_op "find_approval_request_by_binding E now b" for E now b
  by unfold_locales
    (auto simp: find_approval_request_by_binding_def Let_def expire_approvals_legal split: sum.splits)

interpretation list_approval_requests: coordination_op "list_approval_requests now st n" for now st n
  by unfold_locales (simp add: list_approval_requests_def Let_def expire_approvals_legal)

interpretation list_run_approval_requests: coordination_op "list_run_approval_requests now i j n" for now i j n
  by unfold_locales (simp add: list_run_approval_requests_def Let_def expire_approvals_legal)

interpretation mark_attention_read: coordination_op "mark_attention_read now ids rd" for now ids rd
  unfolding mark_attention_read_def
  by unfold_locales (rule transaction_legal, auto simp: and_then_Inr_iff Let_def intro!: legalI evolves_other)

section \<open>The audit chain and request deduplication\<close>

definition events_of :: "string \<Rightarrow> store \<Rightarrow> audit_event list" where
  "events_of op s = filter (\<lambda>v. v_operation_id v = op) (audit s)"

text \<open>The sequence numbers of an operation have no gap.\<close>

lemma sequences_downward:
  assumes "db_ok s" "n \<in> v_sequence ` set (events_of op s)" "0 < m" "m \<le> n"
  shows "m \<in> v_sequence ` set (events_of op s)"
  using assms(4,2)
proof (induction n rule: int_ge_induct)
  case base
  then show ?case .
next
  case (step n)
  from step.prems obtain v where v: "v \<in> set (audit s)" "v_operation_id v = op" "v_sequence v = n + 1"
    by (auto simp: events_of_def)
  moreover have "chained (audit s) v" using assms(1) v(1) by (auto simp: db_ok_def audit_ok_def)
  ultimately obtain u where "u \<in> set (audit s)" "v_operation_id u = op" "v_sequence u = n"
    using assms(3) step.hyps by (auto simp: chained_def audit_key_def split: if_splits)
  then have "n \<in> v_sequence ` set (events_of op s)" by (auto simp: events_of_def)
  with step.IH show ?case by blast
qed

lemma sequences_complete:
  assumes "db_ok s"
  shows "v_sequence ` set (events_of op s) = {1..int (length (events_of op s))}"
proof -
  let ?S = "v_sequence ` set (events_of op s)"
  have pos: "\<forall>n\<in>?S. 0 < n" using assms by (auto simp: events_of_def db_ok_def audit_ok_def chained_def)
  have "distinct (map audit_key (events_of op s))"
    using assms by (auto simp: events_of_def db_ok_def audit_ok_def distinct_map_filter)
  then have "distinct (map v_sequence (events_of op s))"
    by (auto simp: events_of_def distinct_map inj_on_def audit_key_def)
  then have card: "card ?S = length (events_of op s)"
    by (metis distinct_card length_map list.set_map)
  show ?thesis
  proof (cases "events_of op s = []")
    case False
    define p where "p = Max ?S"
    have "finite ?S" "?S \<noteq> {}" using False by auto
    then have "p \<in> ?S" "\<forall>n\<in>?S. n \<le> p" unfolding p_def by (rule Max_in, simp)
    with sequences_downward [OF assms] pos have "?S = {1..p}" by force
    with card have "nat p = length (events_of op s)" by simp
    with \<open>p \<in> ?S\<close> pos have "p = int (length (events_of op s))" by force
    with \<open>?S = {1..p}\<close> show ?thesis by simp
  qed simp
qed

lemma latest_event_sequence:
  assumes "db_ok s"
  shows "(case latest_event op s of None \<Rightarrow> 0 | Some p \<Rightarrow> v_sequence p) = int (length (events_of op s))"
proof (cases "latest_event op s")
  case None
  then have "events_of op s = []" by (simp add: latest_event_None events_of_def filter_empty_conv)
  with None show ?thesis by simp
next
  case (Some p)
  note p = latest_event_Some [OF Some]
  have seqs: "v_sequence ` set (events_of op s) = {1..int (length (events_of op s))}" using assms by (rule sequences_complete)
  have "v_sequence p \<in> v_sequence ` set (events_of op s)" using p(1,2) by (auto simp: events_of_def)
  moreover have "\<forall>n\<in>v_sequence ` set (events_of op s). n \<le> v_sequence p" using p(3) by (auto simp: events_of_def)
  ultimately show ?thesis using Some unfolding seqs by (auto dest: bspec [where x = "int (length (events_of op s))"])
qed

text \<open>
  C29. The audit log of an operation is a gap-free hash chain. An append adds exactly one event and
  changes nothing else: its number is one more than the events the operation has, it names the
  hash of the event before it, its own hash is the SHA-256 of the canonical row, and the events
  of the operation are numbered from 1 without a gap afterwards.
\<close>
theorem append_policy_audit_event_chain:
  assumes ok: "db_ok s" and run: "append_policy_audit_event E u draft s = Inr s'"
  shows "\<exists>v. s' = s\<lparr>audit := audit s @ [v]\<rparr> \<and> v_operation_id v = strip (v_operation_id draft) \<and>
    v_event_sha256 v = sha256 E (canonical (audit_payload E v)) \<and>
    v_sequence v = int (length (events_of (v_operation_id v) s)) + 1 \<and>
    v_previous_sha256 v = map_option v_event_sha256 (List.find (\<lambda>w. v_sequence w = v_sequence v - 1) (events_of (v_operation_id v) s)) \<and>
    v_sequence ` set (events_of (v_operation_id v) s') = {1..int (length (events_of (v_operation_id v) s'))}"
proof -
  obtain v where v: "insert_audit v s = Inr s'" "next_event v s draft"
    "required_text (v_operation_id draft) ''policy operation_id'' = Inr (v_operation_id v)"
    "v_event_sha256 v = sha256 E (canonical (audit_payload E v))"
    using run by (rule append_inserts)
  have s': "s' = s\<lparr>audit := audit s @ [v]\<rparr>" using v(1) by (auto simp: insert_audit_def split: if_splits)
  have "legal s s'" using run by (rule append_policy_audit_event_legal)
  with ok have "db_ok s'" by (simp add: legal_def)
  let ?l = "latest_event (v_operation_id v) s"
  have seq: "v_sequence v = int (length (events_of (v_operation_id v) s)) + 1"
    using latest_event_sequence [OF ok, of "v_operation_id v"] v(2) by (auto simp: next_event_def split: option.splits)
  have prev: "?l = List.find (\<lambda>w. v_sequence w = v_sequence v - 1) (events_of (v_operation_id v) s)"
  proof (cases ?l)
    case None
    then show ?thesis by (simp add: latest_event_None events_of_def find_None_iff filter_empty_conv)
  next
    case (Some p)
    note p = latest_event_Some [OF Some]
    have "v_sequence p = v_sequence v - 1" using v(2) Some by (simp add: next_event_def)
    moreover have "p \<in> set (events_of (v_operation_id v) s)" using p by (simp add: events_of_def)
    moreover have "distinct (map v_sequence (events_of (v_operation_id v) s))"
      using ok by (auto simp: events_of_def distinct_map inj_on_def audit_key_def db_ok_def audit_ok_def)
    ultimately show ?thesis using Some row_by_distinct [of v_sequence "events_of (v_operation_id v) s" p]
      by (simp add: row_by_def)
  qed
  have op: "v_operation_id v = strip (v_operation_id draft)"
    using v(3) by (simp add: required_text_def Let_def split: if_splits)
  have "v_previous_sha256 v = map_option v_event_sha256 ?l" using v(2) by (simp add: next_event_def)
  then have hash: "v_previous_sha256 v = map_option v_event_sha256
      (List.find (\<lambda>w. v_sequence w = v_sequence v - 1) (events_of (v_operation_id v) s))" by (simp only: prev)
  show ?thesis
    using s' op v(4) seq hash sequences_complete [OF \<open>db_ok s'\<close>] by blast
qed
definition sample_draft :: audit_event where
  "sample_draft = resolution_event sample_env 20 sample_context sample_resolution pending_request"

theorem append_policy_audit_event_chain_witness:
  "\<exists>s' v. append_policy_audit_event sample_env ''8'' sample_draft running_store = Inr s' \<and>
     audit s' = [v] \<and> v_sequence v = 1 \<and> v_previous_sha256 v = None"
proof -
  have "\<not> isl (append_policy_audit_event sample_env ''8'' sample_draft running_store)" by code_simp
  then obtain s' where run: "append_policy_audit_event sample_env ''8'' sample_draft running_store = Inr s'"
    by (cases "append_policy_audit_event sample_env ''8'' sample_draft running_store") auto
  have "audit running_store = []" by code_simp
  with append_policy_audit_event_chain [OF sample_ok(2) run] run show ?thesis
    by (auto simp: events_of_def)
qed

lemma pending_keysI: "q \<in> set rs \<Longrightarrow> r_status q = ApprovalPending \<Longrightarrow> r_dedupe_key q \<in> set (pending_keys rs)"
  by (auto simp: pending_keys_def)

lemma pending_unique:
  assumes "db_ok s" "r \<in> set (requests s)" "q \<in> set (requests s)"
    "r_status r = ApprovalPending" "r_status q = ApprovalPending" "r_dedupe_key r = r_dedupe_key q"
  shows "r = q"
  using assms by (auto simp: db_ok_def requests_ok_def pending_keys_def distinct_map inj_on_def)

text \<open>
  C30. Pending requests are deduplicated by action and scope. A request that is still pending and not
  expired is returned instead of a second one, and nothing but the expiry of old requests is
  written; otherwise the new row is added. Either way the returned request is pending, and it is
  the only pending one with its key.
\<close>

theorem create_approval_request_deduplicates:
  assumes ok: "db_ok s" and row: "requested_row E now u res ctx ex = Inr row"
    and run: "create_approval_request E now u au res ctx ex s = (Inr r, s')"
  shows "r \<in> set (requests s') \<and> r_status r = ApprovalPending \<and> r_dedupe_key r = r_dedupe_key row \<and>
    (\<forall>q\<in>set (requests s'). r_status q = ApprovalPending \<and> r_dedupe_key q = r_dedupe_key row \<longrightarrow> q = r) \<and>
    (if \<exists>q\<in>set (requests s). r_status q = ApprovalPending \<and> r_dedupe_key q = r_dedupe_key row \<and> \<not> expired_by now q
     then r \<in> set (requests s) \<and> s' = expire_approvals now s
     else r = row \<and> requests s' = requests (expire_approvals now s) @ [row])"
proof -
  define s1 where "s1 = expire_approvals now s"
  have tx: "create_approval_request_tx E now u au res ctx ex s = Inr (r, s')"
    using run by (simp add: create_approval_request_def transaction_Inr_iff)
  then have "legal s s'" by (rule create_approval_request_tx_legal)
  with ok have ok': "db_ok s'" by (simp add: legal_def)
  have pending: "r_status row = ApprovalPending" using row by (auto simp: requested_row_def and_then_Inr_iff)
  have live: "q \<in> set (requests s1) \<and> r_status q = ApprovalPending \<longleftrightarrow>
      q \<in> set (requests s) \<and> r_status q = ApprovalPending \<and> \<not> expired_by now q" for q
    by (auto simp: s1_def set_upd_where expire_edit_def image_iff split: if_splits)
  have main: "r \<in> set (requests s') \<and> r_status r = ApprovalPending \<and> r_dedupe_key r = r_dedupe_key row \<and>
    (if \<exists>q\<in>set (requests s). r_status q = ApprovalPending \<and> r_dedupe_key q = r_dedupe_key row \<and> \<not> expired_by now q
     then r \<in> set (requests s) \<and> s' = s1 else r = row \<and> requests s' = requests s1 @ [row])"
  proof (cases "insert_request row s1")
    case (Inl e)
    then have "List.find (\<lambda>r. r_dedupe_key r = r_dedupe_key row \<and> r_status r = ApprovalPending) (requests s1) = Some r"
      and s': "s' = s1"
      using tx row by (auto simp: create_approval_request_tx_def s1_def [symmetric] and_then_Inr_iff Let_def)
    then have "r \<in> set (requests s1)" "r_dedupe_key r = r_dedupe_key row" "r_status r = ApprovalPending"
      by (auto dest: find_Some_member)
    with s' live [of r] show ?thesis by auto
  next
    case (Inr s2)
    then have reqs: "requests s2 = requests s1 @ [row]" and new: "r_id row \<notin> r_id ` set (requests s1)"
      and key: "r_dedupe_key row \<notin> set (pending_keys (requests s1))"
      using pending by (auto simp: insert_request_def split: if_splits)
    define s3 where "s3 = (if given (pc_job_id ctx)
      then update_jobs (\<lambda>j. j_id j = or_else (pc_job_id ctx) []) (link_edit now (r_id row)) s2 else s2)"
    have s': "audit_if_owned E au (pc_enforcement_owner ctx) (resolution_event E now ctx res row) s3 = Inr s'"
      and r: "row_by r_id (r_id row) (requests s') = Some r"
      using tx row Inr by (auto simp: create_approval_request_tx_def s1_def [symmetric] and_then_Inr_iff Let_def s3_def)
    have "requests s' = requests s1 @ [row]"
      using audit_if_owned_frame(3) [OF s'] reqs by (simp add: s3_def update_jobs_def)
    moreover have "r = row" using r calculation new by (simp add: row_by_append row_by_None_iff [THEN iffD2])
    moreover have "\<not> (\<exists>q\<in>set (requests s). r_status q = ApprovalPending \<and> r_dedupe_key q = r_dedupe_key row \<and> \<not> expired_by now q)"
    proof -
      have "\<forall>q\<in>set (requests s1). r_status q = ApprovalPending \<longrightarrow> r_dedupe_key q \<noteq> r_dedupe_key row"
        using key by (metis pending_keysI)
      then show ?thesis using live by blast
    qed
    ultimately show ?thesis using pending by auto
  qed
  then show ?thesis using pending_unique [OF ok'] unfolding s1_def by metis
qed

definition requested_store :: store where
  "requested_store =
     snd (create_approval_request sample_env 20 ''6'' ''6'' sample_resolution sample_context (Some 90) running_store)"

theorem create_approval_request_deduplicates_witness:
  "\<exists>r. create_approval_request sample_env 30 ''7'' ''8'' sample_resolution sample_context None requested_store
       = (Inr r, expire_approvals 30 requested_store) \<and> r \<in> set (requests requested_store)"
proof -
  let ?run = "create_approval_request sample_env 30 ''7'' ''8'' sample_resolution sample_context None requested_store"
  have "\<not> isl (requested_row sample_env 30 ''7'' sample_resolution sample_context None)" by code_simp
  then obtain row where row: "requested_row sample_env 30 ''7'' sample_resolution sample_context None = Inr row"
    by (cases "requested_row sample_env 30 ''7'' sample_resolution sample_context None") auto
  have "\<not> isl (fst ?run)" by code_simp
  then obtain r where run: "?run = (Inr r, snd ?run)" by (cases "fst ?run") (auto simp: prod_eq_iff)
  have ok: "db_ok requested_store"
    using create_approval_request.op_keeps_ok [OF sample_ok(2)] by (simp add: requested_store_def)
  have "list_ex (\<lambda>q. r_status q = ApprovalPending \<and> r_dedupe_key q = sha256 sample_env (scope_identity sample_resolution sample_context)
      \<and> \<not> expired_by 30 q) (requests requested_store)" by code_simp
  moreover have "r_dedupe_key row = sha256 sample_env (scope_identity sample_resolution sample_context)"
    using row by (auto simp: requested_row_def and_then_Inr_iff)
  ultimately have "\<exists>q\<in>set (requests requested_store). r_status q = ApprovalPending \<and> r_dedupe_key q = r_dedupe_key row
      \<and> \<not> expired_by 30 q" by (auto simp: list_ex_iff)
  with create_approval_request_deduplicates [OF ok row run] run show ?thesis by (metis (no_types, lifting))
qed

end
