(* ===== verification/Decisions.thy ===== *)
theory Decisions
  imports Approvals
begin

text \<open>
  Decisions on approval requests and the consumption of grants
  (\<open>runtime/approvals/decisions.py\<close>), with \<open>_approval_once_scope\<close> of
  \<open>runtime/repositories/records.py\<close>. The repository is the grant store of the policy engine:
  it interprets the locale \<open>grant_store\<close>.
\<close>

section \<open>Decisions\<close>

text \<open>What a grant covers: scope type and id, uses left, expiry.\<close>

type_synonym grant_scope = "string \<times> string \<times> int option \<times> time option"

definition approval_once_scope :: "approval_request \<Rightarrow> (string \<times> string) result" where
  "approval_once_scope r =
     (if given (r_job_id r) then Inr (''job'', or_else (r_job_id r) [])
      else if given (r_run_id r) then Inr (''run'', or_else (r_run_id r) [])
      else if given (r_project_id r) then Inr (''project'', or_else (r_project_id r) [])
      else Inl (ValueError ''allow-once approval requires a job, run, or project scope''))"

fun decision_grant :: "time \<Rightarrow> int option \<Rightarrow> approval_decision \<Rightarrow> approval_request \<Rightarrow> grant_scope option result" where
  "decision_grant now expiry ALLOW_ONCE r =
     and_then (approval_once_scope r) (\<lambda>sc. Inr (Some (fst sc, snd sc, Some 1, None)))"
| "decision_grant now expiry ALLOW_RUN r =
     (if given (r_run_id r) then Inr (Some (''run'', or_else (r_run_id r) [], None, None))
      else Inl (ValueError ''run-scoped approval requires a run''))"
| "decision_grant now expiry ALLOW_SESSION r =
     (if given (r_session_id r) then Inr (Some (''session'', or_else (r_session_id r) [], None, None))
      else Inl (ValueError ''session-scoped approval requires a session''))"
| "decision_grant now expiry ALLOW_PROJECT r =
     (if \<not> given (r_project_id r) then Inl (ValueError ''project-scoped approval requires a project'')
      else case expiry of
          None \<Rightarrow> Inl (ValueError ''project-scoped approval requires a positive expiry'')
        | Some d \<Rightarrow> if d \<le> 0 then Inl (ValueError ''project-scoped approval requires a positive expiry'')
            else Inr (Some (''project'', or_else (r_project_id r) [], None, Some (future_time now d))))"
| "decision_grant now expiry DENY_APPROVAL r = Inr None"

definition decided_status :: "approval_decision \<Rightarrow> approval_status" where
  "decided_status d = (if d = DENY_APPROVAL then ApprovalDenied else ApprovalApproved)"

definition decide_edit :: "time \<Rightarrow> approval_decision \<Rightarrow> approval_request \<Rightarrow> approval_request" where
  "decide_edit now d r = r\<lparr>r_status := decided_status d, r_decision := Some d, r_decided_at := Some now\<rparr>"

definition granted_row :: "time \<Rightarrow> string \<Rightarrow> approval_request \<Rightarrow> grant_scope \<Rightarrow> approval_grant" where
  "granted_row now uuid r sc = (case sc of (scope_type, scope_id, uses, expires) \<Rightarrow>
     \<lparr>g_id = new_id ''grant'' uuid, g_request_id = r_id r, g_action = r_action r,
      g_scope_type = scope_type, g_scope_id = scope_id, g_created_at = now, g_expires_at = expires,
      g_uses_remaining = uses\<rparr>)"

definition decision_event :: "time \<Rightarrow> approval_decision \<Rightarrow> string option \<Rightarrow> approval_request \<Rightarrow> audit_event" where
  "decision_event now d grant_id r = \<lparr>v_id = [], v_operation_id = r_id r, v_sequence = 0,
     v_action = r_action r, v_phase = DECISION, v_decision = approval_decision_value d,
     v_enforcement = r_enforcement r, v_enforcement_owner = or_else (r_enforcement_owner r) [],
     v_policy_source = r_policy_source r, v_approval_request_id = r_id r,
     v_approval_grant_id = grant_id, v_binding = approval_preview_binding (r_preview r),
     v_project_id = r_project_id r, v_session_id = r_session_id r, v_run_id = r_run_id r,
     v_job_id = r_job_id r,
     v_evidence = JObj [(''approval_status'', JStr (approval_status_value (decided_status d)))],
     v_previous_sha256 = None, v_event_sha256 = [], v_created_at = now\<rparr>"

definition release_edit :: "time \<Rightarrow> bool \<Rightarrow> int \<Rightarrow> job \<Rightarrow> job" where
  "release_edit now denied next_version j = j\<lparr>
     j_status := (if denied then JobCanceled else JobQueued),
     j_available_at := Some now,
     j_terminal_at := (if denied then Some now else None),
     j_error_summary := (if denied then Some ''approval denied'' else None),
     j_updated_at := now, j_approval_request_id := None, j_version := next_version\<rparr>"

text \<open>The outcome for the job that waits for the decision; the flag asks to wake the workers.\<close>

definition release_job :: "time \<Rightarrow> string \<Rightarrow> bool \<Rightarrow> approval_request \<Rightarrow> store \<Rightarrow> bool \<times> store" where
  "release_job now outbox_uuid denied r s =
     (if \<not> given (r_job_id r) then (False, s)
      else case job_by (or_else (r_job_id r) []) s of
        None \<Rightarrow> (False, s)
      | Some job \<Rightarrow>
          if j_status job = JobWaitingApproval then
            let s1 = update_jobs (\<lambda>j. j_id j = j_id job \<and> j_version j = j_version job)
                       (release_edit now denied (j_version job + 1)) s
            in (\<not> denied,
                if denied then enqueue_terminal_sync outbox_uuid now (j_id job) JobCanceled
                       (j_version job + 1) (j_session_id job) None s1
                else s1)
          else (False, s))"

text \<open>The ids drawn in one decision.\<close>

record decision_ids =
  d_grant :: string
  d_audit :: string
  d_outbox :: string

definition add_grant ::
    "time \<Rightarrow> string \<Rightarrow> approval_request \<Rightarrow> grant_scope option \<Rightarrow> store \<Rightarrow> (string option \<times> store) result" where
  "add_grant now uuid request scope s =
     (case scope of
        None \<Rightarrow> Inr (None, s)
      | Some sc \<Rightarrow> and_then (insert_grant (granted_row now uuid request sc) s)
          (\<lambda>s'. Inr (Some (g_id (granted_row now uuid request sc)), s')))"

definition decide_approval_request_tx ::
    "env \<Rightarrow> time \<Rightarrow> decision_ids \<Rightarrow> string \<Rightarrow> approval_decision \<Rightarrow> int option
     \<Rightarrow> store \<Rightarrow> ((approval_request \<times> bool) \<times> store) result" where
  "decide_approval_request_tx E now ids request_id d expiry s =
     (let s0 = expire_approvals now s in
     and_then (fetch (KeyError request_id) (row_by r_id request_id (requests s0))) (\<lambda>request.
     and_then (guard (r_status request = ApprovalPending) (InvalidStateTransitionError request_id)) (\<lambda>_.
     and_then (guard (approval_preview_binding (r_preview request) = None \<or> d \<in> {ALLOW_ONCE, DENY_APPROVAL})
       (ValueError ''Hash-bound approvals can only be allowed once or denied'')) (\<lambda>_.
     and_then (decision_grant now expiry d request) (\<lambda>scope.
       let P = (\<lambda>r. r_id r = request_id \<and> r_status r = ApprovalPending);
           s1 = update_requests P (decide_edit now d) s0
       in and_then (guard (changes P (requests s0) = 1) (ConcurrentUpdateError request_id)) (\<lambda>_.
          and_then (add_grant now (d_grant ids) request scope s1) (\<lambda>granted.
          and_then (audit_if_owned E (d_audit ids) (r_enforcement_owner request)
              (decision_event now d (fst granted) request) (snd granted)) (\<lambda>s3.
            let released = release_job now (d_outbox ids) (d = DENY_APPROVAL) request s3
            in and_then (fetch (KeyError request_id) (row_by r_id request_id (requests (snd released)))) (\<lambda>updated.
                 Inr ((updated, fst released), snd released))))))))))"

definition decide_approval_request ::
    "env \<Rightarrow> time \<Rightarrow> decision_ids \<Rightarrow> string \<Rightarrow> approval_decision \<Rightarrow> int option \<Rightarrow> approval_request op" where
  "decide_approval_request E now ids request_id d expiry s =
     waking (transaction (decide_approval_request_tx E now ids request_id d expiry) s)"

section \<open>Grants\<close>

definition grant_scopes :: "grant_query \<Rightarrow> (string \<times> string) list" where
  "grant_scopes q = List.map_filter (\<lambda>(kind, value). map_option (Pair kind) (optional_text value))
     [(''job'', gq_job_id q), (''run'', gq_run_id q), (''session'', gq_session_id q), (''project'', gq_project_id q)]"

definition usable_grant :: "time \<Rightarrow> grant_query \<Rightarrow> approval_grant \<Rightarrow> bool" where
  "usable_grant now q g = (g_action g = gq_action q
     \<and> (g_scope_type g, g_scope_id g) \<in> set (grant_scopes q)
     \<and> (case g_expires_at g of None \<Rightarrow> True | Some t \<Rightarrow> now < t)
     \<and> (case g_uses_remaining g of None \<Rightarrow> True | Some n \<Rightarrow> 0 < n))"

definition scope_rank :: "string \<Rightarrow> nat" where
  "scope_rank kind = (if kind = ''job'' then 0 else if kind = ''run'' then 1
     else if kind = ''session'' then 2 else 3)"

definition query_binding :: "env \<Rightarrow> grant_query \<Rightarrow> string option result" where
  "query_binding E q = (if given (gq_approval_binding q)
     then and_then (approval_binding_digest E (or_else (gq_approval_binding q) [])) (\<lambda>h. Inr (Some h))
     else Inr None)"

text \<open>The request of a grant agrees with the query on the binding and the enforcement owner.\<close>

definition request_agrees :: "string option \<Rightarrow> grant_query \<Rightarrow> approval_request list \<Rightarrow> approval_grant \<Rightarrow> bool" where
  "request_agrees binding q rs g = (case row_by r_id (g_request_id g) rs of
     None \<Rightarrow> False
   | Some r \<Rightarrow> approval_preview_binding (r_preview r) = binding
       \<and> optional_text (r_enforcement_owner r) = optional_text (gq_enforcement_owner q))"

definition matching_grant :: "time \<Rightarrow> string option \<Rightarrow> grant_query \<Rightarrow> store \<Rightarrow> approval_grant option" where
  "matching_grant now binding q s = List.find (request_agrees binding q (requests s))
     (order_by (\<lambda>g. (scope_rank (g_scope_type g), - g_created_at g)) (filter (usable_grant now q) (grants s)))"

definition enforcement_event :: "time \<Rightarrow> string option \<Rightarrow> grant_query \<Rightarrow> approval_grant \<Rightarrow> approval_request \<Rightarrow> audit_event" where
  "enforcement_event now binding q g r = \<lparr>v_id = [], v_operation_id = g_request_id g, v_sequence = 0,
     v_action = gq_action q, v_phase = ENFORCEMENT, v_decision = policy_decision_value ALLOW,
     v_enforcement = r_enforcement r, v_enforcement_owner = or_else (gq_enforcement_owner q) [],
     v_policy_source = r_policy_source r, v_approval_request_id = g_request_id g,
     v_approval_grant_id = Some (g_id g), v_binding = binding,
     v_project_id = optional_text (r_project_id r), v_session_id = optional_text (r_session_id r),
     v_run_id = optional_text (r_run_id r), v_job_id = optional_text (r_job_id r),
     v_evidence = JObj [(''scope_type'', JStr (g_scope_type g)), (''scope_id'', JStr (g_scope_id g))],
     v_previous_sha256 = None, v_event_sha256 = [], v_created_at = now\<rparr>"

definition use_edit :: "approval_grant \<Rightarrow> approval_grant" where
  "use_edit g = g\<lparr>g_uses_remaining := map_option (\<lambda>n. n - 1) (g_uses_remaining g)\<rparr>"

definition use_target :: "string \<Rightarrow> approval_grant \<Rightarrow> bool" where
  "use_target i g = (g_id g = i \<and> (case g_uses_remaining g of None \<Rightarrow> False | Some n \<Rightarrow> 0 < n))"

definition use_grant :: "approval_grant \<Rightarrow> store \<Rightarrow> store" where
  "use_grant g s = (if g_uses_remaining g = None then s
     else s\<lparr>grants := upd_where (use_target (g_id g)) use_edit (grants s)\<rparr>)"

definition consume_grant_tx :: "env \<Rightarrow> time \<Rightarrow> string \<Rightarrow> string option \<Rightarrow> grant_query \<Rightarrow> store \<Rightarrow> (bool \<times> store) result" where
  "consume_grant_tx E now audit_uuid binding q s =
     (case matching_grant now binding q s of
        None \<Rightarrow> Inr (False, s)
      | Some g \<Rightarrow>
          let s1 = use_grant g s in
          if g_uses_remaining g \<noteq> None \<and> changes (use_target (g_id g)) (grants s) \<noteq> 1 then Inr (False, s1)
          else and_then (fetch (KeyError (g_request_id g)) (row_by r_id (g_request_id g) (requests s1))) (\<lambda>r.
               and_then (audit_if_owned E audit_uuid (gq_enforcement_owner q) (enforcement_event now binding q g r) s1)
                 (\<lambda>s2. Inr (True, s2))))"

definition consume_matching_approval_grant :: "env \<Rightarrow> time \<Rightarrow> string \<Rightarrow> grant_query \<Rightarrow> bool op" where
  "consume_matching_approval_grant E now audit_uuid q s =
     (if grant_scopes q = [] then (Inr False, s)
      else case query_binding E q of
        Inl e \<Rightarrow> (Inl e, s)
      | Inr binding \<Rightarrow> transaction (consume_grant_tx E now audit_uuid binding q) s)"

definition list_approval_grants :: "store \<Rightarrow> approval_grant list" where
  "list_approval_grants s = order_by (\<lambda>g. (g_created_at g, g_id g)) (grants s)"

definition list_policy_audit_events :: "string option \<Rightarrow> string option \<Rightarrow> int \<Rightarrow> store \<Rightarrow> audit_event list result" where
  "list_policy_audit_events operation_id run_id limit s =
     and_then (case operation_id of None \<Rightarrow> Inr None
               | Some i \<Rightarrow> and_then (required_text i ''operation_id'') (\<lambda>t. Inr (Some t))) (\<lambda>operation.
     and_then (case run_id of None \<Rightarrow> Inr None
               | Some i \<Rightarrow> and_then (required_text i ''run_id'') (\<lambda>t. Inr (Some t))) (\<lambda>run.
       let rows = filter (\<lambda>v. (operation = None \<or> Some (v_operation_id v) = operation)
             \<and> (run = None \<or> v_run_id v = run)) (audit s)
       in Inr (take (nat (max 1 (min limit 1000)))
            (if operation \<noteq> None then order_by v_sequence rows
             else order_by (\<lambda>v. (v_created_at v, v_operation_id v, v_sequence v)) rows))))"

section \<open>Contracts\<close>

lemma decide_edit_legal:
  "legal s (update_requests (\<lambda>r. r_id r = i \<and> r_status r = ApprovalPending) (decide_edit now d) s)"
  by (rule update_requests_legal) (simp add: request_edit_def decide_edit_def decided_status_def)

lemma decision_grant_uses:
  "decision_grant now expiry d r = Inr (Some (kind, i, uses, ex)) \<Longrightarrow> uses = None \<or> uses = Some 1"
  by (cases d) (auto simp: and_then_Inr_iff split: if_splits option.splits)

lemma release_edit_legal: "legal s (update_jobs (\<lambda>j. j_id j = i \<and> j_version j = v) (release_edit now denied (v + 1)) s)"
  by (rule update_jobs_legal) (auto simp: release_edit_def job_edit_def job_key_def job_lifecycle_def)

lemma release_job_legal: "legal s (snd (release_job now ou denied r s))"
  by (auto simp: release_job_def Let_def release_edit_legal split: option.splits
      intro: legal_trans [OF release_edit_legal enqueue_terminal_sync_legal])

lemma release_job_frame [simp]:
  "requests (snd (release_job now ou denied r s)) = requests s"
  "grants (snd (release_job now ou denied r s)) = grants s"
  "audit (snd (release_job now ou denied r s)) = audit s"
  "attempts (snd (release_job now ou denied r s)) = attempts s"
  by (simp_all add: release_job_def Let_def split: option.split)

text \<open>The stages of a committed decision.\<close>

lemma decide_tx_stages:
  assumes "decide_approval_request_tx E now ids i d expiry s = Inr ((r', wake), s')"
  obtains r scope g s1 s3 where
    "row_by r_id i (requests (expire_approvals now s)) = Some r" "r_status r = ApprovalPending"
    "approval_preview_binding (r_preview r) = None \<or> d \<in> {ALLOW_ONCE, DENY_APPROVAL}"
    "decision_grant now expiry d r = Inr scope"
    "s1 = update_requests (\<lambda>r. r_id r = i \<and> r_status r = ApprovalPending) (decide_edit now d) (expire_approvals now s)"
    "add_grant now (d_grant ids) r scope s1 = Inr g"
    "audit_if_owned E (d_audit ids) (r_enforcement_owner r) (decision_event now d (fst g) r) (snd g) = Inr s3"
    "s' = snd (release_job now (d_outbox ids) (d = DENY_APPROVAL) r s3)"
    "wake = fst (release_job now (d_outbox ids) (d = DENY_APPROVAL) r s3)"
    "row_by r_id i (requests s') = Some r'"
  using assms unfolding decide_approval_request_tx_def Let_def and_then_Inr_iff fetch_Inr guard_Inr
  by (elim exE conjE) (rule that, assumption, assumption, assumption, assumption, rule refl, assumption, assumption, auto simp del: release_job_frame)


lemma add_grant_legal:
  assumes "add_grant now u r scope s = Inr g" "decision_grant now' expiry d r' = Inr scope"
    "d \<noteq> DENY_APPROVAL \<Longrightarrow> approved (r_id r) (requests s)"
  shows "legal s (snd g)"
proof (cases scope)
  case None
  with assms(1) show ?thesis by (auto simp: add_grant_def)
next
  case (Some sc)
  obtain kind i uses ex where sc: "sc = (kind, i, uses, ex)" by (cases sc)
  have "uses = None \<or> uses = Some 1" using assms(2) Some sc by (auto dest: decision_grant_uses)
  then have "case g_uses_remaining (granted_row now u r sc) of None \<Rightarrow> True | Some n \<Rightarrow> 0 \<le> n"
    by (auto simp: granted_row_def sc)
  moreover obtain s' where "insert_grant (granted_row now u r sc) s = Inr s'" "snd g = s'"
    using assms(1) Some by (auto simp: add_grant_def and_then_Inr_iff)
  moreover have "d \<noteq> DENY_APPROVAL" using assms(2) Some by auto
  then have "approved (g_request_id (granted_row now u r sc)) (requests s)"
    using assms(3) by (simp add: granted_row_def sc)
  ultimately show ?thesis by (simp add: insert_grant_legal)
qed

lemma decide_approves:
  assumes "row_by r_id i (requests s) = Some r" "r_status r = ApprovalPending" "d \<noteq> DENY_APPROVAL"
  shows "approved (r_id r) (requests (update_requests (\<lambda>r. r_id r = i \<and> r_status r = ApprovalPending) (decide_edit now d) s))"
proof -
  note r = row_by_SomeD [OF assms(1)] row_by_key [OF assms(1)]
  have "decide_edit now d r \<in> set (upd_where (\<lambda>r. r_id r = i \<and> r_status r = ApprovalPending) (decide_edit now d) (requests s))"
    using r assms(2) by (auto simp: set_upd_where image_iff intro: bexI [of _ r])
  then show ?thesis using assms(3)
    by (auto simp: approved_def update_requests_def decide_edit_def decided_status_def intro!: bexI [of _ "decide_edit now d r"])
qed

lemma decide_approval_request_tx_legal:
  assumes "decide_approval_request_tx E now ids i d expiry s = Inr (r, s')"
  shows "legal s s'"
proof -
  obtain r' wake where "r = (r', wake)" by (cases r)
  with assms have tx: "decide_approval_request_tx E now ids i d expiry s = Inr ((r', wake), s')" by simp
  show ?thesis
  proof (rule decide_tx_stages [OF tx])
    fix r scope g s1 s3
    assume r: "row_by r_id i (requests (expire_approvals now s)) = Some r" "r_status r = ApprovalPending"
      and "decision_grant now expiry d r = Inr scope"
      and s1: "s1 = update_requests (\<lambda>r. r_id r = i \<and> r_status r = ApprovalPending) (decide_edit now d) (expire_approvals now s)"
      and "add_grant now (d_grant ids) r scope s1 = Inr g"
      and s3: "audit_if_owned E (d_audit ids) (r_enforcement_owner r) (decision_event now d (fst g) r) (snd g) = Inr s3"
      and s': "s' = snd (release_job now (d_outbox ids) (d = DENY_APPROVAL) r s3)"
    moreover have "approved (r_id r) (requests s1)" if "d \<noteq> DENY_APPROVAL"
      unfolding s1 using r that by (rule decide_approves)
    ultimately have "legal s1 (snd g)" by (blast intro: add_grant_legal)
    moreover have "legal s (expire_approvals now s)" by (rule expire_approvals_legal)
    moreover have "legal (expire_approvals now s) s1" unfolding s1 by (rule decide_edit_legal)
    moreover have "legal (snd g) s3" using s3 by (rule audit_if_owned_legal)
    moreover have "legal s3 s'" unfolding s' by (rule release_job_legal)
    ultimately show "legal s s'" by (blast intro: legal_trans)
  qed
qed

interpretation decide_approval_request: coordination_op "decide_approval_request E now ids i d expiry"
  for E now ids i d expiry
  by unfold_locales
    (auto simp: decide_approval_request_def intro!: waking_legal transaction_legal dest: decide_approval_request_tx_legal)

lemma use_edit_next: "use_target i g \<Longrightarrow> grant_next g (use_edit g) \<and> (case g_uses_remaining (use_edit g) of None \<Rightarrow> True | Some n \<Rightarrow> 0 \<le> n)"
  by (auto simp: use_target_def use_edit_def grant_next_def split: option.splits)

lemma use_grant_legal: "legal s (use_grant g s)"
  unfolding use_grant_def by (auto intro!: update_grants_legal use_edit_next)

lemma consume_grant_tx_legal: "consume_grant_tx E now u binding q s = Inr (r, s') \<Longrightarrow> legal s s'"
  by (auto simp: consume_grant_tx_def Let_def and_then_Inr_iff use_grant_legal
      split: option.splits if_splits intro: legal_trans [OF use_grant_legal audit_if_owned_legal])

lemma consume_legal: "legal s (snd (consume_matching_approval_grant E now u q s))"
  by (auto simp: consume_matching_approval_grant_def intro!: transaction_legal dest: consume_grant_tx_legal split: sum.splits)

interpretation consume_matching_approval_grant: coordination_op "consume_matching_approval_grant E now u q"
  for E now u q
  by unfold_locales (rule consume_legal)

text \<open>The grant that covers a query, when the query is well formed.\<close>

definition covering_grant :: "env \<Rightarrow> time \<Rightarrow> store \<Rightarrow> grant_query \<Rightarrow> approval_grant option" where
  "covering_grant E now s q = (case query_binding E q of Inl e \<Rightarrow> None | Inr binding \<Rightarrow> matching_grant now binding q s)"

lemma matching_grantD:
  assumes "matching_grant now binding q s = Some g"
  shows "g \<in> set (grants s)" "usable_grant now q g" "request_agrees binding q (requests s) g"
  using find_Some_member [OF assms [unfolded matching_grant_def]] by auto

lemma use_target_changes:
  assumes "db_ok s" "g \<in> set (grants s)" "use_target (g_id g) g"
  shows "changes (use_target (g_id g)) (grants s) = 1"
  using changes_unique [OF db_ok_grants [OF assms(1)], of "g_id g" "\<lambda>g. case g_uses_remaining g of None \<Rightarrow> False | Some n \<Rightarrow> 0 < n"]
    row_by_distinct [OF db_ok_grants [OF assms(1)] assms(2)] assms(3)
  by (simp add: use_target_def [abs_def])

lemma consume_tx_refused:
  assumes "db_ok s" "consume_grant_tx E now u binding q s = Inr (False, s')"
  shows "s' = s"
proof (cases "matching_grant now binding q s")
  case None
  with assms show ?thesis by (simp add: consume_grant_tx_def)
next
  case (Some g)
  note g = matching_grantD [OF Some]
  have "changes (use_target (g_id g)) (grants s) = 1" if "g_uses_remaining g \<noteq> None"
    using use_target_changes [OF assms(1) g(1)] g(2) that
    by (auto simp: use_target_def usable_grant_def)
  with assms(2) Some show ?thesis
    by (auto simp: consume_grant_tx_def Let_def and_then_Inr_iff split: if_splits)
qed

interpretation approvals: grant_store "consume_matching_approval_grant E now u"
  "\<lambda>s q. covering_grant E now s q \<noteq> None" db_ok for E now u
proof unfold_locales
  fix s s' q assume "db_ok s" "consume_matching_approval_grant E now u q s = (Inr False, s')"
  then show "s' = s"
    by (auto simp: consume_matching_approval_grant_def transaction_Inr_iff split: if_splits sum.splits dest: consume_tx_refused)
next
  fix s s' e q assume "consume_matching_approval_grant E now u q s = (Inl e, s')"
  then show "s' = s"
    by (auto simp: consume_matching_approval_grant_def transaction_Inl_iff split: if_splits sum.splits)
next
  fix s s' q assume "consume_matching_approval_grant E now u q s = (Inr True, s')"
  then show "covering_grant E now s q \<noteq> None"
    by (auto simp: consume_matching_approval_grant_def covering_grant_def consume_grant_tx_def transaction_Inr_iff
        split: if_splits sum.splits option.splits)
next
  fix s q assume "db_ok s"
  then show "db_ok (snd (consume_matching_approval_grant E now u q s))" using consume_legal by (auto simp: legal_def)
qed

section \<open>Decisions and grants are fail-closed\<close>

lemma decide_run_stages:
  assumes "decide_approval_request E now ids i d expiry s = (Inr r', s'')"
  obtains s' wake where "decide_approval_request_tx E now ids i d expiry s = Inr ((r', wake), s')"
    "s'' = (if wake then wake_workers s' else s')"
  using assms by (auto simp: decide_approval_request_def waking_Inr_iff transaction_Inr_iff)

text \<open>The pending row the decision found was not expired, and it is now decided.\<close>

lemma decided_row:
  assumes "row_by r_id i (requests (expire_approvals now s)) = Some r" "r_status r = ApprovalPending"
  shows "row_by r_id i (requests s) = Some r \<and> \<not> expired_by now r"
proof -
  have *: "row_by r_id i (requests (expire_approvals now s))
      = map_option (\<lambda>r. if expired_by now r then expire_edit r else r) (row_by r_id i (requests s))"
    by (simp add: row_by_upd_where expire_edit_def)
  from assms(1) obtain r0 where "row_by r_id i (requests s) = Some r0" "r = (if expired_by now r0 then expire_edit r0 else r0)"
    unfolding * by auto
  with assms(2) show ?thesis by (cases "expired_by now r0") (simp_all add: expire_edit_def)
qed

lemma add_grant_stage:
  assumes "add_grant now u r scope s = Inr g"
  shows "requests (snd g) = requests s \<and> jobs (snd g) = jobs s \<and> outbox (snd g) = outbox s \<and> attempts (snd g) = attempts s
    \<and> grants (snd g) = grants s @ (case scope of None \<Rightarrow> [] | Some sc \<Rightarrow> [granted_row now u r sc])"
  using assms by (auto simp: add_grant_def and_then_Inr_iff insert_grant_def split: option.splits if_splits)

lemma add_grant_wakes: "add_grant now u r scope s = Inr g \<Longrightarrow> wakes (snd g) = wakes s"
  by (auto simp: add_grant_def and_then_Inr_iff insert_grant_def split: option.splits if_splits)

lemma audit_if_owned_wakes: "audit_if_owned E u owner draft s = Inr s' \<Longrightarrow> wakes s' = wakes s"
  by (auto simp: audit_if_owned_def append_policy_audit_event_def and_then_Inr_iff Let_def insert_audit_def split: if_splits)

text \<open>
  C9. Decisions are fail-closed. If a decision is recorded, the request was pending and had not
  expired at that instant; a request bound to a content hash was allowed once or denied, never
  more broadly; it carries the decision from then on, and the decision grants at most its own
  action: a denial adds no grant, an approval adds exactly one, for the action of this request,
  for a single use when it is allowed once.
\<close>

theorem decide_approval_request_guarded:
  assumes run: "decide_approval_request E now ids i d expiry s = (Inr r', s')"
  shows "\<exists>r. row_by r_id i (requests s) = Some r \<and> r_status r = ApprovalPending \<and> \<not> expired_by now r \<and>
    (approval_preview_binding (r_preview r) = None \<or> d = ALLOW_ONCE \<or> d = DENY_APPROVAL) \<and>
    r' = decide_edit now d r \<and> row_by r_id i (requests s') = Some r' \<and>
    (if d = DENY_APPROVAL then grants s' = grants s
     else \<exists>g. grants s' = grants s @ [g] \<and> g_request_id g = i \<and> g_action g = r_action r \<and>
       (d = ALLOW_ONCE \<longrightarrow> g_uses_remaining g = Some 1))"
proof -
  obtain t wake where tx: "decide_approval_request_tx E now ids i d expiry s = Inr ((r', wake), t)"
    and s': "s' = (if wake then wake_workers t else t)" using run by (rule decide_run_stages)
  obtain r scope g s1 s3 where
    r: "row_by r_id i (requests (expire_approvals now s)) = Some r" "r_status r = ApprovalPending"
    and bind: "approval_preview_binding (r_preview r) = None \<or> d \<in> {ALLOW_ONCE, DENY_APPROVAL}"
    and scope: "decision_grant now expiry d r = Inr scope"
    and s1: "s1 = update_requests (\<lambda>r. r_id r = i \<and> r_status r = ApprovalPending) (decide_edit now d) (expire_approvals now s)"
    and g: "add_grant now (d_grant ids) r scope s1 = Inr g"
    and s3: "audit_if_owned E (d_audit ids) (r_enforcement_owner r) (decision_event now d (fst g) r) (snd g) = Inr s3"
    and t: "t = snd (release_job now (d_outbox ids) (d = DENY_APPROVAL) r s3)"
    and r': "row_by r_id i (requests t) = Some r'"
    using tx by (rule decide_tx_stages)
  have r0: "row_by r_id i (requests s) = Some r \<and> \<not> expired_by now r" using r by (rule decided_row)
  note frame = audit_if_owned_frame [OF s3] add_grant_stage [OF g]
  have "requests t = requests s1" using frame by (simp add: t)
  moreover have "row_by r_id i (requests s1) = Some (decide_edit now d r)"
    unfolding s1 update_requests_def
    using row_by_updated [OF r(1), where P = "\<lambda>r. r_id r = i \<and> r_status r = ApprovalPending" and f = "decide_edit now d"]
      row_by_key [OF r(1)] r(2) by (simp add: decide_edit_def)
  ultimately have "r' = decide_edit now d r" using r' by simp
  moreover have "grants t = grants s @ (case scope of None \<Rightarrow> [] | Some sc \<Rightarrow> [granted_row now (d_grant ids) r sc])"
    using frame by (simp add: t s1 update_requests_def)
  moreover have "if d = DENY_APPROVAL then scope = None else \<exists>sc. scope = Some sc \<and> (d = ALLOW_ONCE \<longrightarrow> fst (snd (snd sc)) = Some 1)"
    using scope by (cases d) (auto simp: and_then_Inr_iff split: if_splits option.splits)
  moreover have "grants s' = grants t" "requests s' = requests t" by (simp_all add: s')
  ultimately show ?thesis using r0 r(2) bind r' row_by_key [OF r(1)]
    by (intro exI [of _ r]) (auto simp: granted_row_def split: if_splits)
qed

definition sample_ids :: decision_ids where
  "sample_ids = \<lparr>d_grant = ''7'', d_audit = ''8'', d_outbox = ''9''\<rparr>"

theorem decide_approval_request_guarded_witness:
  "\<exists>r s' g. decide_approval_request sample_env 20 sample_ids ''approval_1'' ALLOW_ONCE None waiting_store = (Inr r, s')
     \<and> r_status r = ApprovalApproved \<and> grants s' = [g] \<and> g_uses_remaining g = Some 1"
proof -
  let ?run = "decide_approval_request sample_env 20 sample_ids ''approval_1'' ALLOW_ONCE None waiting_store"
  have "\<not> isl (fst ?run)" by code_simp
  then obtain r where run: "?run = (Inr r, snd ?run)" by (cases "fst ?run") (auto simp: prod_eq_iff)
  have none: "grants waiting_store = []" by code_simp
  from decide_approval_request_guarded [OF run] obtain q g where
    "r = decide_edit 20 ALLOW_ONCE q" "grants (snd ?run) = [g]" "g_uses_remaining g = Some 1"
    by (auto simp: none)
  with run show ?thesis
    by (intro exI [of _ r] exI [of _ "snd ?run"] exI [of _ g]) (simp add: decide_edit_def decided_status_def)
qed

text \<open>
  C27. A decision releases the job that waits for it. If the request names a job that is waiting for
  an approval, the job is queued and available at once when the request is approved, and the
  workers are woken; when it is denied the job is canceled and the outbox holds the terminal
  entry of its new version. No other job changes, and a job that does not wait any more is left
  alone.
\<close>

theorem decide_approval_request_releases:
  assumes ok: "db_ok s" and run: "decide_approval_request E now ids i d expiry s = (Inr r', s')"
    and job: "r_job_id r' = Some k" "job_by k s = Some j"
    and fresh: "k \<noteq> []" "new_id ''outbox'' (d_outbox ids) \<notin> o_id ` set (outbox s)"
  shows "if j_status j \<noteq> JobWaitingApproval then jobs s' = jobs s \<and> outbox s' = outbox s \<and> wakes s' = wakes s
    else (\<exists>j'. job_by k s' = Some j' \<and> jobs s' = map (\<lambda>x. if x = j then j' else x) (jobs s) \<and>
      j_version j' = j_version j + 1 \<and> j_approval_request_id j' = None \<and>
      (if d = DENY_APPROVAL
       then j_status j' = JobCanceled \<and> j_terminal_at j' = Some now \<and> wakes s' = wakes s
         \<and> ''job:'' @ k @ '':terminal:'' @ show_int (j_version j + 1) \<in> o_dedupe_key ` set (outbox s')
       else j_status j' = JobQueued \<and> j_available_at j' = Some now \<and> wakes s' = Suc (wakes s)))"
proof -
  obtain t wake where tx: "decide_approval_request_tx E now ids i d expiry s = Inr ((r', wake), t)"
    and s': "s' = (if wake then wake_workers t else t)" using run by (rule decide_run_stages)
  obtain r scope g s1 s3 where
    r: "row_by r_id i (requests (expire_approvals now s)) = Some r" "r_status r = ApprovalPending"
    and s1: "s1 = update_requests (\<lambda>r. r_id r = i \<and> r_status r = ApprovalPending) (decide_edit now d) (expire_approvals now s)"
    and g: "add_grant now (d_grant ids) r scope s1 = Inr g"
    and s3: "audit_if_owned E (d_audit ids) (r_enforcement_owner r) (decision_event now d (fst g) r) (snd g) = Inr s3"
    and t: "t = snd (release_job now (d_outbox ids) (d = DENY_APPROVAL) r s3)"
    and wake: "wake = fst (release_job now (d_outbox ids) (d = DENY_APPROVAL) r s3)"
    and r': "row_by r_id i (requests t) = Some r'"
    using tx by (rule decide_tx_stages)
  note frame = audit_if_owned_frame [OF s3] add_grant_stage [OF g]
  have same: "jobs s3 = jobs s" "outbox s3 = outbox s"
    using frame by (simp_all add: s1 update_requests_def)
  have w: "wakes s3 = wakes s"
    using audit_if_owned_wakes [OF s3] add_grant_wakes [OF g] by (simp add: s1 update_requests_def expire_approvals_def)
  have "row_by r_id i (requests s1) = Some (decide_edit now d r)"
    unfolding s1 update_requests_def
    using row_by_updated [OF r(1), where P = "\<lambda>r. r_id r = i \<and> r_status r = ApprovalPending" and f = "decide_edit now d"]
      row_by_key [OF r(1)] r(2) by (simp add: decide_edit_def)
  moreover have "requests t = requests s1" using frame by (simp add: t)
  ultimately have "r' = decide_edit now d r" using r' by simp
  with job(1) have rj: "r_job_id r = Some k" by (simp add: decide_edit_def)
  have j: "job_by k s3 = Some j" "j_id j = k" using job(2) row_by_key [OF job(2)] by (simp_all add: same)
  define s4 where "s4 = update_jobs (\<lambda>x. j_id x = k \<and> j_version x = j_version j)
    (release_edit now (d = DENY_APPROVAL) (j_version j + 1)) s3"
  have rel: "release_job now (d_outbox ids) (d = DENY_APPROVAL) r s3 =
    (if j_status j = JobWaitingApproval
     then (d \<noteq> DENY_APPROVAL, if d = DENY_APPROVAL then enqueue_terminal_sync (d_outbox ids) now k JobCanceled
                       (j_version j + 1) (j_session_id j) None s4 else s4)
     else (False, s3))"
    using fresh(1) j by (simp add: release_job_def rj given_def s4_def Let_def or_else_def)
  note tt = t [unfolded rel] wake [unfolded rel]
  show ?thesis
  proof (cases "j_status j = JobWaitingApproval")
    case False
    then show ?thesis by (simp add: s' tt same w)
  next
    case True
    have j4: "job_by k s4 = Some (release_edit now (d = DENY_APPROVAL) (j_version j + 1) j)"
      unfolding s4_def update_jobs_def
      using row_by_updated [OF j(1), where P = "\<lambda>x. j_id x = k \<and> j_version x = j_version j"
          and f = "release_edit now (d = DENY_APPROVAL) (j_version j + 1)"] j(2)
      by (simp add: release_edit_def)
    have "''job:'' @ k @ '':terminal:'' @ show_int (j_version j + 1) \<in> o_dedupe_key ` set (outbox
        (enqueue_terminal_sync (d_outbox ids) now k JobCanceled (j_version j + 1) (j_session_id j) None s4))"
      using enqueue_terminal_sync_present [of "d_outbox ids" s4 now k JobCanceled "j_version j + 1" "j_session_id j" None] fresh(2)
      by (simp add: s4_def same terminal_entry_def)
    moreover have "wakes s4 = wakes s" by (simp add: s4_def update_jobs_def w)
    moreover have "jobs s4 = map (\<lambda>x. if x = j then release_edit now (d = DENY_APPROVAL) (j_version j + 1) j else x) (jobs s)"
    proof -
      have "jobs s4 = map (\<lambda>x. if j_id x = k \<and> j_version x = j_version j
          then release_edit now (d = DENY_APPROVAL) (j_version j + 1) x else x) (jobs s)"
        by (simp add: s4_def update_jobs_def same upd_where_def)
      also have "\<dots> = map (\<lambda>x. if x = j then release_edit now (d = DENY_APPROVAL) (j_version j + 1) j else x) (jobs s)"
      proof (rule map_cong [OF refl])
        fix x assume x: "x \<in> set (jobs s)"
      note this_row = row_by_distinct [OF db_ok_jobs [OF ok] x]
      have "x = j" if "j_id x = k"
        using this_row job(2) unfolding that by simp
      then show "(if j_id x = k \<and> j_version x = j_version j
            then release_edit now (d = DENY_APPROVAL) (j_version j + 1) x else x)
          = (if x = j then release_edit now (d = DENY_APPROVAL) (j_version j + 1) j else x)"
        by (cases "x = j") (use j(2) in auto)
      qed
      finally show ?thesis .
    qed
    ultimately show ?thesis using True j4
      by (cases "d = DENY_APPROVAL") (simp_all add: s' tt release_edit_def)
  qed
qed

theorem decide_approval_request_releases_witness:
  "\<exists>r s' j'. decide_approval_request sample_env 20 sample_ids ''approval_1'' DENY_APPROVAL None waiting_store = (Inr r, s')
     \<and> job_by ''job_1'' s' = Some j' \<and> j_status j' = JobCanceled"
proof -
  let ?run = "decide_approval_request sample_env 20 sample_ids ''approval_1'' DENY_APPROVAL None waiting_store"
  let ?job = "sample_job\<lparr>j_status := JobWaitingApproval, j_approval_request_id := Some ''approval_1''\<rparr>"
  have "(case fst ?run of Inl e \<Rightarrow> False | Inr r \<Rightarrow> r_job_id r = Some ''job_1'')" by code_simp
  then obtain r where run: "?run = (Inr r, snd ?run)" and r: "r_job_id r = Some ''job_1''"
    by (cases "fst ?run") (auto simp: prod_eq_iff)
  have "job_by ''job_1'' waiting_store = Some ?job" by code_simp
  moreover have "new_id ''outbox'' (d_outbox sample_ids) \<notin> o_id ` set (outbox waiting_store)" by code_simp
  moreover have "j_status ?job = JobWaitingApproval" by simp
  ultimately obtain j' where "job_by ''job_1'' (snd ?run) = Some j'" "j_status j' = JobCanceled"
    using decide_approval_request_releases [OF sample_ok(3) run r, of ?job] by (auto split: if_splits)
  with run show ?thesis by blast
qed

text \<open>
  C28. A grant is used at most as often as it allows. When a query is granted by a single-use grant,
  that grant covers no query any more, in whatever state the database evolves to.
\<close>

theorem single_use_grant_consumed_once:
  assumes ok: "db_ok s" and cover: "covering_grant E now s q = Some g" "g_uses_remaining g = Some 1"
    and run: "consume_matching_approval_grant E now u q s = (Inr True, s1)" and "evolves s1 s2"
    and ok2: "db_ok s2"
  shows "\<forall>g'. covering_grant E' now' s2 q' = Some g' \<longrightarrow> g_id g' \<noteq> g_id g"
proof -
  obtain binding where binding: "query_binding E q = Inr binding" "matching_grant now binding q s = Some g"
    using cover(1) by (auto simp: covering_grant_def split: sum.splits)
  note g = matching_grantD [OF binding(2)]
  have "grants s1 = upd_where (use_target (g_id g)) use_edit (grants s)"
    using run binding cover(2) audit_if_owned_frame(4)
    by (auto simp: consume_matching_approval_grant_def consume_grant_tx_def transaction_Inr_iff Let_def
        and_then_Inr_iff use_grant_def split: if_splits)
  then have "use_edit g \<in> set (grants s1)"
    using g(1) cover(2) by (force simp: set_upd_where use_target_def)
  then obtain h where h: "h \<in> set (grants s2)" "grant_next (use_edit g) h"
    using \<open>evolves s1 s2\<close> by (auto simp: evolves_def rows_next_def)
  then have hid: "g_id h = g_id g"
    by (auto simp: grant_next_def use_edit_def dest: grant_record_keys)
  obtain n where n: "g_uses_remaining h = Some n" "n \<le> 0"
    using h(2) cover(2) by (auto simp: grant_next_def use_edit_def)
  show ?thesis
  proof (intro allI impI notI)
    fix g' assume "covering_grant E' now' s2 q' = Some g'" and same: "g_id g' = g_id g"
    then obtain b where "matching_grant now' b q' s2 = Some g'"
      by (auto simp: covering_grant_def split: sum.splits)
    note g' = matching_grantD [OF this]
    have "g' = h" using db_ok_grants [OF ok2] g'(1) h(1) same hid by (auto simp: distinct_map inj_on_def)
    with g'(2) n show False by (simp add: usable_grant_def)
  qed
qed

theorem single_use_grant_consumed_once_witness:
  "covering_grant sample_env 20 granted_store (query_of NETWORK_CONNECT sample_context) = Some sample_grant \<and>
   covering_grant sample_env 20 (snd (consume_matching_approval_grant sample_env 20 ''8''
       (query_of NETWORK_CONNECT sample_context) granted_store)) (query_of NETWORK_CONNECT sample_context) \<noteq> Some sample_grant"
proof -
  let ?q = "query_of NETWORK_CONNECT sample_context"
  let ?run = "consume_matching_approval_grant sample_env 20 ''8'' ?q granted_store"
  have cover: "covering_grant sample_env 20 granted_store ?q = Some sample_grant" "g_uses_remaining sample_grant = Some 1"
    by code_simp+
  have "(case fst ?run of Inl e \<Rightarrow> False | Inr b \<Rightarrow> b)" by code_simp
  then have run: "?run = (Inr True, snd ?run)" by (cases "fst ?run") (auto simp: prod_eq_iff)
  have "db_ok (snd ?run)" by (rule consume_matching_approval_grant.op_keeps_ok [OF sample_ok(4)])
  from single_use_grant_consumed_once [OF sample_ok(4) cover run evolves_refl this] cover(1) show ?thesis by blast
qed

text \<open>
  C10. Nothing is allowed without a profile rule or an approved request. When the engine resolves an
  action to allow, over the built-in profiles and the stored grants, either the selected profile
  allows it (reading in every profile, starting processes in the interactive and the unattended
  one, writing to the workspace in the interactive one, nothing else), or there is a grant for
  this very action within one of the scopes of the context, not expired and not used up, that
  comes from a request which was approved and which agrees with the context on the content hash
  and the enforcement owner.
\<close>

theorem policy_allow_needs_grant:
  assumes ok: "db_ok s" and sel: "select_profile v ori = Inr p"
    and run: "resolve_policy (Some (consume_matching_approval_grant E now u)) a p c l True s = (Inr r, s')"
    and allow: "pr_decision r = ALLOW"
  shows "pp_id p = ''interactive'' \<and> a \<in> {WORKSPACE_READ, WORKSPACE_WRITE, PROCESS_SPAWN} \<or>
    pp_id p = ''review_every_action'' \<and> a = WORKSPACE_READ \<or>
    pp_id p = ''unattended'' \<and> a \<in> {WORKSPACE_READ, PROCESS_SPAWN} \<or>
    (\<exists>g\<in>set (grants s). \<exists>q\<in>set (requests s). g_action g = a \<and>
       (g_scope_type g, g_scope_id g) \<in> set (grant_scopes (query_of a c)) \<and>
       (\<forall>t. g_expires_at g = Some t \<longrightarrow> now < t) \<and> (\<forall>n. g_uses_remaining g = Some n \<longrightarrow> 0 < n) \<and>
       r_id q = g_request_id g \<and> r_status q = ApprovalApproved \<and>
       query_binding E (query_of a c) = Inr (approval_preview_binding (r_preview q)) \<and>
       optional_text (r_enforcement_owner q) = optional_text (pc_enforcement_owner c))"
proof -
  consider "decision_for p a = ALLOW" | "covering_grant E now s (query_of a c) \<noteq> None"
    using approvals.resolve_allow_source [OF ok run allow] by blast
  then show ?thesis
  proof cases
    case 1
    have ids: "pp_id INTERACTIVE_PROFILE = ''interactive''" "pp_id REVIEW_EVERY_ACTION_PROFILE = ''review_every_action''"
      "pp_id UNATTENDED_PROFILE = ''unattended''"
      by (simp_all add: INTERACTIVE_PROFILE_def REVIEW_EVERY_ACTION_PROFILE_def UNATTENDED_PROFILE_def)
    consider "p = INTERACTIVE_PROFILE" | "p = REVIEW_EVERY_ACTION_PROFILE" | "p = UNATTENDED_PROFILE"
      using select_profile_builtin [OF sel] by blast
    then show ?thesis
    proof cases
      case 1
      with \<open>decision_for p a = ALLOW\<close> have "a \<in> {WORKSPACE_READ, WORKSPACE_WRITE, PROCESS_SPAWN}"
        by (simp add: decision_for_interactive split: if_splits)
      with 1 ids(1) show ?thesis by (intro disjI1) simp
    next
      case 2
      with \<open>decision_for p a = ALLOW\<close> ids(2) have "a = WORKSPACE_READ"
        by (simp add: decision_for_review split: if_splits)
      with 2 ids(2) show ?thesis by (intro disjI2 [OF disjI1]) simp
    next
      case 3
      with \<open>decision_for p a = ALLOW\<close> ids(3) have "a \<in> {WORKSPACE_READ, PROCESS_SPAWN}"
        by (simp add: decision_for_unattended split: if_splits)
      with 3 ids(3) show ?thesis by (intro disjI2 [OF disjI2 [OF disjI1]]) simp
    qed
  next
    case 2
    then obtain g binding where binding: "query_binding E (query_of a c) = Inr binding"
      and "matching_grant now binding (query_of a c) s = Some g"
      by (auto simp: covering_grant_def split: sum.splits)
    note g = matching_grantD [OF this(2)]
    obtain q where q: "row_by r_id (g_request_id g) (requests s) = Some q"
      "approval_preview_binding (r_preview q) = binding"
      "optional_text (r_enforcement_owner q) = optional_text (pc_enforcement_owner c)"
      using g(3) by (auto simp: request_agrees_def query_of_def split: option.splits)
    have "approved (g_request_id g) (requests s)" using ok g(1) by (auto simp: db_ok_def grants_ok_def)
    then obtain q' where "q' \<in> set (requests s)" "r_id q' = g_request_id g" "r_status q' = ApprovalApproved"
      by (auto simp: approved_def)
    then have "r_status q = ApprovalApproved"
      using q(1) row_by_distinct [OF db_ok_requests [OF ok], of q'] by simp
    moreover have "g_action g = a" using g(2) by (simp add: usable_grant_def query_of_def)
    ultimately show ?thesis using g(1,2) q binding row_by_SomeD [OF q(1)] row_by_key [OF q(1)]
      by (intro disjI2 bexI [of _ g] bexI [of _ q]) (auto simp: usable_grant_def split: option.splits)
  qed
qed

text \<open>The unattended profile asks before a network connection; an approved request lets it pass.\<close>

theorem policy_allow_needs_grant_witness:
  "\<exists>r s' g q. resolve_policy (Some (consume_matching_approval_grant sample_env 20 ''8'')) NETWORK_CONNECT
      UNATTENDED_PROFILE sample_context ENFORCED_BY_HARNESS True granted_store = (Inr r, s') \<and> pr_decision r = ALLOW \<and>
    g \<in> set (grants granted_store) \<and> q \<in> set (requests granted_store) \<and> g_action g = NETWORK_CONNECT \<and>
    r_id q = g_request_id g \<and> r_status q = ApprovalApproved"
proof -
  let ?run = "resolve_policy (Some (consume_matching_approval_grant sample_env 20 ''8'')) NETWORK_CONNECT
    UNATTENDED_PROFILE sample_context ENFORCED_BY_HARNESS True granted_store"
  have "(case fst ?run of Inl e \<Rightarrow> False | Inr r \<Rightarrow> pr_decision r = ALLOW)" by code_simp
  then obtain r where run: "?run = (Inr r, snd ?run)" and allow: "pr_decision r = ALLOW"
    by (cases "fst ?run") (auto simp: prod_eq_iff)
  have "select_profile None ''schedule'' = Inr UNATTENDED_PROFILE" by code_simp
  from policy_allow_needs_grant [OF sample_ok(4) this run allow]
  obtain g q where "g \<in> set (grants granted_store)" "q \<in> set (requests granted_store)" "g_action g = NETWORK_CONNECT"
    "r_id q = g_request_id g" "r_status q = ApprovalApproved"
    by auto
  with run allow show ?thesis
    by (intro exI [of _ r] exI [of _ "snd ?run"] exI [of _ g] exI [of _ q]) simp
qed

end
