(* ===== verification/Native_Processes.thy ===== *)
theory Native_Processes
  imports Samples
begin

text \<open>
  Durable coordination of native processes (\<open>runtime/native/repository.py\<close>): ownership leases,
  terminal output with a bounded window, cancellation requests, completion by the owner and
  recovery of expired owners. \<open>ref\<close> is the redacted public snapshot of a process.
\<close>

section \<open>Operations\<close>

abbreviation native_by :: "string \<Rightarrow> store \<Rightarrow> native_process option" where
  "native_by i s \<equiv> row_by n_id i (natives s)"

definition stored_native :: "env \<Rightarrow> native_process \<Rightarrow> native_process" where
  "stored_native E record = record\<lparr>n_ref := redact_for_storage E (n_ref record)\<rparr>"

definition create_native_process :: "env \<Rightarrow> native_process \<Rightarrow> native_process op" where
  "create_native_process E record = transaction (\<lambda>s.
     and_then (insert_native (stored_native E record) s) (\<lambda>s'.
     and_then (fetch (NativeProcessRecordNotFoundError (n_id record)) (native_by (n_id record) s')) (\<lambda>row.
       Inr (row, s'))))"

definition get_native_process :: "string \<Rightarrow> store \<Rightarrow> native_process result" where
  "get_native_process process_id s =
     fetch (NativeProcessRecordNotFoundError process_id) (native_by process_id s)"

definition list_native_processes :: "store \<Rightarrow> native_process list" where
  "list_native_processes s = order_by (\<lambda>n. (n_started_at n, n_id n)) (natives s)"

text \<open>An UPDATE of the processes table followed by the read of the row.\<close>

definition update_natives :: "(native_process \<Rightarrow> bool) \<Rightarrow> (native_process \<Rightarrow> native_process) \<Rightarrow> store \<Rightarrow> store" where
  "update_natives P f s = s\<lparr>natives := upd_where P f (natives s)\<rparr>"

definition update_and_get_native ::
    "string \<Rightarrow> (native_process \<Rightarrow> bool) \<Rightarrow> (native_process \<Rightarrow> native_process) \<Rightarrow> native_process op" where
  "update_and_get_native process_id P f = transaction (\<lambda>s.
     let s' = update_natives (\<lambda>n. n_id n = process_id \<and> P n) f s in
     and_then (fetch (NativeProcessRecordNotFoundError process_id) (native_by process_id s')) (\<lambda>row.
       Inr (row, s')))"

definition running_owned :: "string \<Rightarrow> native_process \<Rightarrow> bool" where
  "running_owned owner n = (n_owner_id n = owner \<and> n_status n = ''running'')"

definition tenth_second :: int where
  "tenth_second = 100000"

definition heartbeat_edit :: "env \<Rightarrow> time \<Rightarrow> int \<Rightarrow> json \<Rightarrow> int \<Rightarrow> native_process \<Rightarrow> native_process" where
  "heartbeat_edit E now lease ref cursor n = n\<lparr>n_heartbeat_at := now,
     n_leased_until := future_time now (max lease tenth_second), n_updated_at := now,
     n_ref := redact_for_storage E ref, n_terminal_cursor := max (n_terminal_cursor n) (max cursor 0),
     n_version := n_version n + 1\<rparr>"

definition heartbeat_native_process ::
    "env \<Rightarrow> time \<Rightarrow> string \<Rightarrow> string \<Rightarrow> int \<Rightarrow> json \<Rightarrow> int \<Rightarrow> native_process op" where
  "heartbeat_native_process E now process_id owner_id lease ref terminal_cursor =
     update_and_get_native process_id (running_owned owner_id) (heartbeat_edit E now lease ref terminal_cursor)"

definition stored_output :: "env \<Rightarrow> native_output \<Rightarrow> native_output" where
  "stored_output E out = out\<lparr>no_text := redact_text E (no_text out)\<rparr>"

definition cursor_edit :: "time \<Rightarrow> int \<Rightarrow> native_process \<Rightarrow> native_process" where
  "cursor_edit now cursor n = n\<lparr>n_terminal_cursor := max (n_terminal_cursor n) cursor,
     n_updated_at := now, n_version := n_version n + 1\<rparr>"

text \<open>The chunks the DELETE keeps: other processes, and cursors inside the window.\<close>

definition in_window :: "string \<Rightarrow> int \<Rightarrow> int \<Rightarrow> native_output \<Rightarrow> bool" where
  "in_window process_id cursor max_chunks r =
     (no_process_id r \<noteq> process_id \<or> max (cursor - max max_chunks 1) 0 < no_cursor r)"

definition append_output_tx :: "env \<Rightarrow> time \<Rightarrow> native_output \<Rightarrow> string \<Rightarrow> int \<Rightarrow> store \<Rightarrow> (unit \<times> store) result" where
  "append_output_tx E now out owner_id max_chunks s =
     and_then (fetch (NativeProcessRecordNotFoundError (no_process_id out)) (native_by (no_process_id out) s)) (\<lambda>owner.
       if n_owner_id owner \<noteq> owner_id then Inr ((), s)
       else
         let s1 = insert_or_ignore_output (stored_output E out) s;
             s2 = update_natives (\<lambda>n. n_id n = no_process_id out \<and> n_owner_id n = owner_id)
                    (cursor_edit now (no_cursor out)) s1
         in Inr ((), s2\<lparr>outputs := filter (in_window (no_process_id out) (no_cursor out) max_chunks) (outputs s2)\<rparr>))"

definition append_native_process_output :: "env \<Rightarrow> time \<Rightarrow> native_output \<Rightarrow> string \<Rightarrow> int \<Rightarrow> unit op" where
  "append_native_process_output E now out owner_id max_chunks =
     transaction (append_output_tx E now out owner_id max_chunks)"

definition read_native_process_outputs :: "string \<Rightarrow> int \<Rightarrow> store \<Rightarrow> native_output list result" where
  "read_native_process_outputs process_id after_cursor s =
     and_then (get_native_process process_id s) (\<lambda>_.
       Inr (order_by no_cursor (filter (\<lambda>r. no_process_id r = process_id \<and> max after_cursor 0 < no_cursor r) (outputs s))))"

definition coalesce :: "'a option \<Rightarrow> 'a \<Rightarrow> 'a option" where
  "coalesce old new = (case old of None \<Rightarrow> Some new | Some t \<Rightarrow> Some t)"

definition native_cancel_edit :: "time \<Rightarrow> native_process \<Rightarrow> native_process" where
  "native_cancel_edit now n = n\<lparr>n_cancel_requested_at := coalesce (n_cancel_requested_at n) now,
     n_updated_at := now, n_version := n_version n + 1\<rparr>"

definition request_native_process_cancel :: "time \<Rightarrow> string \<Rightarrow> native_process op" where
  "request_native_process_cancel now process_id =
     update_and_get_native process_id (\<lambda>n. n_status n = ''running'') (native_cancel_edit now)"

definition native_finish_edit ::
    "env \<Rightarrow> time \<Rightarrow> string \<Rightarrow> json \<Rightarrow> int \<Rightarrow> string option \<Rightarrow> native_process \<Rightarrow> native_process" where
  "native_finish_edit E now status ref cursor outcome n = n\<lparr>n_status := status,
     n_ref := redact_for_storage E ref, n_terminal_cursor := max (n_terminal_cursor n) (max cursor 0),
     n_recovery_outcome := optional_text outcome, n_finished_at := coalesce (n_finished_at n) now,
     n_heartbeat_at := now, n_updated_at := now, n_version := n_version n + 1\<rparr>"

definition finish_native_process ::
    "env \<Rightarrow> time \<Rightarrow> string \<Rightarrow> string \<Rightarrow> string \<Rightarrow> json \<Rightarrow> int \<Rightarrow> string option \<Rightarrow> native_process op" where
  "finish_native_process E now process_id owner_id status ref terminal_cursor recovery_outcome =
     update_and_get_native process_id (running_owned owner_id)
       (native_finish_edit E now status ref terminal_cursor recovery_outcome)"

definition expired_native :: "time \<Rightarrow> native_process \<Rightarrow> bool" where
  "expired_native now n = (n_status n = ''running'' \<and> n_leased_until n < now)"

definition list_expired_native_processes :: "time \<Rightarrow> store \<Rightarrow> native_process list" where
  "list_expired_native_processes now s =
     order_by (\<lambda>n. (n_leased_until n, n_id n)) (filter (expired_native now) (natives s))"

definition recover_edit :: "env \<Rightarrow> time \<Rightarrow> string \<Rightarrow> json \<Rightarrow> string \<Rightarrow> native_process \<Rightarrow> native_process" where
  "recover_edit E now status ref outcome n = n\<lparr>n_status := status,
     n_ref := redact_for_storage E ref, n_recovery_outcome := Some outcome,
     n_finished_at := coalesce (n_finished_at n) now, n_updated_at := now, n_version := n_version n + 1\<rparr>"

definition recover_native_process ::
    "env \<Rightarrow> time \<Rightarrow> string \<Rightarrow> string \<Rightarrow> json \<Rightarrow> string \<Rightarrow> native_process op" where
  "recover_native_process E now process_id status ref recovery_outcome =
     update_and_get_native process_id (expired_native now) (recover_edit E now status ref recovery_outcome)"

section \<open>Contracts\<close>

lemma update_and_get_native_legal:
  assumes "\<And>n. P n \<Longrightarrow> native_next n (f n)"
  shows "legal s (snd (update_and_get_native i P f s))"
  unfolding update_and_get_native_def
  by (rule transaction_legal)
    (auto simp: and_then_Inr_iff Let_def update_natives_def intro!: update_natives_legal assms)

interpretation create_native_process: coordination_op "create_native_process E r" for E r
  unfolding create_native_process_def
  by unfold_locales (rule transaction_legal,
    auto simp: and_then_Inr_iff intro: legalI dest: insert_native_ok insert_native_evolves)

interpretation heartbeat_native_process: coordination_op "heartbeat_native_process E now i w lease ref c"
  for E now i w lease ref c
  unfolding heartbeat_native_process_def
  by unfold_locales (rule update_and_get_native_legal, auto simp: native_next_def heartbeat_edit_def running_owned_def)

interpretation request_native_process_cancel: coordination_op "request_native_process_cancel now i" for now i
  unfolding request_native_process_cancel_def
  by unfold_locales (rule update_and_get_native_legal, auto simp: native_next_def native_cancel_edit_def)

interpretation finish_native_process: coordination_op "finish_native_process E now i w st ref c out"
  for E now i w st ref c out
  unfolding finish_native_process_def
  by unfold_locales (rule update_and_get_native_legal, auto simp: native_next_def native_finish_edit_def running_owned_def)

interpretation recover_native_process: coordination_op "recover_native_process E now i st ref out"
  for E now i st ref out
  unfolding recover_native_process_def
  by unfold_locales (rule update_and_get_native_legal, auto simp: native_next_def recover_edit_def expired_native_def)

lemma insert_or_ignore_output_legal: "legal s (insert_or_ignore_output r s)"
  by (rule legalI) (erule insert_or_ignore_output_ok, rule insert_or_ignore_output_evolves)

lemma filter_outputs_legal: "legal s (s\<lparr>outputs := filter P (outputs s)\<rparr>)"
  by (rule legalI) (erule delete_outputs_ok, rule evolves_other)

lemma cursor_edit_legal: "legal s (update_natives P (cursor_edit now c) s)"
  unfolding update_natives_def by (rule update_natives_legal) (simp add: native_next_def cursor_edit_def)

lemma append_output_tx_legal: "append_output_tx E now out w m s = Inr (u, s') \<Longrightarrow> legal s s'"
  by (auto simp: append_output_tx_def and_then_Inr_iff Let_def split: if_splits
      intro!: legal_trans [OF legal_trans [OF insert_or_ignore_output_legal cursor_edit_legal] filter_outputs_legal])

interpretation append_native_process_output: coordination_op "append_native_process_output E now out w m"
  for E now out w m
  unfolding append_native_process_output_def
  by unfold_locales (rule transaction_legal, erule append_output_tx_legal)

section \<open>Terminal output\<close>

definition chunks :: "string \<Rightarrow> store \<Rightarrow> native_output list" where
  "chunks i s = filter (\<lambda>r. no_process_id r = i) (outputs s)"

lemma distinct_interval_length:
  fixes f :: "'a \<Rightarrow> int"
  assumes "distinct (map f xs)" "\<forall>x\<in>set xs. lo < f x \<and> f x \<le> hi"
  shows "int (length xs) \<le> max (hi - lo) 0"
proof -
  have "f ` set xs \<subseteq> {lo<..hi}" using assms(2) by auto
  then have "card (f ` set xs) \<le> nat (hi - lo)" using card_mono [of "{lo<..hi}" "f ` set xs"] by simp
  moreover have "card (f ` set xs) = length xs" using assms(1) distinct_card [of "map f xs"] by simp
  ultimately show ?thesis by linarith
qed

lemma append_output_tx_owner:
  assumes "native_by (no_process_id out) s = Some n" "n_owner_id n = w"
  shows "append_output_tx E now out w m s = Inr ((), (update_natives
      (\<lambda>n. n_id n = no_process_id out \<and> n_owner_id n = w) (cursor_edit now (no_cursor out))
      (insert_or_ignore_output (stored_output E out) s))
    \<lparr>outputs := filter (in_window (no_process_id out) (no_cursor out) m)
        (outputs (insert_or_ignore_output (stored_output E out) s))\<rparr>)"
  using assms by (simp add: append_output_tx_def Let_def update_natives_def)

text \<open>
  C33. The output of a native process is an append-only window. An append by the owner keeps the chunks
  of all other processes and every chunk of its own process whose cursor is within
  \<open>max_chunks\<close> (one at least) of the new one; it adds the redacted chunk unless its cursor is taken
  or not positive, and it never rewrites a stored chunk. If no chunk of the process is ahead of
  the new cursor, at most \<open>max_chunks\<close> of them are kept. An append by anybody else writes nothing.
\<close>

theorem append_output_window:
  assumes ok: "db_ok s" and n: "native_by i s = Some n" and i: "i = no_process_id out"
    and run: "append_native_process_output E now out w m s = (Inr (), s')"
  shows "if n_owner_id n \<noteq> w then s' = s
    else set (outputs s') = {r \<in> set (outputs s) \<union>
          (if (i, no_cursor out) \<in> output_key ` set (outputs s) \<or> no_cursor out \<le> 0 then {}
           else {out\<lparr>no_text := redact_text E (no_text out)\<rparr>}).
        no_process_id r \<noteq> i \<or> no_cursor out - max m 1 < no_cursor r}
      \<and> ((\<forall>r\<in>set (chunks i s). no_cursor r \<le> no_cursor out) \<longrightarrow> int (length (chunks i s')) \<le> max m 1)
      \<and> (\<exists>n'. native_by i s' = Some n' \<and> n_terminal_cursor n' = max (n_terminal_cursor n) (no_cursor out))"
proof (cases "n_owner_id n = w")
  case False
  then have "append_output_tx E now out w m s = Inr ((), s)" using n i by (simp add: append_output_tx_def)
  with run False show ?thesis by (simp add: append_native_process_output_def)
next
  case True
  let ?new = "stored_output E out"
  have s': "s' = (update_natives (\<lambda>n. n_id n = i \<and> n_owner_id n = w) (cursor_edit now (no_cursor out)) (insert_or_ignore_output ?new s))
    \<lparr>outputs := filter (in_window i (no_cursor out) m) (outputs (insert_or_ignore_output ?new s))\<rparr>"
    using run append_output_tx_owner [OF n [unfolded i] True] i
    by (simp add: append_native_process_output_def transaction_Inr_iff)
  have "db_ok s'" using append_native_process_output.op_keeps_ok [OF ok, of E now out w m] run by simp
  then have cursors: "\<forall>r\<in>set (outputs s'). 0 < no_cursor r" and keys: "distinct (map output_key (outputs s'))"
    by (auto simp: db_ok_defs)
  have pos: "\<forall>r\<in>set (outputs s). 0 < no_cursor r" using ok by (auto simp: db_ok_defs)
  have key: "output_key ?new = (i, no_cursor out)" by (simp add: stored_output_def output_key_def i)
  have new: "set (outputs (insert_or_ignore_output ?new s)) = set (outputs s) \<union>
      (if (i, no_cursor out) \<in> output_key ` set (outputs s) \<or> no_cursor out \<le> 0 then {} else {?new})"
    using key by (simp add: insert_or_ignore_output_def stored_output_def)
  have outs: "set (outputs s') = {r \<in> set (outputs (insert_or_ignore_output ?new s)). in_window i (no_cursor out) m r}"
    by (simp add: s')
  have win: "in_window i (no_cursor out) m r \<longleftrightarrow> no_process_id r \<noteq> i \<or> no_cursor out - max m 1 < no_cursor r"
    if "0 < no_cursor r" for r
    using that by (auto simp: in_window_def)
  have "0 < no_cursor r" if "r \<in> set (outputs (insert_or_ignore_output ?new s))" for r
    using that [unfolded new] pos by (auto simp: stored_output_def split: if_splits)
  then have set': "set (outputs s') = {r \<in> set (outputs (insert_or_ignore_output ?new s)).
      no_process_id r \<noteq> i \<or> no_cursor out - max m 1 < no_cursor r}"
    unfolding outs using win by blast
  have bound: "int (length (chunks i s')) \<le> max m 1" if "\<forall>r\<in>set (chunks i s). no_cursor r \<le> no_cursor out"
  proof -
    have "distinct (map no_cursor (chunks i s'))"
      using keys by (auto simp: chunks_def distinct_map inj_on_def output_key_def)
    moreover have "\<forall>r\<in>set (chunks i s'). no_cursor out - max m 1 < no_cursor r \<and> no_cursor r \<le> no_cursor out"
      using that set' [unfolded new] by (auto simp: chunks_def stored_output_def split: if_splits)
    ultimately show ?thesis using distinct_interval_length [of no_cursor "chunks i s'"] by fastforce
  qed
  have nat: "natives (insert_or_ignore_output ?new s) = natives s" by (simp add: insert_or_ignore_output_def)
  have "native_by i s' = Some (cursor_edit now (no_cursor out) n)"
    using n True row_by_key [OF n] by (simp add: s' update_natives_def nat row_by_upd_where cursor_edit_def)
  then have cursor: "\<exists>n'. native_by i s' = Some n' \<and> n_terminal_cursor n' = max (n_terminal_cursor n) (no_cursor out)"
    by (simp add: cursor_edit_def)
  have own: "\<not> n_owner_id n \<noteq> w" using True by simp
  from set' bound cursor show ?thesis unfolding if_not_P [OF own] new unfolding stored_output_def
    by (intro conjI impI)
qed

definition sample_native :: native_process where
  "sample_native = \<lparr>n_id = ''p'', n_owner_id = ''o'', n_owner_process_id = 7, n_session_id = ''s'',
     n_run_id = ''run_1'', n_harness_id = ''h'', n_status = ''running'', n_process_id = Some 8,
     n_process_group_id = None, n_transport = ''pty'', n_ref = JObj [], n_started_at = 10,
     n_updated_at = 10, n_heartbeat_at = 10, n_leased_until = 50, n_timeout_at = None,
     n_cancel_requested_at = None, n_finished_at = None, n_terminal_cursor = 2,
     n_recovery_outcome = None, n_version = 0\<rparr>"

definition sample_chunk :: "int \<Rightarrow> native_output" where
  "sample_chunk c = \<lparr>no_process_id = ''p'', no_cursor = c, no_stream = ''stdout'', no_text = ''x'', no_created_at = 10\<rparr>"

definition native_store :: store where
  "native_store = empty_store\<lparr>natives := [sample_native], outputs := [sample_chunk 1, sample_chunk 2]\<rparr>"

lemma native_store_ok: "db_ok native_store"
  by code_simp

theorem append_output_window_witness:
  "\<exists>s'. append_native_process_output sample_env 20 (sample_chunk 3) ''o'' 2 native_store = (Inr (), s')
     \<and> length (chunks ''p'' s') \<le> 2"
proof -
  let ?run = "append_native_process_output sample_env 20 (sample_chunk 3) ''o'' 2 native_store"
  have "\<not> isl (fst ?run)" by code_simp
  then have run: "?run = (Inr (), snd ?run)" by (cases "fst ?run") (auto simp: prod_eq_iff)
  have n: "native_by ''p'' native_store = Some sample_native" "''p'' = no_process_id (sample_chunk 3)" by code_simp+
  have "list_all (\<lambda>r. no_cursor r \<le> no_cursor (sample_chunk 3)) (chunks ''p'' native_store)" "n_owner_id sample_native = ''o''"
    by code_simp+
  with append_output_window [OF native_store_ok n run] have "int (length (chunks ''p'' (snd ?run))) \<le> 2"
    by (simp add: list_all_iff)
  with run show ?thesis by (intro exI [of _ "snd ?run"]) auto
qed

section \<open>Ownership\<close>

lemma update_and_get_native_eq:
  assumes "db_ok s" "native_by i s = Some n" "\<And>n. n_id (f n) = n_id n"
  shows "update_and_get_native i P f s =
    (if P n then (Inr (f n), s\<lparr>natives := upd_where (\<lambda>x. x = n) (\<lambda>_. f n) (natives s)\<rparr>) else (Inr n, s))"
proof -
  note n = row_by_SomeD [OF assms(2)] row_by_key [OF assms(2)]
  have uniq: "x = n" if "x \<in> set (natives s)" "n_id x = i" for x
    using row_by_distinct [OF db_ok_natives [OF assms(1)] that(1)] that(2) assms(2) by simp
  have "update_natives (\<lambda>n. n_id n = i \<and> P n) f s =
    (if P n then s\<lparr>natives := upd_where (\<lambda>x. x = n) (\<lambda>_. f n) (natives s)\<rparr> else s)"
  proof (cases "P n")
    case True
    have "upd_where (\<lambda>n. n_id n = i \<and> P n) f (natives s) = upd_where (\<lambda>x. x = n) (\<lambda>_. f n) (natives s)"
      by (rule upd_where_single) (use True n uniq in blast)
    with True show ?thesis by (simp add: update_natives_def)
  next
    case False
    have "upd_where (\<lambda>n. n_id n = i \<and> P n) f (natives s) = natives s"
      by (rule upd_where_none) (use False uniq in blast)
    with False show ?thesis by (simp add: update_natives_def)
  qed
  moreover have "native_by i (s\<lparr>natives := upd_where (\<lambda>x. x = n) (\<lambda>_. f n) (natives s)\<rparr>) = Some (f n)"
    using row_by_updated [OF assms(2), of "\<lambda>x. x = n" "\<lambda>_. f n"] assms(3) n by simp
  ultimately show ?thesis using assms(2) by (simp add: update_and_get_native_def Let_def)
qed

text \<open>
  C34. Only a proven owner ends a native process, and only an expired one is recovered. A live process
  is finished by its owner alone, and recovered only after its lease is over; after a heartbeat of
  the owner it cannot be recovered until the renewed lease (a tenth of a second at least) is over.
  Whoever else calls gets the unchanged row. A process that is not running any more is not changed
  by a heartbeat, a cancellation, a completion or a recovery.
\<close>

theorem native_process_owner_or_expired:
  assumes ok: "db_ok s" and n: "native_by i s = Some n"
  shows "finish_native_process E now i w st ref c out s =
      (if n_status n = ''running'' \<and> n_owner_id n = w
       then (Inr (native_finish_edit E now st ref c out n),
             s\<lparr>natives := upd_where (\<lambda>x. x = n) (\<lambda>_. native_finish_edit E now st ref c out n) (natives s)\<rparr>)
       else (Inr n, s))
    \<and> recover_native_process E now i st ref what s =
      (if n_status n = ''running'' \<and> n_leased_until n < now
       then (Inr (recover_edit E now st ref what n),
             s\<lparr>natives := upd_where (\<lambda>x. x = n) (\<lambda>_. recover_edit E now st ref what n) (natives s)\<rparr>)
       else (Inr n, s))
    \<and> (n_status n = ''running'' \<and> n_owner_id n = w \<longrightarrow>
       (\<exists>n' s'. heartbeat_native_process E now i w lease ref c s = (Inr n', s') \<and>
         (\<forall>t \<le> now + max lease tenth_second. recover_native_process E t i st ref what s' = (Inr n', s'))))
    \<and> (n_status n \<noteq> ''running'' \<longrightarrow>
       heartbeat_native_process E now i w lease ref c s = (Inr n, s) \<and>
       request_native_process_cancel now i s = (Inr n, s))"
proof (intro conjI impI)
  show "finish_native_process E now i w st ref c out s =
      (if n_status n = ''running'' \<and> n_owner_id n = w
       then (Inr (native_finish_edit E now st ref c out n),
             s\<lparr>natives := upd_where (\<lambda>x. x = n) (\<lambda>_. native_finish_edit E now st ref c out n) (natives s)\<rparr>)
       else (Inr n, s))"
    unfolding finish_native_process_def
    by (subst update_and_get_native_eq [OF ok n]) (simp_all add: native_finish_edit_def running_owned_def)
  show "recover_native_process E now i st ref what s =
      (if n_status n = ''running'' \<and> n_leased_until n < now
       then (Inr (recover_edit E now st ref what n),
             s\<lparr>natives := upd_where (\<lambda>x. x = n) (\<lambda>_. recover_edit E now st ref what n) (natives s)\<rparr>)
       else (Inr n, s))"
    unfolding recover_native_process_def
    by (subst update_and_get_native_eq [OF ok n]) (simp_all add: recover_edit_def expired_native_def)
  show "heartbeat_native_process E now i w lease ref c s = (Inr n, s)" if "n_status n \<noteq> ''running''"
    unfolding heartbeat_native_process_def using that
    by (subst update_and_get_native_eq [OF ok n]) (simp_all add: heartbeat_edit_def running_owned_def)
  show "request_native_process_cancel now i s = (Inr n, s)" if "n_status n \<noteq> ''running''"
    unfolding request_native_process_cancel_def using that
    by (subst update_and_get_native_eq [OF ok n]) (simp_all add: native_cancel_edit_def)
next
  assume own: "n_status n = ''running'' \<and> n_owner_id n = w"
  let ?n = "heartbeat_edit E now lease ref c n"
  let ?s = "s\<lparr>natives := upd_where (\<lambda>x. x = n) (\<lambda>_. ?n) (natives s)\<rparr>"
  have beat: "heartbeat_native_process E now i w lease ref c s = (Inr ?n, ?s)"
    unfolding heartbeat_native_process_def using own
    by (subst update_and_get_native_eq [OF ok n]) (simp_all add: heartbeat_edit_def running_owned_def)
  then have ok': "db_ok ?s" using heartbeat_native_process.op_keeps_ok [OF ok, of E now i w lease ref c] by simp
  have n': "native_by i ?s = Some ?n"
    using row_by_updated [OF n, of "\<lambda>x. x = n" "\<lambda>_. ?n"] by (simp add: heartbeat_edit_def)
  have "recover_native_process E t i st ref what ?s = (Inr ?n, ?s)" if "t \<le> now + max lease tenth_second" for t
    unfolding recover_native_process_def using that
    by (subst update_and_get_native_eq [OF ok' n'])
      (simp_all add: recover_edit_def expired_native_def heartbeat_edit_def future_time_def)
  with beat show "\<exists>n' s'. heartbeat_native_process E now i w lease ref c s = (Inr n', s') \<and>
         (\<forall>t \<le> now + max lease tenth_second. recover_native_process E t i st ref what s' = (Inr n', s'))" by blast
qed

theorem native_process_owner_or_expired_witness:
  "recover_native_process sample_env 50 ''p'' ''interrupted'' (JObj []) ''lost'' native_store = (Inr sample_native, native_store)"
proof -
  have n: "native_by ''p'' native_store = Some sample_native" by code_simp
  show ?thesis
    using native_process_owner_or_expired [OF native_store_ok n, where E = sample_env and now = 50 and w = "''o''"
        and st = "''interrupted''" and ref = "JObj []" and c = 0 and out = None and what = "''lost''" and lease = 0]
    by (simp add: sample_native_def)
qed

end
