(* ===== verification/Side_Effects.thy ===== *)
theory Side_Effects
  imports Attempts
begin

text \<open>
  Durable idempotent side effects (\<open>runtime/side_effects/repository.py\<close>) and the executor of the
  runtime event operation (\<open>runtime/side_effects/executor.py\<close>). A token is stored as its hash; a
  reservation binds it to one operation and the hash of its intent. Intents and evidence are
  compared through the hash of their canonical form.
\<close>

section \<open>Operations\<close>

record reservation =
  rv_record :: side_effect
  rv_created :: bool

text \<open>The attempt that acts: it exists, belongs to the job and is not settled.\<close>

definition acting_attempt :: "string \<Rightarrow> string \<Rightarrow> string \<Rightarrow> store \<Rightarrow> attempt result" where
  "acting_attempt job_id attempt_id refusal s =
     and_then (fetch (AttemptNotFoundError attempt_id) (attempt_by attempt_id s)) (\<lambda>attempt.
     and_then (guard (a_job_id attempt = job_id)
       (SideEffectConflictError ''side-effect attempt does not belong to the logical job'')) (\<lambda>_.
     and_then (guard (\<not> terminal_attempt (a_status attempt)) (InvalidStateTransitionError refusal)) (\<lambda>_.
       Inr attempt)))"

definition reserved_row :: "time \<Rightarrow> string \<Rightarrow> string \<Rightarrow> string \<Rightarrow> string \<Rightarrow> string \<Rightarrow> string \<Rightarrow> side_effect" where
  "reserved_row now uuid job_id token_hash operation intent_hash attempt_id = \<lparr>
     e_id = new_id ''effect'' uuid, e_job_id = job_id, e_token_hash = token_hash,
     e_operation = operation, e_intent_hash = intent_hash, e_status = EffectReserved,
     e_owner_attempt_id = attempt_id, e_evidence = JObj [], e_evidence_hash = None,
     e_created_at = now, e_updated_at = now, e_completed_at = None\<rparr>"

definition same_intent :: "string \<Rightarrow> string \<Rightarrow> string \<Rightarrow> side_effect \<Rightarrow> bool" where
  "same_intent job_id operation intent_hash e =
     (e_job_id e = job_id \<and> e_operation e = operation \<and> e_intent_hash e = intent_hash)"

abbreviation rebound :: error where
  "rebound \<equiv> SideEffectConflictError ''side-effect token is already bound to different intent''"

definition reserve_side_effect_tx ::
    "time \<Rightarrow> string \<Rightarrow> string \<Rightarrow> string \<Rightarrow> string \<Rightarrow> string \<Rightarrow> string \<Rightarrow> store \<Rightarrow> (reservation \<times> store) result" where
  "reserve_side_effect_tx now uuid job_id attempt_id token_hash operation intent_hash s =
     and_then (acting_attempt job_id attempt_id ''terminal attempts cannot reserve side effects'' s) (\<lambda>_.
       let row = reserved_row now uuid job_id token_hash operation intent_hash attempt_id in
       case insert_effect row s of
         Inr s' \<Rightarrow> Inr (\<lparr>rv_record = row, rv_created = True\<rparr>, s')
       | Inl e \<Rightarrow>
           and_then (fetch e (row_by e_token_hash token_hash (effects s))) (\<lambda>existing.
           and_then (guard (same_intent job_id operation intent_hash existing) rebound) (\<lambda>_.
             Inr (\<lparr>rv_record = existing, rv_created = False\<rparr>, s))))"

definition reserve_side_effect ::
    "env \<Rightarrow> time \<Rightarrow> string \<Rightarrow> string \<Rightarrow> string \<Rightarrow> string \<Rightarrow> string \<Rightarrow> json \<Rightarrow> reservation op" where
  "reserve_side_effect E now uuid job_id attempt_id token operation intent s =
     (case and_then (opaque_token_hash E token) (\<lambda>token_hash.
           and_then (required_text operation ''operation'') (\<lambda>operation. Inr (token_hash, operation))) of
        Inl e \<Rightarrow> (Inl e, s)
      | Inr h \<Rightarrow> transaction (reserve_side_effect_tx now uuid job_id attempt_id (fst h) (snd h) (mapping_hash E intent)) s)"

definition complete_edit :: "time \<Rightarrow> json \<Rightarrow> string \<Rightarrow> side_effect \<Rightarrow> side_effect" where
  "complete_edit now evidence evidence_hash e = e\<lparr>e_status := EffectCompleted,
     e_evidence := evidence, e_evidence_hash := Some evidence_hash,
     e_completed_at := Some now, e_updated_at := now\<rparr>"

definition completes :: "string \<Rightarrow> string \<Rightarrow> side_effect \<Rightarrow> bool" where
  "completes record_id attempt_id e =
     (e_id e = record_id \<and> e_status e = EffectReserved \<and> e_owner_attempt_id e = attempt_id)"

definition complete_side_effect_tx ::
    "time \<Rightarrow> string \<Rightarrow> string \<Rightarrow> json \<Rightarrow> string \<Rightarrow> store \<Rightarrow> (side_effect \<times> store) result" where
  "complete_side_effect_tx now record_id attempt_id evidence evidence_hash s =
     and_then (fetch (SideEffectNotFoundError record_id) (row_by e_id record_id (effects s))) (\<lambda>record.
     and_then (guard (e_owner_attempt_id record = attempt_id)
       (SideEffectConflictError ''only the reserving attempt can complete a side effect'')) (\<lambda>_.
     and_then (fetch (AttemptNotFoundError attempt_id) (attempt_by attempt_id s)) (\<lambda>attempt.
     and_then (guard (a_job_id attempt = e_job_id record)
       (SideEffectConflictError ''side-effect attempt does not belong to the logical job'')) (\<lambda>_.
       if e_status record = EffectCompleted then
         and_then (guard (e_evidence_hash record = Some evidence_hash)
           (SideEffectConflictError ''side effect already has different completion evidence'')) (\<lambda>_.
           Inr (record, s))
       else
         and_then (guard (\<not> terminal_attempt (a_status attempt))
           (InvalidStateTransitionError ''terminal attempts cannot complete side effects'')) (\<lambda>_.
           let s' = s\<lparr>effects := upd_where (completes record_id attempt_id)
                 (complete_edit now evidence evidence_hash) (effects s)\<rparr> in
         and_then (guard (changes (completes record_id attempt_id) (effects s) = 1)
           (ConcurrentUpdateError record_id)) (\<lambda>_.
         and_then (fetch (SideEffectNotFoundError record_id) (row_by e_id record_id (effects s'))) (\<lambda>updated.
           Inr (updated, s'))))))))"

definition complete_side_effect :: "env \<Rightarrow> time \<Rightarrow> string \<Rightarrow> string \<Rightarrow> json \<Rightarrow> side_effect op" where
  "complete_side_effect E now record_id attempt_id evidence s =
     (case and_then (safe_mapping E evidence ''completion evidence'') (\<lambda>safe_evidence.
           and_then (guard (truthy safe_evidence) (ValueError ''completion evidence is required'')) (\<lambda>_.
             Inr safe_evidence)) of
        Inl e \<Rightarrow> (Inl e, s)
      | Inr safe_evidence \<Rightarrow> transaction
          (complete_side_effect_tx now record_id attempt_id safe_evidence (mapping_hash E safe_evidence)) s)"

section \<open>The runtime event operation\<close>

definition EVENT_OPERATION :: string where
  "EVENT_OPERATION = ''runtime.event.enqueue''"

text \<open>The normalised intent: event type, redacted message and payload.\<close>

definition event_intent :: "env \<Rightarrow> string \<Rightarrow> string \<Rightarrow> json \<Rightarrow> json result" where
  "event_intent E event_type message payload =
     and_then (required_text event_type ''event_type'') (\<lambda>safe_event_type.
     and_then (required_text message ''message'') (\<lambda>text.
     and_then (safe_mapping E payload ''event payload'') (\<lambda>safe_payload.
       Inr (JObj [(''event_type'', JStr safe_event_type), (''message'', JStr (redact_text E text)),
         (''payload'', safe_payload)]))))"

definition delivery_evidence :: "string \<Rightarrow> json" where
  "delivery_evidence outbox_id = JObj [(''delivery'', JStr ''runtime_outbox''),
     (''event_id'', JStr (''evt_'' @ outbox_id)), (''outbox_id'', JStr outbox_id)]"

definition event_row ::
    "env \<Rightarrow> time \<Rightarrow> string \<Rightarrow> string \<Rightarrow> string \<Rightarrow> string \<Rightarrow> string \<Rightarrow> string \<Rightarrow> side_effect" where
  "event_row E now uuid outbox_id job_id token_hash intent_hash attempt_id =
     complete_edit now (delivery_evidence outbox_id) (mapping_hash E (delivery_evidence outbox_id))
       (reserved_row now uuid job_id token_hash EVENT_OPERATION intent_hash attempt_id)"

definition field :: "json \<Rightarrow> string \<Rightarrow> json" where
  "field j k = (case jget j k of None \<Rightarrow> JNull | Some v \<Rightarrow> v)"

definition event_entry :: "time \<Rightarrow> string \<Rightarrow> string \<Rightarrow> job \<Rightarrow> attempt \<Rightarrow> json \<Rightarrow> outbox_entry" where
  "event_entry now outbox_id record_id job attempt intent = \<lparr>
     o_id = outbox_id, o_aggregate_type = ''side_effect'', o_aggregate_id = record_id,
     o_event_type = ''side_effect_event'',
     o_dedupe_key = ''side-effect:'' @ record_id @ '':event'',
     o_payload = JObj [
       (''side_effect_id'', JStr record_id), (''session_id'', JStr (j_session_id job)),
       (''run_id'', JStr (a_run_id attempt)), (''job_id'', JStr (j_id job)),
       (''attempt_id'', JStr (a_id attempt)), (''event_type'', field intent ''event_type''),
       (''message'', field intent ''message''), (''event_payload'', field intent ''payload'')],
     o_created_at = now, o_processed_at = None, o_attempt_count = 0, o_last_error = None\<rparr>"

text \<open>The token is already bound: its completed record is reused, an open reservation blocks.\<close>

definition replay :: "string \<Rightarrow> string \<Rightarrow> side_effect \<Rightarrow> reservation result" where
  "replay job_id intent_hash existing =
     and_then (guard (same_intent job_id EVENT_OPERATION intent_hash existing) rebound) (\<lambda>_.
     and_then (guard (e_status existing = EffectCompleted) SideEffectBlockedError) (\<lambda>_.
       Inr \<lparr>rv_record = existing, rv_created = False\<rparr>))"

definition deliver_event ::
    "env \<Rightarrow> time \<Rightarrow> string \<Rightarrow> string \<Rightarrow> string \<Rightarrow> string \<Rightarrow> string \<Rightarrow> json \<Rightarrow> attempt \<Rightarrow> store
     \<Rightarrow> (reservation \<times> store) result" where
  "deliver_event E now uuid outbox_id job_id attempt_id token_hash intent attempt s =
     (let row = event_row E now uuid outbox_id job_id token_hash (mapping_hash E intent) attempt_id in
      and_then (insert_effect row s) (\<lambda>s1.
      and_then (fetch (JobNotFoundError job_id) (job_by job_id s1)) (\<lambda>job.
      and_then (insert_outbox (event_entry now outbox_id (e_id row) job attempt intent) s1) (\<lambda>s2.
        Inr (\<lparr>rv_record = row, rv_created = True\<rparr>, s2)))))"

definition enqueue_event_tx ::
    "env \<Rightarrow> time \<Rightarrow> string \<Rightarrow> string \<Rightarrow> string \<Rightarrow> string \<Rightarrow> string \<Rightarrow> json \<Rightarrow> store \<Rightarrow> (reservation \<times> store) result" where
  "enqueue_event_tx E now uuid outbox_uuid job_id attempt_id token_hash intent s =
     and_then (acting_attempt job_id attempt_id ''terminal attempts cannot execute side effects'' s) (\<lambda>attempt.
       case row_by e_token_hash token_hash (effects s) of
         Some existing \<Rightarrow> and_then (replay job_id (mapping_hash E intent) existing) (\<lambda>reservation. Inr (reservation, s))
       | None \<Rightarrow> deliver_event E now uuid (new_id ''outbox'' outbox_uuid) job_id attempt_id token_hash intent attempt s)"

definition enqueue_side_effect_event ::
    "env \<Rightarrow> time \<Rightarrow> string \<Rightarrow> string \<Rightarrow> string \<Rightarrow> string \<Rightarrow> string \<Rightarrow> string \<Rightarrow> string \<Rightarrow> json \<Rightarrow> reservation op" where
  "enqueue_side_effect_event E now uuid outbox_uuid job_id attempt_id token event_type message payload s =
     (case and_then (event_intent E event_type message payload) (\<lambda>intent.
           and_then (opaque_token_hash E token) (\<lambda>token_hash. Inr (intent, token_hash))) of
        Inl e \<Rightarrow> (Inl e, s)
      | Inr h \<Rightarrow> transaction (enqueue_event_tx E now uuid outbox_uuid job_id attempt_id (snd h) (fst h)) s)"

definition get_side_effect :: "string \<Rightarrow> store \<Rightarrow> side_effect result" where
  "get_side_effect record_id s = fetch (SideEffectNotFoundError record_id) (row_by e_id record_id (effects s))"

definition get_side_effect_for_token :: "env \<Rightarrow> string \<Rightarrow> store \<Rightarrow> side_effect result" where
  "get_side_effect_for_token E token s = and_then (opaque_token_hash E token) (\<lambda>token_hash.
     fetch (SideEffectNotFoundError token_hash) (row_by e_token_hash token_hash (effects s)))"

definition list_side_effects :: "string option \<Rightarrow> store \<Rightarrow> side_effect list" where
  "list_side_effects job_id s = order_by (\<lambda>e. (e_created_at e, e_id e))
     (filter (\<lambda>e. job_id = None \<or> Some (e_job_id e) = job_id) (effects s))"

section \<open>The executor\<close>

definition recovery_marker_intent :: "string \<Rightarrow> json" where
  "recovery_marker_intent job_id = JObj [
     (''event_type'', JStr ''durable_side_effect_recorded''),
     (''message'', JStr ''Recorded one durable Harness-owned side effect.''),
     (''payload'', JObj [(''job_id'', JStr job_id), (''result'', JStr ''recorded'')])]"

definition record_event_once ::
    "env \<Rightarrow> time \<Rightarrow> string \<Rightarrow> string \<Rightarrow> string \<Rightarrow> string \<Rightarrow> string \<Rightarrow> string \<Rightarrow> string \<Rightarrow> json \<Rightarrow> reservation op" where
  "record_event_once = enqueue_side_effect_event"

definition record_recovery_marker_once ::
    "env \<Rightarrow> time \<Rightarrow> string \<Rightarrow> string \<Rightarrow> string \<Rightarrow> string \<Rightarrow> string \<Rightarrow> reservation op" where
  "record_recovery_marker_once E now uuid outbox_uuid job_id attempt_id identity =
     (let intent = recovery_marker_intent job_id in
      record_event_once E now uuid outbox_uuid job_id attempt_id identity
        (or_else (optional_json_text (jget intent ''event_type'')) [])
        (or_else (optional_json_text (jget intent ''message'')) [])
        (field intent ''payload''))"

section \<open>Contracts\<close>

lemma acting_attempt_Inr:
  "acting_attempt job_id attempt_id refusal s = Inr a \<longleftrightarrow>
     attempt_by attempt_id s = Some a \<and> a_job_id a = job_id \<and> \<not> terminal_attempt (a_status a)"
  by (auto simp: acting_attempt_def and_then_Inr_iff)

lemma acting_attempt_owner:
  "acting_attempt job_id attempt_id refusal s = Inr a \<Longrightarrow>
   \<exists>a\<in>set (attempts s). a_id a = attempt_id \<and> a_job_id a = job_id"
  by (auto simp: acting_attempt_Inr dest: row_by_Some)

lemma reserved_row_simps [simp]:
  "e_job_id (reserved_row now u j th op ih a) = j" "e_owner_attempt_id (reserved_row now u j th op ih a) = a"
  "e_token_hash (reserved_row now u j th op ih a) = th" "e_intent_hash (reserved_row now u j th op ih a) = ih"
  "e_operation (reserved_row now u j th op ih a) = op" "e_status (reserved_row now u j th op ih a) = EffectReserved"
  "effect_settled (reserved_row now u j th op ih a)"
  by (simp_all add: reserved_row_def effect_settled_def)

lemma complete_edit_simps [simp]:
  "e_id (complete_edit now ev h e) = e_id e" "e_job_id (complete_edit now ev h e) = e_job_id e"
  "e_owner_attempt_id (complete_edit now ev h e) = e_owner_attempt_id e"
  "e_token_hash (complete_edit now ev h e) = e_token_hash e"
  "e_intent_hash (complete_edit now ev h e) = e_intent_hash e"
  "e_operation (complete_edit now ev h e) = e_operation e"
  "e_status (complete_edit now ev h e) = EffectCompleted"
  "e_evidence (complete_edit now ev h e) = ev" "e_evidence_hash (complete_edit now ev h e) = Some h"
  "effect_settled (complete_edit now ev h e)"
  by (simp_all add: complete_edit_def effect_settled_def)

lemma event_row_simps [simp]:
  "e_job_id (event_row E now u o_uuid j th ih a) = j"
  "e_owner_attempt_id (event_row E now u o_uuid j th ih a) = a"
  "e_token_hash (event_row E now u o_uuid j th ih a) = th"
  "e_status (event_row E now u o_uuid j th ih a) = EffectCompleted"
  "effect_settled (event_row E now u o_uuid j th ih a)"
  "same_intent j EVENT_OPERATION ih (event_row E now u o_uuid j th ih a)"
  by (simp_all add: event_row_def same_intent_def)

lemma reserve_side_effect_tx_legal:
  assumes "reserve_side_effect_tx now u j a th op ih s = Inr (r, s')"
  shows "legal s s'"
proof -
  from assms obtain att where att: "acting_attempt j a ''terminal attempts cannot reserve side effects'' s = Inr att"
    by (auto simp: reserve_side_effect_tx_def and_then_Inr_iff)
  have "s' = s \<or> insert_effect (reserved_row now u j th op ih a) s = Inr s'"
    using assms by (auto simp: reserve_side_effect_tx_def and_then_Inr_iff Let_def split: sum.splits)
  moreover have "legal s s'" if "insert_effect (reserved_row now u j th op ih a) s = Inr s'"
    using that by (rule insert_effect_legal) (simp_all add: acting_attempt_owner [OF att])
  ultimately show ?thesis by blast
qed

interpretation reserve_side_effect: coordination_op "reserve_side_effect E now u j a tok op itn" for E now u j a tok op itn
  by unfold_locales
    (auto simp: reserve_side_effect_def intro!: transaction_legal dest: reserve_side_effect_tx_legal split: sum.split)

lemma complete_edit_legal:
  "legal s (s\<lparr>effects := upd_where (completes i a) (complete_edit now ev h) (effects s)\<rparr>)"
  by (rule update_effects_legal) (simp add: effect_next_def completes_def)

lemma complete_side_effect_tx_legal: "complete_side_effect_tx now i a ev h s = Inr (r, s') \<Longrightarrow> legal s s'"
  by (auto simp: complete_side_effect_tx_def and_then_Inr_iff Let_def complete_edit_legal split: if_splits)

interpretation complete_side_effect: coordination_op "complete_side_effect E now i a ev" for E now i a ev
  by unfold_locales
    (auto simp: complete_side_effect_def intro!: transaction_legal dest: complete_side_effect_tx_legal split: sum.split)

text \<open>The stages of an event that is delivered for the first time.\<close>

lemma deliver_event_stages:
  assumes "deliver_event E now u oi j a th intent att s = Inr (r, s')"
  obtains s1 job where "insert_effect (event_row E now u oi j th (mapping_hash E intent) a) s = Inr s1"
    "job_by j s1 = Some job"
    "insert_outbox (event_entry now oi (e_id (event_row E now u oi j th (mapping_hash E intent) a)) job att intent) s1 = Inr s'"
    "r = \<lparr>rv_record = event_row E now u oi j th (mapping_hash E intent) a, rv_created = True\<rparr>"
  using assms unfolding deliver_event_def Let_def and_then_Inr_iff fetch_Inr
  by (elim exE conjE) (rule that, assumption, assumption, simp_all)

lemma enqueue_event_tx_cases:
  assumes "enqueue_event_tx E now u ou j a th intent s = Inr (r, s')"
  obtains (New) att job s1 where
    "acting_attempt j a ''terminal attempts cannot execute side effects'' s = Inr att"
    "row_by e_token_hash th (effects s) = None"
    "insert_effect (event_row E now u (new_id ''outbox'' ou) j th (mapping_hash E intent) a) s = Inr s1"
    "job_by j s = Some job"
    "insert_outbox (event_entry now (new_id ''outbox'' ou)
       (e_id (event_row E now u (new_id ''outbox'' ou) j th (mapping_hash E intent) a)) job att intent) s1 = Inr s'"
    "r = \<lparr>rv_record = event_row E now u (new_id ''outbox'' ou) j th (mapping_hash E intent) a, rv_created = True\<rparr>"
  | (Replayed) e where "row_by e_token_hash th (effects s) = Some e"
    "same_intent j EVENT_OPERATION (mapping_hash E intent) e" "e_status e = EffectCompleted"
    "r = \<lparr>rv_record = e, rv_created = False\<rparr>" "s' = s"
proof -
  from assms obtain att where att: "acting_attempt j a ''terminal attempts cannot execute side effects'' s = Inr att"
    and rest: "(case row_by e_token_hash th (effects s) of
         Some existing \<Rightarrow> and_then (replay j (mapping_hash E intent) existing) (\<lambda>reservation. Inr (reservation, s))
       | None \<Rightarrow> deliver_event E now u (new_id ''outbox'' ou) j a th intent att s) = Inr (r, s')"
    by (auto simp: enqueue_event_tx_def and_then_Inr_iff)
  show thesis
  proof (cases "row_by e_token_hash th (effects s)")
    case None
    let ?row = "event_row E now u (new_id ''outbox'' ou) j th (mapping_hash E intent) a"
    from None rest have "deliver_event E now u (new_id ''outbox'' ou) j a th intent att s = Inr (r, s')" by simp
    then obtain s1 job where ins: "insert_effect ?row s = Inr s1" and "job_by j s1 = Some job"
      and "insert_outbox (event_entry now (new_id ''outbox'' ou) (e_id ?row) job att intent) s1 = Inr s'"
      and "r = \<lparr>rv_record = ?row, rv_created = True\<rparr>"
      by (rule deliver_event_stages)
    moreover have "jobs s1 = jobs s" using ins by (auto simp: insert_effect_def split: if_splits)
    ultimately show thesis using att None by (intro New) simp_all
  next
    case (Some e)
    with rest have rep: "replay j (mapping_hash E intent) e = Inr r" and "s' = s"
      by (auto simp: and_then_Inr_iff)
    from rep have "same_intent j EVENT_OPERATION (mapping_hash E intent) e" "e_status e = EffectCompleted"
      "r = \<lparr>rv_record = e, rv_created = False\<rparr>"
      by (auto simp: replay_def and_then_Inr_iff)
    with Some show thesis using \<open>s' = s\<close> by (rule Replayed)
  qed
qed

lemma enqueue_event_tx_legal:
  assumes "enqueue_event_tx E now u ou j a th intent s = Inr (r, s')"
  shows "legal s s'"
  using assms
proof (cases rule: enqueue_event_tx_cases)
  case (New att job s1)
  from New(3) have "legal s s1" by (rule insert_effect_legal) (simp_all add: acting_attempt_owner [OF New(1)])
  moreover from New(5) have "legal s1 s'" by (rule insert_outbox_legal)
  ultimately show ?thesis by (rule legal_trans)
next
  case (Replayed e)
  then show ?thesis by simp
qed

interpretation enqueue_side_effect_event: coordination_op "enqueue_side_effect_event E now u ou j a tok et msg pl"
  for E now u ou j a tok et msg pl
  by unfold_locales
    (auto simp: enqueue_side_effect_event_def intro!: transaction_legal dest: enqueue_event_tx_legal split: sum.split)

section \<open>Exactly once\<close>

text \<open>A completed record keeps its token.\<close>

lemma completed_persists:
  assumes "evolves s s'" "db_ok s'" "e \<in> set (effects s)" "e_status e = EffectCompleted"
  shows "row_by e_token_hash (e_token_hash e) (effects s') = Some e"
proof -
  have "e \<in> set (effects s')"
    using assms(1,3,4) by (auto simp: evolves_def rows_next_def effect_next_def)
  moreover have "distinct (map e_token_hash (effects s'))" using assms(2) by (simp add: db_ok_defs)
  ultimately show ?thesis by (metis row_by_distinct)
qed

text \<open>
  C8. A runtime event is delivered exactly once per token. The first successful call adds one
  completed side-effect record and one outbox entry for the run of the acting attempt, and
  changes nothing else. After it, in whatever state the database evolves to, every call with the same
  token and intent by any live attempt of the job (a retry after a crash, a later attempt)
  returns the same record without writing anything.
\<close>

theorem side_effect_event_exactly_once:
  assumes ok: "db_ok s" and first: "enqueue_side_effect_event E now u ou j a tok et msg pl s = (Inr r, s1)"
    and later: "evolves s1 s2" "db_ok s2"
    and retry: "attempt_by a' s2 = Some att'" "a_job_id att' = j" "\<not> terminal_attempt (a_status att')"
  shows "enqueue_side_effect_event E now' u' ou' j a' tok et msg pl s2
      = (Inr \<lparr>rv_record = rv_record r, rv_created = False\<rparr>, s2) \<and>
    (if rv_created r
     then \<exists>job att intent x. job_by j s = Some job \<and> attempt_by a s = Some att \<and> event_intent E et msg pl = Inr intent \<and>
       x = event_entry now (new_id ''outbox'' ou) (e_id (rv_record r)) job att intent \<and>
       s1 = s\<lparr>effects := effects s @ [rv_record r], outbox := outbox s @ [x]\<rparr>
     else s1 = s)"
proof -
  obtain intent th where intent: "event_intent E et msg pl = Inr intent" "opaque_token_hash E tok = Inr th"
    and tx: "enqueue_event_tx E now u ou j a th intent s = Inr (r, s1)"
    using first by (auto simp: enqueue_side_effect_event_def and_then_Inr_iff transaction_Inr_iff split: sum.splits)
  have rec: "rv_record r \<in> set (effects s1) \<and> e_token_hash (rv_record r) = th \<and> e_status (rv_record r) = EffectCompleted
      \<and> same_intent j EVENT_OPERATION (mapping_hash E intent) (rv_record r) \<and>
      (if rv_created r then \<exists>job att x. job_by j s = Some job \<and> attempt_by a s = Some att \<and>
         x = event_entry now (new_id ''outbox'' ou) (e_id (rv_record r)) job att intent \<and>
         s1 = s\<lparr>effects := effects s @ [rv_record r], outbox := outbox s @ [x]\<rparr> else s1 = s)"
    using tx
  proof (cases rule: enqueue_event_tx_cases)
    case (New att job s0)
    have s0: "s0 = s\<lparr>effects := effects s @ [rv_record r]\<rparr>"
      using New(3,6) by (auto simp: insert_effect_def split: if_splits)
    have "s1 = s0\<lparr>outbox := outbox s0 @ [event_entry now (new_id ''outbox'' ou) (e_id (rv_record r)) job att intent]\<rparr>"
      using New(5,6) by (auto simp: insert_outbox_def split: if_splits)
    with s0 New(1,4,6) show ?thesis by (simp add: acting_attempt_Inr)
  next
    case (Replayed e)
    then show ?thesis by (auto dest: row_by_Some)
  qed
  have "row_by e_token_hash th (effects s2) = Some (rv_record r)"
    using completed_persists [OF later] rec by metis
  then have "enqueue_event_tx E now' u' ou' j a' th intent s2 = Inr (\<lparr>rv_record = rv_record r, rv_created = False\<rparr>, s2)"
    using rec retry by (simp add: enqueue_event_tx_def acting_attempt_def replay_def)
  then have "enqueue_side_effect_event E now' u' ou' j a' tok et msg pl s2
      = (Inr \<lparr>rv_record = rv_record r, rv_created = False\<rparr>, s2)"
    using intent by (simp add: enqueue_side_effect_event_def)
  moreover have "if rv_created r
     then \<exists>job att intent x. job_by j s = Some job \<and> attempt_by a s = Some att \<and> event_intent E et msg pl = Inr intent \<and>
       x = event_entry now (new_id ''outbox'' ou) (e_id (rv_record r)) job att intent \<and>
       s1 = s\<lparr>effects := effects s @ [rv_record r], outbox := outbox s @ [x]\<rparr>
     else s1 = s"
  proof (cases "rv_created r")
    case True
    with rec intent(1) show ?thesis by (simp only: if_True) blast
  next
    case False
    with rec show ?thesis by (simp only: if_False)
  qed
  ultimately show ?thesis by blast
qed

theorem side_effect_event_exactly_once_witness:
  "\<exists>r s1. enqueue_side_effect_event sample_env 20 ''7'' ''8'' ''job_1'' ''attempt_1'' ''t'' ''note'' ''done'' (JObj []) running_store = (Inr r, s1)
     \<and> rv_created r
     \<and> enqueue_side_effect_event sample_env 30 ''9'' ''9'' ''job_1'' ''attempt_1'' ''t'' ''note'' ''done'' (JObj []) s1
         = (Inr \<lparr>rv_record = rv_record r, rv_created = False\<rparr>, s1)"
proof -
  let ?run = "enqueue_side_effect_event sample_env 20 ''7'' ''8'' ''job_1'' ''attempt_1'' ''t'' ''note'' ''done'' (JObj []) running_store"
  have "(case fst ?run of Inl e \<Rightarrow> False | Inr r \<Rightarrow> rv_created r)" by code_simp
  then obtain r where run: "?run = (Inr r, snd ?run)" and r: "rv_created r"
    by (cases "fst ?run") (auto simp: prod_eq_iff)
  have ok: "db_ok (snd ?run)" by (rule enqueue_side_effect_event.op_keeps_ok [OF sample_ok(2)])
  have att: "attempt_by ''attempt_1'' (snd ?run) = Some sample_attempt"
    "a_job_id sample_attempt = ''job_1''" "\<not> terminal_attempt (a_status sample_attempt)" by code_simp+
  from side_effect_event_exactly_once [OF sample_ok(2) run evolves_refl ok att] run r show ?thesis by blast
qed

text \<open>
  C31. A token is bound to one intent. Once any reservation holds a token, a later reservation with it
  is answered from the stored record when job, operation and intent agree, and refused as a
  conflict when one of them differs; the runtime event operation is answered only from a completed record
  and blocked by an open one, so that an effect whose outcome is unknown is never replayed. The
  database does not change in any of these cases.
\<close>

theorem side_effect_token_binds_intent:
  assumes ok: "db_ok s" and e: "e \<in> set (effects s)" "opaque_token_hash E tok = Inr (e_token_hash e)"
    and live: "attempt_by a s = Some att" "a_job_id att = j" "\<not> terminal_attempt (a_status att)"
    and args: "required_text operation ''operation'' = Inr op" "event_intent E et msg pl = Inr intent"
  shows "reserve_side_effect E now u j a tok operation itn s =
      (if same_intent j op (mapping_hash E itn) e then Inr \<lparr>rv_record = e, rv_created = False\<rparr> else Inl rebound, s) \<and>
    enqueue_side_effect_event E now u ou j a tok et msg pl s =
      (if \<not> same_intent j EVENT_OPERATION (mapping_hash E intent) e then Inl rebound
       else if e_status e = EffectCompleted then Inr \<lparr>rv_record = e, rv_created = False\<rparr>
       else Inl SideEffectBlockedError, s)"
proof -
  have row: "row_by e_token_hash (e_token_hash e) (effects s) = Some e"
    using ok e(1) by (intro row_by_distinct) (simp_all add: db_ok_defs)
  have taken: "insert_effect (reserved_row now u j (e_token_hash e) op (mapping_hash E itn) a) s = Inl IntegrityError"
    using e(1) by (simp add: insert_effect_def)
  have act: "acting_attempt j a refusal s = Inr att" for refusal using live by (simp add: acting_attempt_Inr)
  have "reserve_side_effect_tx now u j a (e_token_hash e) op (mapping_hash E itn) s =
      (if same_intent j op (mapping_hash E itn) e then Inr (\<lparr>rv_record = e, rv_created = False\<rparr>, s) else Inl rebound)"
    using act row taken by (simp add: reserve_side_effect_tx_def Let_def)
  moreover have "enqueue_event_tx E now u ou j a (e_token_hash e) intent s =
      (if \<not> same_intent j EVENT_OPERATION (mapping_hash E intent) e then Inl rebound
       else if e_status e = EffectCompleted then Inr (\<lparr>rv_record = e, rv_created = False\<rparr>, s)
       else Inl SideEffectBlockedError)"
    using act row by (simp add: enqueue_event_tx_def replay_def)
  ultimately show ?thesis using e(2) args
    by (simp add: reserve_side_effect_def enqueue_side_effect_event_def)
qed

definition reserved_store :: store where
  "reserved_store = running_store\<lparr>effects :=
     [reserved_row 15 ''5'' ''job_1'' ''#t'' ''deploy'' ''#{}'' ''attempt_1'']\<rparr>"

lemma reserved_store_ok: "db_ok reserved_store"
  by code_simp

theorem side_effect_token_binds_intent_witness:
  "reserve_side_effect sample_env 20 ''7'' ''job_1'' ''attempt_1'' ''t'' ''deploy'' (JObj [(''n'', JInt 1)]) reserved_store
     = (Inl rebound, reserved_store)"
proof -
  let ?e = "reserved_row 15 ''5'' ''job_1'' ''#t'' ''deploy'' ''#{}'' ''attempt_1''"
  have e: "?e \<in> set (effects reserved_store)" "opaque_token_hash sample_env ''t'' = Inr (e_token_hash ?e)"
    by (simp_all add: reserved_store_def) code_simp
  have live: "attempt_by ''attempt_1'' reserved_store = Some sample_attempt" "a_job_id sample_attempt = ''job_1''"
    "\<not> terminal_attempt (a_status sample_attempt)" by code_simp+
  have args: "required_text ''deploy'' ''operation'' = Inr ''deploy''"
    "event_intent sample_env ''x'' ''y'' (JObj []) = Inr (JObj [(''event_type'', JStr ''x''), (''message'', JStr ''y''), (''payload'', JObj [])])"
    by code_simp+
  have "\<not> same_intent ''job_1'' ''deploy'' (mapping_hash sample_env (JObj [(''n'', JInt 1)])) ?e" by code_simp
  then show ?thesis using side_effect_token_binds_intent [OF reserved_store_ok e live args] by simp
qed

text \<open>
  C32. Completion is owned and final. If \<open>complete_side_effect\<close> returns, the record was reserved by the
  calling attempt, it is completed now with the redacted evidence and its hash, and at most this
  record changed. From then on, in whatever state the database evolves to, the same evidence is
  answered with the same record and any other evidence is refused, without a change.
\<close>

theorem complete_side_effect_final:
  assumes ok: "db_ok s" and run: "complete_side_effect E now i a ev s = (Inr e', s')"
    and later: "evolves s' s2" "db_ok s2"
    and again: "safe_mapping E ev2 ''completion evidence'' = Inr safe2" "truthy safe2"
  shows "(\<exists>e safe. row_by e_id i (effects s) = Some e \<and> e_owner_attempt_id e = a \<and>
      safe_mapping E ev ''completion evidence'' = Inr safe \<and> row_by e_id i (effects s') = Some e' \<and>
      e_status e' = EffectCompleted \<and> e_evidence_hash e' = Some (mapping_hash E safe) \<and>
      (if e_status e = EffectCompleted then e' = e \<and> s' = s
       else e' = complete_edit now safe (mapping_hash E safe) e \<and>
         s' = s\<lparr>effects := upd_where (\<lambda>x. x = e) (\<lambda>_. e') (effects s)\<rparr>)) \<and>
    complete_side_effect E now2 i a ev2 s2 =
      (if Some (mapping_hash E safe2) = e_evidence_hash e' then Inr e'
       else Inl (SideEffectConflictError ''side effect already has different completion evidence''), s2)"
proof -
  obtain safe where safe: "safe_mapping E ev ''completion evidence'' = Inr safe"
    and tx: "complete_side_effect_tx now i a safe (mapping_hash E safe) s = Inr (e', s')"
    using run by (auto simp: complete_side_effect_def and_then_Inr_iff transaction_Inr_iff split: sum.splits)
  obtain e att where e: "row_by e_id i (effects s) = Some e" "e_owner_attempt_id e = a"
    and att: "attempt_by a s = Some att" "a_job_id att = e_job_id e"
    and rest: "if e_status e = EffectCompleted then e_evidence_hash e = Some (mapping_hash E safe) \<and> e' = e \<and> s' = s
      else s' = s\<lparr>effects := upd_where (completes i a) (complete_edit now safe (mapping_hash E safe)) (effects s)\<rparr>
        \<and> row_by e_id i (effects s') = Some e'"
    using tx by (auto simp: complete_side_effect_tx_def and_then_Inr_iff Let_def split: if_splits)
  note ei = row_by_SomeD [OF e(1)] row_by_key [OF e(1)]
  have inj: "x = y" if "x \<in> set (effects s)" "y \<in> set (effects s)" "e_id x = e_id y" for x y
    using that db_ok_effects [OF ok] by (auto simp: distinct_map inj_on_def)
  have main: "row_by e_id i (effects s') = Some e' \<and> e_status e' = EffectCompleted \<and> e_job_id e' = e_job_id e
      \<and> e_owner_attempt_id e' = a \<and> attempts s' = attempts s
      \<and> e_evidence_hash e' = Some (mapping_hash E safe) \<and>
      (if e_status e = EffectCompleted then e' = e \<and> s' = s
       else e' = complete_edit now safe (mapping_hash E safe) e \<and>
         s' = s\<lparr>effects := upd_where (\<lambda>x. x = e) (\<lambda>_. e') (effects s)\<rparr>)"
  proof (cases "e_status e = EffectCompleted")
    case True
    with rest e show ?thesis by simp
  next
    case False
    then have reserved: "e_status e = EffectReserved" by (cases "e_status e") auto
    let ?f = "complete_edit now safe (mapping_hash E safe)"
    have "completes i a x \<longleftrightarrow> x = e" if "x \<in> set (effects s)" for x
      using inj [OF that ei(1)] ei e(2) reserved by (auto simp: completes_def)
    then have upd: "upd_where (completes i a) ?f (effects s) = upd_where (\<lambda>x. x = e) (\<lambda>_. ?f e) (effects s)"
      by (rule upd_where_single)
    have "row_by e_id i (upd_where (completes i a) ?f (effects s)) = Some (?f e)"
      using e reserved ei by (intro row_by_updated) (auto simp: completes_def)
    moreover have "s' = s\<lparr>effects := upd_where (completes i a) ?f (effects s)\<rparr> \<and> row_by e_id i (effects s') = Some e'"
      using rest unfolding if_not_P [OF False] .
    then have s': "s' = s\<lparr>effects := upd_where (completes i a) ?f (effects s)\<rparr>" and r': "row_by e_id i (effects s') = Some e'"
      by blast+
    ultimately have e': "e' = ?f e" by simp
    have "s' = s\<lparr>effects := upd_where (\<lambda>x. x = e) (\<lambda>_. e') (effects s)\<rparr>" unfolding e' s' upd ..
    moreover have "attempts s' = attempts s" by (simp add: s')
    ultimately show ?thesis using r' e' False e(2) by (simp only: if_False complete_edit_simps)
  qed
  have e2: "row_by e_id i (effects s2) = Some e'"
  proof -
    have "e' \<in> set (effects s')" "e_id e' = i" using main by (auto dest: row_by_Some)
    then have "e' \<in> set (effects s2)"
      using later(1) main by (auto simp: evolves_def rows_next_def effect_next_def)
    with row_by_distinct [OF db_ok_effects [OF later(2)], of e'] \<open>e_id e' = i\<close> show ?thesis by simp
  qed
  obtain att2 where att2: "attempt_by a s2 = Some att2" "a_job_id att2 = e_job_id e"
  proof -
    have "att \<in> set (attempts s')" "a_id att = a" using main att(1) by (auto dest: row_by_Some)
    then obtain b where "b \<in> set (attempts s2)" "attempt_next att b"
      using later(1) by (auto simp: evolves_def rows_next_def)
    then have "b \<in> set (attempts s2)" "a_id b = a" "a_job_id b = a_job_id att"
      using \<open>a_id att = a\<close> by (auto simp: attempt_next_def attempt_edit_def attempt_key_def)
    with row_by_distinct [OF db_ok_attempts [OF later(2)], of b] att(2) that show thesis by simp
  qed
  have "complete_side_effect_tx now2 i a safe2 (mapping_hash E safe2) s2 =
      (if Some (mapping_hash E safe2) = e_evidence_hash e' then Inr (e', s2)
       else Inl (SideEffectConflictError ''side effect already has different completion evidence''))"
    using e2 att2 main by (auto simp: complete_side_effect_tx_def guard_def)
  then have "complete_side_effect E now2 i a ev2 s2 =
      (if Some (mapping_hash E safe2) = e_evidence_hash e' then Inr e'
       else Inl (SideEffectConflictError ''side effect already has different completion evidence''), s2)"
    using again by (simp add: complete_side_effect_def)
  with main e safe show ?thesis by blast
qed

theorem complete_side_effect_final_witness:
  "\<exists>e s'. complete_side_effect sample_env 20 ''effect_5'' ''attempt_1'' (JObj [(''n'', JInt 1)]) reserved_store = (Inr e, s')
     \<and> complete_side_effect sample_env 30 ''effect_5'' ''attempt_1'' (JObj [(''n'', JInt 2)]) s'
         = (Inl (SideEffectConflictError ''side effect already has different completion evidence''), s')"
proof -
  let ?run = "complete_side_effect sample_env 20 ''effect_5'' ''attempt_1'' (JObj [(''n'', JInt 1)]) reserved_store"
  have "(case fst ?run of Inl e \<Rightarrow> False | Inr e \<Rightarrow> e_evidence_hash e \<noteq> Some (mapping_hash sample_env (JObj [(''n'', JInt 2)])))"
    by code_simp
  then obtain e where run: "?run = (Inr e, snd ?run)"
    and e: "e_evidence_hash e \<noteq> Some (mapping_hash sample_env (JObj [(''n'', JInt 2)]))"
    by (cases "fst ?run") (auto simp: prod_eq_iff)
  have ok: "db_ok (snd ?run)" by (rule complete_side_effect.op_keeps_ok [OF reserved_store_ok])
  have again: "safe_mapping sample_env (JObj [(''n'', JInt 2)]) ''completion evidence'' = Inr (JObj [(''n'', JInt 2)])"
    "truthy (JObj [(''n'', JInt 2)])" by code_simp+
  from complete_side_effect_final [OF reserved_store_ok run evolves_refl ok again, of 30] run e show ?thesis by auto
qed

end
