(* ===== verification/Session_Models.thy ===== *)
theory Session_Models
  imports Models
begin

text \<open>
  The records of the session history (\<open>sessions/models.py\<close>) and their dictionary forms. Timestamps
  are ISO texts here, as the session stores compare and sort them as texts. \<open>py_str\<close> is
  Python's \<open>str\<close> on JSON scalars, as in \<open>optional_json_text\<close>.
\<close>

section \<open>Enumerations\<close>

datatype api_mode = API_V1 | API_V2

fun api_mode_value :: "api_mode \<Rightarrow> string" where
  "api_mode_value API_V1 = ''v1''"
| "api_mode_value API_V2 = ''v2''"

datatype capability = CHAT_COMPLETIONS | RESPONSES | ANTHROPIC_MESSAGES | GEMINI_GENERATE_CONTENT
  | AGENT_CLI | FILE_EDIT | SHELL

fun capability_value :: "capability \<Rightarrow> string" where
  "capability_value CHAT_COMPLETIONS = ''chat_completions''"
| "capability_value RESPONSES = ''responses''"
| "capability_value ANTHROPIC_MESSAGES = ''anthropic_messages''"
| "capability_value GEMINI_GENERATE_CONTENT = ''gemini_generate_content''"
| "capability_value AGENT_CLI = ''agent_cli''"
| "capability_value FILE_EDIT = ''file_edit''"
| "capability_value SHELL = ''shell''"

datatype invocation_mode = HEADLESS | NATIVE_INVOCATION

fun invocation_mode_value :: "invocation_mode \<Rightarrow> string" where
  "invocation_mode_value HEADLESS = ''headless''"
| "invocation_mode_value NATIVE_INVOCATION = ''native''"

datatype native_status = MANAGED_NATIVE | EXTERNAL_NATIVE | IMPORTED | LINKED | READONLY

fun native_status_value :: "native_status \<Rightarrow> string" where
  "native_status_value MANAGED_NATIVE = ''managed_native''"
| "native_status_value EXTERNAL_NATIVE = ''external_native''"
| "native_status_value IMPORTED = ''imported''"
| "native_status_value LINKED = ''linked''"
| "native_status_value READONLY = ''readonly''"

section \<open>Reading JSON values\<close>

fun py_str :: "json \<Rightarrow> string" where
  "py_str JNull = ''None''"
| "py_str (JBool b) = (if b then ''True'' else ''False'')"
| "py_str (JInt n) = show_int n"
| "py_str (JStr s) = s"
| "py_str v = canonical v"

text \<open>A missing or blank value selects the fallback, any other text must name a member.\<close>

definition parse_member :: "('e \<Rightarrow> string) \<Rightarrow> 'e list \<Rightarrow> 'e \<Rightarrow> json option \<Rightarrow> 'e result" where
  "parse_member value members fallback v = (case v of
     None \<Rightarrow> Inr fallback
   | Some JNull \<Rightarrow> Inr fallback
   | Some w \<Rightarrow> if strip (py_str w) = [] then Inr fallback else enum_of value members (lower (strip (py_str w))))"

definition parse_api_mode :: "json option \<Rightarrow> api_mode result" where
  "parse_api_mode = parse_member api_mode_value [API_V1, API_V2] API_V2"

definition parse_capability :: "json option \<Rightarrow> capability result" where
  "parse_capability = parse_member capability_value
     [CHAT_COMPLETIONS, RESPONSES, ANTHROPIC_MESSAGES, GEMINI_GENERATE_CONTENT, AGENT_CLI, FILE_EDIT, SHELL]
     CHAT_COMPLETIONS"

definition parse_invocation_mode :: "json option \<Rightarrow> invocation_mode result" where
  "parse_invocation_mode = parse_member invocation_mode_value [HEADLESS, NATIVE_INVOCATION] HEADLESS"

definition parse_native_session_status :: "json option \<Rightarrow> native_status result" where
  "parse_native_session_status = parse_member native_status_value
     [MANAGED_NATIVE, EXTERNAL_NATIVE, IMPORTED, LINKED, READONLY] READONLY"

text \<open>\<open>str(data[key])\<close>, \<open>str(data.get(key) or fallback)\<close>, \<open>_optional_text\<close> and \<open>_mapping\<close> of an entry.\<close>

definition required_entry :: "json \<Rightarrow> string \<Rightarrow> string result" where
  "required_entry data key = (case jget data key of None \<Rightarrow> Inl (KeyError key) | Some v \<Rightarrow> Inr (py_str v))"

definition entry_or :: "json \<Rightarrow> string \<Rightarrow> string \<Rightarrow> string" where
  "entry_or data key fallback = (case jget data key of
     None \<Rightarrow> fallback | Some v \<Rightarrow> if truthy v then py_str v else fallback)"

definition optional_entry :: "json \<Rightarrow> string \<Rightarrow> string option" where
  "optional_entry data key = optional_json_text (jget data key)"

definition mapping_entry :: "json \<Rightarrow> string \<Rightarrow> json" where
  "mapping_entry data key = (case jget_mapping data key of None \<Rightarrow> JObj [] | Some v \<Rightarrow> v)"

text \<open>\<open>tuple(str(item) for item in data.get(key, ()))\<close>.\<close>

definition text_items :: "json \<Rightarrow> string \<Rightarrow> string list result" where
  "text_items data key = (case jget data key of
     None \<Rightarrow> Inr []
   | Some (JList vs) \<Rightarrow> Inr (map py_str vs)
   | Some (JStr s) \<Rightarrow> Inr (map (\<lambda>c. [c]) s)
   | Some (JObj kvs) \<Rightarrow> Inr (map fst kvs)
   | Some _ \<Rightarrow> Inl (TypeError ''not iterable''))"

definition is_digit :: "char \<Rightarrow> bool" where
  "is_digit c = (let n = (of_char c :: nat) in 48 \<le> n \<and> n \<le> 57)"

definition digits_value :: "string \<Rightarrow> int" where
  "digits_value s = foldl (\<lambda>n c. 10 * n + (of_char c - 48)) 0 s"

text \<open>\<open>int(text)\<close> on a plain decimal literal (Python also accepts underscores between digits).\<close>

definition parse_int :: "string \<Rightarrow> int result" where
  "parse_int text = (let t = strip text;
       neg = (t \<noteq> [] \<and> hd t = CHR ''-'');
       body = (if t \<noteq> [] \<and> (hd t = CHR ''-'' \<or> hd t = CHR ''+'') then tl t else t)
     in if body \<noteq> [] \<and> list_all is_digit body
        then Inr (if neg then - digits_value body else digits_value body)
        else Inl (ValueError ''invalid literal for int()''))"

definition optional_int :: "json option \<Rightarrow> int option result" where
  "optional_int v = (case v of
     None \<Rightarrow> Inr None
   | Some JNull \<Rightarrow> Inr None
   | Some (JInt n) \<Rightarrow> Inr (Some n)
   | Some (JBool b) \<Rightarrow> Inr (Some (if b then 1 else 0))
   | Some (JStr s) \<Rightarrow> and_then (parse_int s) (\<lambda>n. Inr (Some n))
   | Some _ \<Rightarrow> Inl (TypeError ''int() argument''))"

section \<open>Records\<close>

record session =
  ss_id :: string
  ss_title :: string
  ss_created_at :: string
  ss_updated_at :: string
  ss_workspace :: "string option"
  ss_default_harness_id :: string
  ss_default_model :: "string option"
  ss_default_api_mode :: api_mode
  ss_default_mode :: string
  ss_pinned :: bool
  ss_archived :: bool
  ss_tags :: "string list"
  ss_native :: json
  ss_metadata :: json

record message =
  ms_id :: string
  ms_session_id :: string
  ms_run_id :: "string option"
  ms_role :: string
  ms_content :: string
  ms_created_at :: string
  ms_harness_id :: "string option"
  ms_model :: "string option"
  ms_api_mode :: "api_mode option"
  ms_metadata :: json

record run =
  u_id :: string
  u_session_id :: string
  u_harness_id :: string
  u_status :: run_status
  u_prompt :: string
  u_model :: "string option"
  u_api_mode :: api_mode
  u_capability :: capability
  u_mode :: string
  u_workspace :: "string option"
  u_created_at :: string
  u_updated_at :: string
  u_invocation_mode :: invocation_mode
  u_started_at :: "string option"
  u_finished_at :: "string option"
  u_error :: "string option"
  u_command :: "string list"
  u_native_session_id :: "string option"
  u_metadata :: json

record event =
  ev_id :: string
  ev_session_id :: string
  ev_run_id :: string
  ev_type :: string
  ev_message :: string
  ev_payload :: json
  ev_created_at :: string
  ev_trace_id :: "string option"
  ev_span_id :: "string option"
  ev_parent_span_id :: "string option"
  ev_sequence :: "int option"
  ev_job_id :: "string option"
  ev_attempt_id :: "string option"
  ev_workflow_id :: "string option"
  ev_workflow_step_id :: "string option"
  ev_agent_id :: "string option"
  ev_span_kind :: "string option"
  ev_span_status :: "string option"

record raw_record =
  rr_id :: string
  rr_session_id :: string
  rr_run_id :: string
  rr_payload :: json
  rr_created_at :: string

record native_link =
  nl_id :: string
  nl_session_id :: string
  nl_harness_id :: string
  nl_status :: native_status
  nl_created_at :: string
  nl_updated_at :: string
  nl_native_session_id :: "string option"
  nl_native_ref_id :: "string option"
  nl_source :: "string option"
  nl_workspace :: "string option"
  nl_metadata :: json

section \<open>Dictionary forms\<close>

definition opt_json :: "string option \<Rightarrow> json" where
  "opt_json t = (case t of None \<Rightarrow> JNull | Some x \<Rightarrow> JStr x)"

definition session_to_dict :: "session \<Rightarrow> json" where
  "session_to_dict s = JObj [
     (''id'', JStr (ss_id s)), (''title'', JStr (ss_title s)),
     (''created_at'', JStr (ss_created_at s)), (''updated_at'', JStr (ss_updated_at s)),
     (''workspace'', opt_json (ss_workspace s)),
     (''default_harness_id'', JStr (ss_default_harness_id s)),
     (''default_model'', opt_json (ss_default_model s)),
     (''default_api_mode'', JStr (api_mode_value (ss_default_api_mode s))),
     (''default_mode'', JStr (ss_default_mode s)), (''pinned'', JBool (ss_pinned s)),
     (''archived'', JBool (ss_archived s)), (''tags'', JList (map JStr (ss_tags s))),
     (''native'', ss_native s), (''metadata'', ss_metadata s)]"

definition session_from_dict :: "json \<Rightarrow> session result" where
  "session_from_dict d =
     and_then (required_entry d ''id'') (\<lambda>i.
     and_then (required_entry d ''created_at'') (\<lambda>created.
     and_then (parse_api_mode (jget d ''default_api_mode'')) (\<lambda>mode.
     and_then (text_items d ''tags'') (\<lambda>tags.
       Inr \<lparr>ss_id = i, ss_title = entry_or d ''title'' ''Untitled session'', ss_created_at = created,
         ss_updated_at = entry_or d ''updated_at'' created, ss_workspace = optional_entry d ''workspace'',
         ss_default_harness_id = entry_or d ''default_harness_id'' ''echo'',
         ss_default_model = optional_entry d ''default_model'', ss_default_api_mode = mode,
         ss_default_mode = entry_or d ''default_mode'' ''plan'',
         ss_pinned = (case jget d ''pinned'' of None \<Rightarrow> False | Some v \<Rightarrow> truthy v),
         ss_archived = (case jget d ''archived'' of None \<Rightarrow> False | Some v \<Rightarrow> truthy v),
         ss_tags = tags, ss_native = mapping_entry d ''native'', ss_metadata = mapping_entry d ''metadata''\<rparr>))))"

definition message_to_dict :: "message \<Rightarrow> json" where
  "message_to_dict m = JObj [
     (''id'', JStr (ms_id m)), (''session_id'', JStr (ms_session_id m)), (''run_id'', opt_json (ms_run_id m)),
     (''role'', JStr (ms_role m)), (''content'', JStr (ms_content m)),
     (''created_at'', JStr (ms_created_at m)), (''harness_id'', opt_json (ms_harness_id m)),
     (''model'', opt_json (ms_model m)),
     (''api_mode'', opt_json (map_option api_mode_value (ms_api_mode m))), (''metadata'', ms_metadata m)]"

definition message_from_dict :: "json \<Rightarrow> message result" where
  "message_from_dict d =
     and_then (required_entry d ''id'') (\<lambda>i.
     and_then (required_entry d ''session_id'') (\<lambda>sid.
     and_then (required_entry d ''created_at'') (\<lambda>created.
     and_then (case jget d ''api_mode'' of
         None \<Rightarrow> Inr None
       | Some v \<Rightarrow> if truthy v then and_then (parse_api_mode (Some v)) (\<lambda>m. Inr (Some m)) else Inr None) (\<lambda>mode.
       Inr \<lparr>ms_id = i, ms_session_id = sid, ms_run_id = optional_entry d ''run_id'',
         ms_role = entry_or d ''role'' ''user'', ms_content = entry_or d ''content'' [],
         ms_created_at = created, ms_harness_id = optional_entry d ''harness_id'',
         ms_model = optional_entry d ''model'', ms_api_mode = mode, ms_metadata = mapping_entry d ''metadata''\<rparr>))))"

definition run_to_dict :: "run \<Rightarrow> json" where
  "run_to_dict u = JObj [
     (''id'', JStr (u_id u)), (''session_id'', JStr (u_session_id u)), (''harness_id'', JStr (u_harness_id u)),
     (''status'', JStr (run_status_value (u_status u))), (''prompt'', JStr (u_prompt u)),
     (''model'', opt_json (u_model u)), (''api_mode'', JStr (api_mode_value (u_api_mode u))),
     (''capability'', JStr (capability_value (u_capability u))), (''mode'', JStr (u_mode u)),
     (''invocation_mode'', JStr (invocation_mode_value (u_invocation_mode u))),
     (''workspace'', opt_json (u_workspace u)), (''created_at'', JStr (u_created_at u)),
     (''updated_at'', JStr (u_updated_at u)), (''started_at'', opt_json (u_started_at u)),
     (''finished_at'', opt_json (u_finished_at u)), (''error'', opt_json (u_error u)),
     (''command'', JList (map JStr (u_command u))),
     (''native_session_id'', opt_json (u_native_session_id u)), (''metadata'', u_metadata u)]"

text \<open>\<open>parse_run_status\<close> of an entry: a falsy value selects queued.\<close>

definition status_entry :: "json \<Rightarrow> run_status result" where
  "status_entry d = parse_run_status (entry_or d ''status'' [])"

definition run_from_dict :: "json \<Rightarrow> run result" where
  "run_from_dict d =
     and_then (required_entry d ''id'') (\<lambda>i.
     and_then (required_entry d ''session_id'') (\<lambda>sid.
     and_then (required_entry d ''harness_id'') (\<lambda>hid.
     and_then (status_entry d) (\<lambda>status.
     and_then (parse_api_mode (jget d ''api_mode'')) (\<lambda>api.
     and_then (parse_capability (jget d ''capability'')) (\<lambda>cap.
     and_then (parse_invocation_mode (jget d ''invocation_mode'')) (\<lambda>inv.
     and_then (required_entry d ''created_at'') (\<lambda>created.
     and_then (text_items d ''command'') (\<lambda>command.
       Inr \<lparr>u_id = i, u_session_id = sid, u_harness_id = hid, u_status = status,
         u_prompt = entry_or d ''prompt'' [], u_model = optional_entry d ''model'', u_api_mode = api,
         u_capability = cap, u_mode = entry_or d ''mode'' ''plan'',
         u_workspace = optional_entry d ''workspace'', u_created_at = created,
         u_updated_at = entry_or d ''updated_at'' created, u_invocation_mode = inv,
         u_started_at = optional_entry d ''started_at'', u_finished_at = optional_entry d ''finished_at'',
         u_error = optional_entry d ''error'', u_command = command,
         u_native_session_id = optional_entry d ''native_session_id'',
         u_metadata = mapping_entry d ''metadata''\<rparr>)))))))))"

text \<open>Optional entries of an event are left out when they are missing.\<close>

definition present :: "(string \<times> json option) list \<Rightarrow> (string \<times> json) list" where
  "present kvs = List.map_filter (\<lambda>(k, v). map_option (Pair k) v) kvs"

definition event_to_dict :: "event \<Rightarrow> json" where
  "event_to_dict e = JObj ([
     (''id'', JStr (ev_id e)), (''session_id'', JStr (ev_session_id e)), (''run_id'', JStr (ev_run_id e)),
     (''type'', JStr (ev_type e)), (''message'', JStr (ev_message e)), (''payload'', ev_payload e),
     (''created_at'', JStr (ev_created_at e))] @ present [
     (''trace_id'', map_option JStr (ev_trace_id e)), (''span_id'', map_option JStr (ev_span_id e)),
     (''parent_span_id'', map_option JStr (ev_parent_span_id e)),
     (''sequence'', map_option JInt (ev_sequence e)), (''job_id'', map_option JStr (ev_job_id e)),
     (''attempt_id'', map_option JStr (ev_attempt_id e)),
     (''workflow_id'', map_option JStr (ev_workflow_id e)),
     (''workflow_step_id'', map_option JStr (ev_workflow_step_id e)),
     (''agent_id'', map_option JStr (ev_agent_id e)), (''span_kind'', map_option JStr (ev_span_kind e)),
     (''span_status'', map_option JStr (ev_span_status e))])"

definition event_from_dict :: "json \<Rightarrow> event result" where
  "event_from_dict d =
     and_then (required_entry d ''id'') (\<lambda>i.
     and_then (required_entry d ''session_id'') (\<lambda>sid.
     and_then (required_entry d ''run_id'') (\<lambda>rid.
     and_then (required_entry d ''created_at'') (\<lambda>created.
     and_then (optional_int (jget d ''sequence'')) (\<lambda>sq.
       Inr \<lparr>ev_id = i, ev_session_id = sid, ev_run_id = rid, ev_type = entry_or d ''type'' ''event'',
         ev_message = entry_or d ''message'' [], ev_payload = mapping_entry d ''payload'',
         ev_created_at = created, ev_trace_id = optional_entry d ''trace_id'',
         ev_span_id = optional_entry d ''span_id'', ev_parent_span_id = optional_entry d ''parent_span_id'',
         ev_sequence = sq, ev_job_id = optional_entry d ''job_id'',
         ev_attempt_id = optional_entry d ''attempt_id'', ev_workflow_id = optional_entry d ''workflow_id'',
         ev_workflow_step_id = optional_entry d ''workflow_step_id'',
         ev_agent_id = optional_entry d ''agent_id'', ev_span_kind = optional_entry d ''span_kind'',
         ev_span_status = optional_entry d ''span_status''\<rparr>)))))"

definition raw_record_to_dict :: "raw_record \<Rightarrow> json" where
  "raw_record_to_dict r = JObj [(''id'', JStr (rr_id r)), (''session_id'', JStr (rr_session_id r)),
     (''run_id'', JStr (rr_run_id r)), (''payload'', rr_payload r), (''created_at'', JStr (rr_created_at r))]"

definition raw_record_from_dict :: "json \<Rightarrow> raw_record result" where
  "raw_record_from_dict d =
     and_then (required_entry d ''id'') (\<lambda>i.
     and_then (required_entry d ''session_id'') (\<lambda>sid.
     and_then (required_entry d ''run_id'') (\<lambda>rid.
     and_then (required_entry d ''created_at'') (\<lambda>created.
       Inr \<lparr>rr_id = i, rr_session_id = sid, rr_run_id = rid, rr_payload = mapping_entry d ''payload'',
         rr_created_at = created\<rparr>))))"

definition native_link_to_dict :: "native_link \<Rightarrow> json" where
  "native_link_to_dict l = JObj [
     (''id'', JStr (nl_id l)), (''session_id'', JStr (nl_session_id l)),
     (''harness_id'', JStr (nl_harness_id l)), (''status'', JStr (native_status_value (nl_status l))),
     (''created_at'', JStr (nl_created_at l)), (''updated_at'', JStr (nl_updated_at l)),
     (''native_session_id'', opt_json (nl_native_session_id l)),
     (''native_ref_id'', opt_json (nl_native_ref_id l)), (''source'', opt_json (nl_source l)),
     (''workspace'', opt_json (nl_workspace l)), (''metadata'', nl_metadata l)]"

definition native_link_from_dict :: "json \<Rightarrow> native_link result" where
  "native_link_from_dict d =
     and_then (required_entry d ''id'') (\<lambda>i.
     and_then (required_entry d ''session_id'') (\<lambda>sid.
     and_then (required_entry d ''harness_id'') (\<lambda>hid.
     and_then (parse_native_session_status (jget d ''status'')) (\<lambda>status.
     and_then (required_entry d ''created_at'') (\<lambda>created.
       Inr \<lparr>nl_id = i, nl_session_id = sid, nl_harness_id = hid, nl_status = status,
         nl_created_at = created, nl_updated_at = entry_or d ''updated_at'' created,
         nl_native_session_id = optional_entry d ''native_session_id'',
         nl_native_ref_id = optional_entry d ''native_ref_id'', nl_source = optional_entry d ''source'',
         nl_workspace = optional_entry d ''workspace'', nl_metadata = mapping_entry d ''metadata''\<rparr>)))))"

section \<open>Round trips\<close>

text \<open>Texts the reader keeps as they are: trimmed and not empty; values that are mappings.\<close>

definition tidy :: "string option \<Rightarrow> bool" where
  "tidy t \<longleftrightarrow> optional_text t = t"

lemma opt_json_entry: "optional_json_text (Some (opt_json t)) = optional_text t"
  by (cases t) (simp_all add: opt_json_def optional_text_def)

lemma map_of_present:
  "distinct (map fst kvs) \<Longrightarrow> map_of (present kvs) k = Option.bind (map_of kvs k) id"
  by (induction kvs)
    (auto simp: present_def map_filter_simps map_of_eq_None_iff [THEN iffD2] split: option.splits)

lemma parse_member_value:
  assumes "lower (strip (value m)) = value m" "strip (value m) \<noteq> []" "enum_of value members (value m) = Inr m"
  shows "parse_member value members d (Some (JStr (value m))) = Inr m"
  using assms by (simp add: parse_member_def)

lemma parse_api_mode_value: "parse_api_mode (Some (JStr (api_mode_value m))) = Inr m"
  by (cases m; hypsubst; code_simp)

lemma parse_capability_value: "parse_capability (Some (JStr (capability_value c))) = Inr c"
  by (cases c; hypsubst; code_simp)

lemma parse_invocation_mode_value: "parse_invocation_mode (Some (JStr (invocation_mode_value m))) = Inr m"
  by (cases m; hypsubst; code_simp)

lemma parse_native_status_value: "parse_native_session_status (Some (JStr (native_status_value m))) = Inr m"
  by (cases m; hypsubst; code_simp)

lemma parse_run_status_value: "parse_run_status (run_status_value st) = Inr st"
  by (cases st; hypsubst; code_simp)

lemma run_status_value_nonempty: "run_status_value st \<noteq> []"
  by (cases st) simp_all

lemma api_mode_value_nonempty: "api_mode_value m \<noteq> []"
  by (cases m) simp_all

lemmas entry_defs = required_entry_def entry_or_def optional_entry_def mapping_entry_def jget_mapping_def
  text_items_def status_entry_def

definition event_ok :: "event \<Rightarrow> bool" where
  "event_ok e \<longleftrightarrow> ev_type e \<noteq> [] \<and> is_mapping (ev_payload e) \<and> list_all tidy
     [ev_trace_id e, ev_span_id e, ev_parent_span_id e, ev_job_id e, ev_attempt_id e, ev_workflow_id e,
      ev_workflow_step_id e, ev_agent_id e, ev_span_kind e, ev_span_status e]"

lemma optional_text_json: "optional_json_text (map_option JStr t) = optional_text t"
  by (cases t) (simp_all add: optional_text_def)

lemma optional_int_json: "optional_int (map_option JInt n) = Inr n"
  by (cases n) (simp_all add: optional_int_def)

lemma jget_event:
  "jget (event_to_dict e) k = (case map_of [
     (''id'', JStr (ev_id e)), (''session_id'', JStr (ev_session_id e)), (''run_id'', JStr (ev_run_id e)),
     (''type'', JStr (ev_type e)), (''message'', JStr (ev_message e)), (''payload'', ev_payload e),
     (''created_at'', JStr (ev_created_at e))] k of Some v \<Rightarrow> Some v | None \<Rightarrow> Option.bind (map_of [
     (''trace_id'', map_option JStr (ev_trace_id e)), (''span_id'', map_option JStr (ev_span_id e)),
     (''parent_span_id'', map_option JStr (ev_parent_span_id e)),
     (''sequence'', map_option JInt (ev_sequence e)), (''job_id'', map_option JStr (ev_job_id e)),
     (''attempt_id'', map_option JStr (ev_attempt_id e)),
     (''workflow_id'', map_option JStr (ev_workflow_id e)),
     (''workflow_step_id'', map_option JStr (ev_workflow_step_id e)),
     (''agent_id'', map_option JStr (ev_agent_id e)), (''span_kind'', map_option JStr (ev_span_kind e)),
     (''span_status'', map_option JStr (ev_span_status e))] k) id)"
  unfolding jget_def event_to_dict_def items.simps map_of_append map_add_def
  by (subst map_of_present) (simp_all split: option.split)

lemma event_roundtrip: "event_ok e \<Longrightarrow> event_from_dict (event_to_dict e) = Inr e"
  by (cases e) (simp add: event_from_dict_def entry_defs jget_event optional_text_json optional_int_json event_ok_def tidy_def)

definition run_ok :: "run \<Rightarrow> bool" where
  "run_ok u \<longleftrightarrow> u_mode u \<noteq> [] \<and> u_updated_at u \<noteq> [] \<and> is_mapping (u_metadata u) \<and> list_all tidy
     [u_model u, u_workspace u, u_started_at u, u_finished_at u, u_error u, u_native_session_id u]"

lemma py_str_texts: "map py_str (map JStr ts) = ts"
  by (induction ts) simp_all

lemma run_roundtrip: "run_ok u \<Longrightarrow> run_from_dict (run_to_dict u) = Inr u"
  by (cases u) (simp add: run_from_dict_def run_to_dict_def entry_defs jget_def opt_json_entry py_str_texts run_ok_def tidy_def
      parse_api_mode_value parse_capability_value parse_invocation_mode_value parse_run_status_value run_status_value_nonempty
      del: map_map)

definition session_ok :: "session \<Rightarrow> bool" where
  "session_ok s \<longleftrightarrow> list_all (\<lambda>t. t \<noteq> []) [ss_title s, ss_updated_at s, ss_default_harness_id s, ss_default_mode s]
     \<and> list_all is_mapping [ss_native s, ss_metadata s] \<and> list_all tidy [ss_workspace s, ss_default_model s]"

lemma session_roundtrip: "session_ok s \<Longrightarrow> session_from_dict (session_to_dict s) = Inr s"
  by (cases s) (simp add: session_from_dict_def session_to_dict_def entry_defs jget_def opt_json_entry py_str_texts
      session_ok_def tidy_def parse_api_mode_value del: map_map)

definition message_ok :: "message \<Rightarrow> bool" where
  "message_ok m \<longleftrightarrow> ms_role m \<noteq> [] \<and> is_mapping (ms_metadata m)
     \<and> list_all tidy [ms_run_id m, ms_harness_id m, ms_model m]"

lemma message_roundtrip: "message_ok m \<Longrightarrow> message_from_dict (message_to_dict m) = Inr m"
  by (cases m) (simp add: message_from_dict_def message_to_dict_def entry_defs jget_def opt_json_entry
      message_ok_def tidy_def opt_json_def [of "map_option f x" for f x] parse_api_mode_value api_mode_value_nonempty
      split: option.split)

lemma raw_record_roundtrip: "is_mapping (rr_payload r) \<Longrightarrow> raw_record_from_dict (raw_record_to_dict r) = Inr r"
  by (cases r) (simp add: raw_record_from_dict_def raw_record_to_dict_def entry_defs jget_def)

definition native_link_ok :: "native_link \<Rightarrow> bool" where
  "native_link_ok l \<longleftrightarrow> nl_updated_at l \<noteq> [] \<and> is_mapping (nl_metadata l)
     \<and> list_all tidy [nl_native_session_id l, nl_native_ref_id l, nl_source l, nl_workspace l]"

lemma native_link_roundtrip: "native_link_ok l \<Longrightarrow> native_link_from_dict (native_link_to_dict l) = Inr l"
  by (cases l) (simp add: native_link_from_dict_def native_link_to_dict_def entry_defs jget_def opt_json_entry
      native_link_ok_def tidy_def parse_native_status_value)

definition sample_run :: run where
  "sample_run = \<lparr>u_id = ''run_1'', u_session_id = ''s'', u_harness_id = ''echo'', u_status = RunRunning,
     u_prompt = ''hi'', u_model = Some ''m'', u_api_mode = API_V2, u_capability = AGENT_CLI, u_mode = ''plan'',
     u_workspace = None, u_created_at = ''10'', u_updated_at = ''10'', u_invocation_mode = HEADLESS,
     u_started_at = Some ''10'', u_finished_at = None, u_error = None, u_command = [''a'', ''b''],
     u_native_session_id = None, u_metadata = JObj []\<rparr>"

text \<open>
  C35. Stored records survive a round trip. Writing an event, a run, a session, a message, a raw record
  or a native link to its dictionary and reading it back gives the same record, provided its
  optional texts are trimmed and not empty, its mandatory texts that have a default are not
  empty, and its mappings are mappings.
\<close>

theorem session_records_roundtrip:
  "(event_ok e \<longrightarrow> event_from_dict (event_to_dict e) = Inr e)
   \<and> (run_ok u \<longrightarrow> run_from_dict (run_to_dict u) = Inr u)
   \<and> (session_ok s \<longrightarrow> session_from_dict (session_to_dict s) = Inr s)
   \<and> (message_ok m \<longrightarrow> message_from_dict (message_to_dict m) = Inr m)
   \<and> (is_mapping (rr_payload r) \<longrightarrow> raw_record_from_dict (raw_record_to_dict r) = Inr r)
   \<and> (native_link_ok l \<longrightarrow> native_link_from_dict (native_link_to_dict l) = Inr l)"
  by (simp add: event_roundtrip run_roundtrip session_roundtrip message_roundtrip raw_record_roundtrip native_link_roundtrip)

theorem session_records_roundtrip_witness:
  "run_from_dict (run_to_dict sample_run) = Inr sample_run"
proof -
  have "run_ok sample_run" by code_simp
  then show ?thesis using session_records_roundtrip [where u = sample_run] by blast
qed

end
