(* ===== verification/Session_Titles.thy ===== *)
theory Session_Titles
  imports Session_Models
begin

text \<open>
  Titles derived from a prompt (\<open>title_from_prompt\<close> of \<open>sessions/store.py\<close>) and the title state
  in the metadata of a session (\<open>session_titles.py\<close>): who named the session, and how an
  unrelated metadata patch keeps the newer state. \<open>time.time_ns()\<close> readings are the texts
  \<open>ns\<close>.
\<close>

section \<open>Titles from prompts\<close>

text \<open>\<open>text.split()\<close>: the words between white space.\<close>

fun words :: "string \<Rightarrow> string \<Rightarrow> string list" where
  "words word [] = (if word = [] then [] else [rev word])"
| "words word (c # cs) =
     (if is_space c then (if word = [] then words [] cs else rev word # words [] cs)
      else words (c # word) cs)"

definition split_words :: "string \<Rightarrow> string list" where
  "split_words text = words [] text"

definition lstrip_chars :: "string \<Rightarrow> string \<Rightarrow> string" where
  "lstrip_chars cs text = dropWhile (\<lambda>c. c \<in> set cs) text"

definition rstrip_chars :: "string \<Rightarrow> string \<Rightarrow> string" where
  "rstrip_chars cs text = rev (dropWhile (\<lambda>c. c \<in> set cs) (rev text))"

definition rstrip :: "string \<Rightarrow> string" where
  "rstrip text = rev (dropWhile is_space (rev text))"

text \<open>\<open>text.rfind(c)\<close>: the last position of a character, or -1.\<close>

definition rfind :: "char \<Rightarrow> string \<Rightarrow> int" where
  "rfind c text = int (length (dropWhile (\<lambda>x. x \<noteq> c) (rev text))) - 1"

definition UNTITLED_SESSION :: string where
  "UNTITLED_SESSION = ''Untitled session''"

definition title_from_prompt :: "string \<Rightarrow> string" where
  "title_from_prompt prompt =
     (let title = lstrip_chars ''#>*- `'' (join '' '' (split_words prompt));
          title = (if 40 < length title then
             (let candidate = rstrip (take 37 title);
                  word_boundary = rfind CHR '' '' candidate;
                  candidate = (if 24 \<le> word_boundary then take (nat word_boundary) candidate else candidate)
              in rstrip_chars ''.,:;!?'' candidate @ ''...'')
           else title)
      in if title = [] then UNTITLED_SESSION else title)"

definition title_or_default :: "string option \<Rightarrow> string" where
  "title_or_default title = (case title of None \<Rightarrow> UNTITLED_SESSION | Some t \<Rightarrow> title_from_prompt t)"

lemma length_rstrip: "length (rstrip t) \<le> length t"
  unfolding rstrip_def using length_dropWhile_le [of is_space "rev t"] by simp

lemma length_rstrip_chars: "length (rstrip_chars cs t) \<le> length t"
  unfolding rstrip_chars_def using length_dropWhile_le [of "\<lambda>c. c \<in> set cs" "rev t"] by simp

lemma title_from_prompt_bounds: "title_from_prompt p \<noteq> [] \<and> length (title_from_prompt p) \<le> 40"
proof -
  have cut: "length (rstrip_chars cs (if b then take n (rstrip (take 37 t)) else rstrip (take 37 t)) @ ''...'') \<le> 40"
    for cs b n t
  proof -
    have "length (rstrip (take 37 t)) \<le> 37" using length_rstrip [of "take 37 t"] by simp
    then have "length (if b then take n (rstrip (take 37 t)) else rstrip (take 37 t)) \<le> 37" by (cases b) simp_all
    then show ?thesis using length_rstrip_chars [of cs "if b then take n (rstrip (take 37 t)) else rstrip (take 37 t)"] by simp
  qed
  show ?thesis unfolding title_from_prompt_def Let_def
    using cut by (auto simp: UNTITLED_SESSION_def simp del: length_append)
qed

section \<open>Title state\<close>

datatype provenance = UNTITLED | LEGACY | FALLBACK | PROVIDER_NATIVE | MANUAL

fun provenance_value :: "provenance \<Rightarrow> string" where
  "provenance_value UNTITLED = ''untitled''"
| "provenance_value LEGACY = ''legacy''"
| "provenance_value FALLBACK = ''fallback''"
| "provenance_value PROVIDER_NATIVE = ''provider_native''"
| "provenance_value MANUAL = ''manual''"

definition PROVENANCES :: "provenance list" where
  "PROVENANCES = [UNTITLED, LEGACY, FALLBACK, PROVIDER_NATIVE, MANUAL]"

definition TITLE_STATE :: string where
  "TITLE_STATE = ''title_state''"

definition settled_state :: "string \<Rightarrow> provenance \<Rightarrow> string \<Rightarrow> string option \<Rightarrow> json" where
  "settled_state ns p source source_id = JObj [
     (''schema_version'', JInt 1), (''provenance'', JStr (provenance_value p)),
     (''status'', JStr (if p = UNTITLED then ''idle'' else ''settled'')),
     (''source'', JStr source), (''source_id'', opt_json source_id), (''updated_at'', JStr ns)]"

text \<open>
  A state counts only with the current schema version (\<open>True == 1\<close> in Python) and a known
  provenance.
\<close>

definition state_mapping :: "json option \<Rightarrow> json option" where
  "state_mapping v = (case v of
     Some (JObj kvs) \<Rightarrow>
       if map_of kvs ''schema_version'' \<in> {Some (JInt 1), Some (JBool True)}
          \<and> (case map_of kvs ''provenance'' of None \<Rightarrow> False | Some p \<Rightarrow> py_str p \<in> provenance_value ` set PROVENANCES)
       then Some (JObj kvs) else None
   | _ \<Rightarrow> None)"

definition state_order :: "json \<Rightarrow> int" where
  "state_order state = (case jget state ''updated_at'' of
     None \<Rightarrow> 0
   | Some v \<Rightarrow> if truthy v then (case parse_int (py_str v) of Inl _ \<Rightarrow> 0 | Inr n \<Rightarrow> n) else 0)"

definition new_session_metadata :: "string \<Rightarrow> json option \<Rightarrow> bool \<Rightarrow> json" where
  "new_session_metadata ns metadata explicit_title =
     (let payload = (case metadata of None \<Rightarrow> JObj [] | Some m \<Rightarrow> m) in
      if state_mapping (jget payload TITLE_STATE) \<noteq> None then payload
      else jset payload TITLE_STATE (settled_state ns (if explicit_title then MANUAL else UNTITLED)
             (if explicit_title then ''explicit_create'' else ''new_session'') None))"

definition manual_title_metadata :: "string \<Rightarrow> json \<Rightarrow> json" where
  "manual_title_metadata ns metadata =
     jset metadata TITLE_STATE (settled_state ns MANUAL ''manual_update'' None)"

definition merge_title_metadata :: "json \<Rightarrow> json \<Rightarrow> json" where
  "merge_title_metadata current incoming =
     (case state_mapping (jget current TITLE_STATE) of
        None \<Rightarrow> incoming
      | Some current_state \<Rightarrow>
          (case state_mapping (jget incoming TITLE_STATE) of
             None \<Rightarrow> jset incoming TITLE_STATE current_state
           | Some incoming_state \<Rightarrow>
               if state_order incoming_state < state_order current_state
               then jset incoming TITLE_STATE current_state else incoming))"

text \<open>\<open>_title_state\<close>: a session without a readable state is a legacy one.\<close>

definition title_state :: "json \<Rightarrow> json" where
  "title_state metadata = (case state_mapping (jget metadata TITLE_STATE) of
     Some state \<Rightarrow> state
   | None \<Rightarrow> JObj [(''schema_version'', JInt 1), (''provenance'', JStr (provenance_value LEGACY)),
       (''status'', JStr ''settled''), (''source'', JStr ''legacy_session'')])"

definition metadata_with_state :: "json \<Rightarrow> json \<Rightarrow> json" where
  "metadata_with_state metadata state = jset metadata TITLE_STATE state"

definition provider_native_title_metadata :: "string \<Rightarrow> json option \<Rightarrow> string \<Rightarrow> string option \<Rightarrow> json" where
  "provider_native_title_metadata ns metadata provider source_id =
     metadata_with_state (case metadata of None \<Rightarrow> JObj [] | Some m \<Rightarrow> m)
       (settled_state ns PROVIDER_NATIVE provider source_id)"

lemma map_of_replace_other:
  "x \<noteq> k \<Longrightarrow> map_of (map (\<lambda>kv. if fst kv = k then (k, v) else kv) kvs) x = map_of kvs x"
  by (induction kvs) auto

lemma map_of_replace_same:
  "k \<in> fst ` set kvs \<Longrightarrow> map_of (map (\<lambda>kv. if fst kv = k then (k, v) else kv) kvs) k = Some v"
  by (induction kvs) auto

lemma jget_jset [simp]: "jget (jset j k v) x = (if x = k then Some v else jget j x)"
proof (cases "k \<in> fst ` set (items j)")
  case True
  then show ?thesis by (simp add: jget_def jset_def map_of_replace_other map_of_replace_same)
next
  case False
  then have "map_of (items j) k = None" by (simp add: map_of_eq_None_iff)
  with False show ?thesis by (auto simp: jget_def jset_def map_add_def split: option.splits)
qed

lemma is_mapping_jset [simp]: "is_mapping (jset j k v)"
  by (simp add: jset_def)

end
