(* ===== verification/Session_Store.thy ===== *)
theory Session_Store
  imports Session_Titles "HOL-Library.AList"
begin

text \<open>
  The session history store (\<open>InMemoryHarnessSessionStore\<close> of \<open>sessions/store.py\<close> with the query
  index of \<open>sessions/queries.py\<close>, the event persistence of \<open>sessions/event_persistence.py\<close> and the
  redaction of \<open>sessions/redaction.py\<close>). A dict is an association list in insertion order, updated
  with \<open>AList.update\<close>. Clock readings and fresh identities are arguments. Live notifications
  (\<open>event_broker\<close>) carry no state and are left out.
\<close>

section \<open>State\<close>

record history =
  hs_sessions :: "(string \<times> session) list"
  hs_messages :: "(string \<times> message list) list"
  hs_runs :: "(string \<times> run list) list"
  hs_events :: "(string \<times> event list) list"
  hs_raw_requests :: "(string \<times> raw_record list) list"
  hs_raw_responses :: "(string \<times> raw_record list) list"
  hs_native_links :: "(string \<times> native_link list) list"
  hs_message_index :: "(string \<times> message) list"
  hs_active :: "(string \<times> string list) list"
  hs_event_index :: "(string \<times> event) list"
  hs_raw_request_index :: "(string \<times> raw_record list) list"
  hs_raw_response_index :: "(string \<times> raw_record list) list"
  hs_session_generation :: int
  hs_run_generation :: int

definition empty_history :: history where
  "empty_history = \<lparr>hs_sessions = [], hs_messages = [], hs_runs = [], hs_events = [],
     hs_raw_requests = [], hs_raw_responses = [], hs_native_links = [], hs_message_index = [],
     hs_active = [], hs_event_index = [], hs_raw_request_index = [], hs_raw_response_index = [],
     hs_session_generation = 0, hs_run_generation = 0\<rparr>"

type_synonym 'a hop = "history \<Rightarrow> 'a result \<times> history"

text \<open>\<open>d.get(k, ())\<close> and \<open>d.setdefault(k, []).append(x)\<close>.\<close>

definition dict_list :: "(string \<times> 'a list) list \<Rightarrow> string \<Rightarrow> 'a list" where
  "dict_list d k = (case map_of d k of None \<Rightarrow> [] | Some xs \<Rightarrow> xs)"

definition dict_append :: "string \<Rightarrow> 'a \<Rightarrow> (string \<times> 'a list) list \<Rightarrow> (string \<times> 'a list) list" where
  "dict_append k x d = AList.update k (dict_list d k @ [x]) d"

text \<open>A method that raises what \<open>r\<close> raises and otherwise goes on with its value.\<close>

definition attempt_with :: "'a result \<Rightarrow> ('a \<Rightarrow> 'b hop) \<Rightarrow> 'b hop" where
  "attempt_with r k hs = (case r of Inl e \<Rightarrow> (Inl e, hs) | Inr a \<Rightarrow> k a hs)"

section \<open>Redaction of stored values\<close>

text \<open>The ellipsis U+2026 has no 8-bit code; \<open>ELLIPSIS\<close> stands for it.\<close>

definition ELLIPSIS :: char where
  "ELLIPSIS = CHR 0x85"

definition TRUNCATED_SUFFIX :: string where
  "TRUNCATED_SUFFIX = [CHR 0x0A, ELLIPSIS] @ '' <truncated>''"

definition MAX_STORED_EVENT_VALUE_CHARS :: int where
  "MAX_STORED_EVENT_VALUE_CHARS = 16000"

definition truncate :: "string \<Rightarrow> string" where
  "truncate value = (if int (length value) \<le> MAX_STORED_EVENT_VALUE_CHARS then value
     else take (nat (MAX_STORED_EVENT_VALUE_CHARS - int (length TRUNCATED_SUFFIX))) value @ TRUNCATED_SUFFIX)"

fun bounded_event_value :: "json \<Rightarrow> json" where
  "bounded_event_value (JStr s) = JStr (truncate s)"
| "bounded_event_value JNull = JNull"
| "bounded_event_value (JBool b) = JBool b"
| "bounded_event_value (JInt n) = JInt n"
| "bounded_event_value v =
     (let serialized = dumps False '', '' '': '' v in
      if int (length serialized) \<le> MAX_STORED_EVENT_VALUE_CHARS then v
      else JObj [(''preview'', JStr (truncate serialized)), (''truncated'', JBool True)])"

definition redact_event_payload :: "env \<Rightarrow> json \<Rightarrow> json" where
  "redact_event_payload E value =
     (case redact_for_storage E value of
        JObj kvs \<Rightarrow> JObj (map (\<lambda>kv. (fst kv, bounded_event_value (snd kv))) kvs)
      | _ \<Rightarrow> JObj [])"

definition redacted_mapping :: "env \<Rightarrow> json \<Rightarrow> json" where
  "redacted_mapping E value = (if is_mapping value
     then (case redact_for_storage E value of JObj kvs \<Rightarrow> JObj kvs | _ \<Rightarrow> JObj []) else JObj [])"

definition mapping_or_empty :: "json option \<Rightarrow> json" where
  "mapping_or_empty v = (case v of None \<Rightarrow> JNull | Some m \<Rightarrow> m)"

section \<open>Sessions\<close>

definition get_session :: "string \<Rightarrow> history \<Rightarrow> session result" where
  "get_session session_id hs = (case map_of (hs_sessions hs) session_id of
     None \<Rightarrow> Inl (SessionNotFoundError session_id) | Some s \<Rightarrow> Inr s)"

record session_spec =
  sp_title :: "string option"
  sp_workspace :: "string option"
  sp_harness_id :: string
  sp_model :: "string option"
  sp_api_mode :: api_mode
  sp_mode :: string
  sp_native :: "json option"
  sp_metadata :: "json option"

definition new_session :: "env \<Rightarrow> string \<Rightarrow> string \<Rightarrow> string \<Rightarrow> session_spec \<Rightarrow> session" where
  "new_session E now ns uuid spec = \<lparr>ss_id = new_id ''sess'' uuid,
     ss_title = title_or_default (sp_title spec), ss_created_at = now, ss_updated_at = now,
     ss_workspace = sp_workspace spec, ss_default_harness_id = sp_harness_id spec,
     ss_default_model = sp_model spec, ss_default_api_mode = sp_api_mode spec,
     ss_default_mode = sp_mode spec, ss_pinned = False, ss_archived = False, ss_tags = [],
     ss_native = redacted_mapping E (mapping_or_empty (sp_native spec)),
     ss_metadata = redacted_mapping E (new_session_metadata ns (sp_metadata spec)
       (case sp_title spec of None \<Rightarrow> False | Some t \<Rightarrow> strip t \<noteq> []))\<rparr>"

definition put_session :: "session \<Rightarrow> string \<Rightarrow> history \<Rightarrow> history" where
  "put_session s i hs = hs\<lparr>hs_sessions := AList.update i s (hs_sessions hs),
     hs_session_generation := hs_session_generation hs + 1\<rparr>"

definition create_session :: "env \<Rightarrow> string \<Rightarrow> string \<Rightarrow> string \<Rightarrow> session_spec \<Rightarrow> session hop" where
  "create_session E now ns uuid spec hs =
     (let s = new_session E now ns uuid spec in (Inr s, put_session s (ss_id s) hs))"

definition text_or :: "json option \<Rightarrow> json option \<Rightarrow> json option" where
  "text_or a b = (case a of Some v \<Rightarrow> if truthy v then a else b | None \<Rightarrow> b)"

record session_filter =
  sf_project_id :: "string option"
  sf_workspace :: "string option"
  sf_harness_id :: "string option"
  sf_query :: "string option"
  sf_include_archived :: bool

definition given_text :: "string option \<Rightarrow> bool" where
  "given_text t = (case t of None \<Rightarrow> False | Some x \<Rightarrow> x \<noteq> [])"

definition matches_session :: "session_filter \<Rightarrow> session \<Rightarrow> bool" where
  "matches_session f s =
     (\<not> (ss_archived s \<and> \<not> sf_include_archived f)
      \<and> (given_text (sf_project_id f) \<longrightarrow>
           text_or (jget (ss_metadata s) ''catalog_project_id'') (jget (ss_metadata s) ''project_id'')
             = map_option JStr (sf_project_id f))
      \<and> (given_text (sf_workspace f) \<longrightarrow> ss_workspace s = sf_workspace f)
      \<and> (given_text (sf_harness_id f) \<longrightarrow> Some (ss_default_harness_id s) = sf_harness_id f)
      \<and> (given_text (sf_query f) \<longrightarrow>
           contains (lower (case sf_query f of None \<Rightarrow> [] | Some q \<Rightarrow> q)) (lower (ss_title s))))"

text \<open>\<open>sort(reverse=True)\<close> keeps the order of equal keys.\<close>

definition newest_sessions :: "session list \<Rightarrow> session list" where
  "newest_sessions ss = rev (order_by ss_updated_at (rev ss))"

definition list_sessions :: "session_filter \<Rightarrow> int option \<Rightarrow> history \<Rightarrow> session list" where
  "list_sessions f limit hs =
     (let found = newest_sessions (filter (matches_session f) (map snd (hs_sessions hs))) in
      case limit of None \<Rightarrow> found | Some n \<Rightarrow> take (nat n) found)"

text \<open>The keyword arguments of an update; a missing one is \<open>None\<close>.\<close>

record session_patch =
  sx_title :: "string option"
  sx_workspace :: "string option option"
  sx_harness_id :: "string option"
  sx_model :: "string option option"
  sx_api_mode :: "string option"
  sx_mode :: "string option"
  sx_pinned :: "bool option"
  sx_archived :: "bool option"
  sx_tags :: "string list option"
  sx_native :: "json option"
  sx_metadata :: "json option"

definition no_patch :: session_patch where
  "no_patch = \<lparr>sx_title = None, sx_workspace = None, sx_harness_id = None, sx_model = None,
     sx_api_mode = None, sx_mode = None, sx_pinned = None, sx_archived = None, sx_tags = None,
     sx_native = None, sx_metadata = None\<rparr>"

text \<open>
  The metadata a patch writes: an explicit title marks the state as manual unless the patch brings a
  state of its own, any other metadata patch is merged with the current state.
\<close>

definition patched_metadata :: "string \<Rightarrow> session \<Rightarrow> session_patch \<Rightarrow> json option" where
  "patched_metadata ns s p =
     (if sx_title p \<noteq> None then
        (let base = (case sx_metadata p of Some m \<Rightarrow> if is_mapping m then m else ss_metadata s
                     | None \<Rightarrow> ss_metadata s)
         in if sx_metadata p = None \<or> jget base TITLE_STATE = None
            then Some (manual_title_metadata ns base) else sx_metadata p)
      else case sx_metadata p of
          None \<Rightarrow> None
        | Some m \<Rightarrow> Some (if is_mapping m then merge_title_metadata (ss_metadata s) m else m))"

definition patch_session :: "env \<Rightarrow> string \<Rightarrow> string \<Rightarrow> session \<Rightarrow> session_patch \<Rightarrow> session result" where
  "patch_session E now ns s p =
     and_then (case sx_api_mode p of None \<Rightarrow> Inr (ss_default_api_mode s)
               | Some v \<Rightarrow> enum_of api_mode_value [API_V1, API_V2] v) (\<lambda>mode.
       Inr (s\<lparr>ss_updated_at := now,
         ss_title := (case sx_title p of None \<Rightarrow> ss_title s | Some t \<Rightarrow> title_or_default (Some t)),
         ss_workspace := the_default (ss_workspace s) (sx_workspace p),
         ss_default_harness_id := the_default (ss_default_harness_id s) (sx_harness_id p),
         ss_default_model := the_default (ss_default_model s) (sx_model p),
         ss_default_api_mode := mode,
         ss_default_mode := the_default (ss_default_mode s) (sx_mode p),
         ss_pinned := the_default (ss_pinned s) (sx_pinned p),
         ss_archived := the_default (ss_archived s) (sx_archived p),
         ss_tags := the_default (ss_tags s) (sx_tags p),
         ss_native := (case sx_native p of None \<Rightarrow> ss_native s | Some m \<Rightarrow> redacted_mapping E m),
         ss_metadata := (case patched_metadata ns s p of None \<Rightarrow> ss_metadata s | Some m \<Rightarrow> redacted_mapping E m)\<rparr>))"

definition update_session :: "env \<Rightarrow> string \<Rightarrow> string \<Rightarrow> string \<Rightarrow> session_patch \<Rightarrow> session hop" where
  "update_session E now ns session_id p hs =
     attempt_with (and_then (get_session session_id hs) (\<lambda>s. patch_session E now ns s p))
       (\<lambda>updated hs. (Inr updated, put_session updated session_id hs)) hs"

text \<open>A conditional update: \<open>None\<close> when the presented value is not the current one.\<close>

definition update_session_if :: "(session \<Rightarrow> bool) \<Rightarrow> env \<Rightarrow> string \<Rightarrow> string \<Rightarrow> string \<Rightarrow> session_patch \<Rightarrow> session option hop" where
  "update_session_if current E now ns session_id p hs =
     attempt_with (get_session session_id hs) (\<lambda>s hs.
       if \<not> current s then (Inr None, hs)
       else attempt_with (patch_session E now ns s p)
              (\<lambda>updated hs. (Inr (Some updated), put_session updated session_id hs)) hs) hs"

definition update_session_if_title :: "env \<Rightarrow> string \<Rightarrow> string \<Rightarrow> string \<Rightarrow> string \<Rightarrow> session_patch \<Rightarrow> session option hop" where
  "update_session_if_title E now ns session_id expected_title =
     update_session_if (\<lambda>s. ss_title s = expected_title) E now ns session_id"

definition update_session_if_revision ::
    "env \<Rightarrow> string \<Rightarrow> string \<Rightarrow> string \<Rightarrow> string \<Rightarrow> session_patch \<Rightarrow> session option hop" where
  "update_session_if_revision E now ns session_id expected_updated_at =
     update_session_if (\<lambda>s. ss_updated_at s = expected_updated_at) E now ns session_id"

definition archive_session :: "env \<Rightarrow> string \<Rightarrow> string \<Rightarrow> string \<Rightarrow> bool \<Rightarrow> session hop" where
  "archive_session E now ns session_id archived =
     update_session E now ns session_id (no_patch\<lparr>sx_archived := Some archived\<rparr>)"

text \<open>Deletion drops every record of the session, from the query index as well.\<close>

definition forget_raw :: "string \<Rightarrow> (string \<times> raw_record list) list \<Rightarrow> (string \<times> raw_record list) list" where
  "forget_raw session_id d = filter (\<lambda>kv. snd kv \<noteq> [])
     (map (\<lambda>kv. (fst kv, filter (\<lambda>r. rr_session_id r \<noteq> session_id) (snd kv))) d)"

definition drop_session :: "string \<Rightarrow> history \<Rightarrow> history" where
  "drop_session i hs = hs\<lparr>hs_sessions := AList.delete i (hs_sessions hs),
     hs_messages := AList.delete i (hs_messages hs), hs_runs := AList.delete i (hs_runs hs),
     hs_events := AList.delete i (hs_events hs),
     hs_raw_requests := AList.delete i (hs_raw_requests hs),
     hs_raw_responses := AList.delete i (hs_raw_responses hs),
     hs_native_links := AList.delete i (hs_native_links hs),
     hs_message_index := filter (\<lambda>kv. fst kv \<notin> set (dict_list (hs_active hs) i) \<and> ms_session_id (snd kv) \<noteq> i)
       (hs_message_index hs),
     hs_active := AList.delete i (hs_active hs),
     hs_event_index := filter (\<lambda>kv. ev_session_id (snd kv) \<noteq> i) (hs_event_index hs),
     hs_raw_request_index := forget_raw i (hs_raw_request_index hs),
     hs_raw_response_index := forget_raw i (hs_raw_response_index hs),
     hs_session_generation := hs_session_generation hs + 1\<rparr>"

definition delete_session :: "string \<Rightarrow> unit hop" where
  "delete_session session_id hs =
     attempt_with (get_session session_id hs) (\<lambda>_ hs. (Inr (), drop_session session_id hs)) hs"

definition delete_session_if_revision :: "string \<Rightarrow> string \<Rightarrow> bool hop" where
  "delete_session_if_revision session_id expected_updated_at hs =
     attempt_with (get_session session_id hs) (\<lambda>s hs.
       if ss_updated_at s \<noteq> expected_updated_at then (Inr False, hs)
       else (Inr True, drop_session session_id hs)) hs"

section \<open>Messages\<close>

definition stored_message :: "env \<Rightarrow> message \<Rightarrow> message" where
  "stored_message E m = m\<lparr>ms_content := redact_text E (ms_content m), ms_metadata := redacted_mapping E (ms_metadata m)\<rparr>"

text \<open>An edited message cuts the active branch at the message it replaces.\<close>

definition cut_branch :: "json option \<Rightarrow> string list \<Rightarrow> string list" where
  "cut_branch edited_from active = (case edited_from of
     Some (JStr m) \<Rightarrow> if m \<in> set active then takeWhile (\<lambda>x. x \<noteq> m) active else active
   | _ \<Rightarrow> active)"

definition record_message :: "message \<Rightarrow> history \<Rightarrow> history" where
  "record_message m hs = hs\<lparr>hs_message_index := AList.update (ms_id m) m (hs_message_index hs),
     hs_active := AList.update (ms_session_id m)
       (cut_branch (jget (ms_metadata m) ''edited_from_message_id'') (dict_list (hs_active hs) (ms_session_id m)) @ [ms_id m])
       (hs_active hs)\<rparr>"

definition append_message :: "env \<Rightarrow> message \<Rightarrow> message hop" where
  "append_message E m hs =
     attempt_with (get_session (ms_session_id m) hs) (\<lambda>_ hs.
       let stored = stored_message E m in
       (Inr stored, record_message stored
          (hs\<lparr>hs_messages := dict_append (ms_session_id m) stored (hs_messages hs)\<rparr>))) hs"

definition list_messages :: "string \<Rightarrow> history \<Rightarrow> message list result" where
  "list_messages session_id hs =
     and_then (get_session session_id hs) (\<lambda>_. Inr (dict_list (hs_messages hs) session_id))"

definition get_message :: "string \<Rightarrow> history \<Rightarrow> message result" where
  "get_message message_id hs = (case map_of (hs_message_index hs) message_id of
     None \<Rightarrow> Inl (MessageNotFoundError message_id) | Some m \<Rightarrow> Inr m)"

definition bounded_query_limit :: "int \<Rightarrow> int \<Rightarrow> int result" where
  "bounded_query_limit limit maximum =
     (if 1 \<le> limit \<and> limit \<le> maximum then Inr limit else Inl (ValueError ''limit out of range''))"

fun index_of :: "'a \<Rightarrow> 'a list \<Rightarrow> nat option" where
  "index_of x [] = None"
| "index_of x (y # ys) = (if x = y then Some 0 else map_option Suc (index_of x ys))"

fun lookup_all :: "(string \<times> 'a) list \<Rightarrow> string list \<Rightarrow> 'a list result" where
  "lookup_all d [] = Inr []"
| "lookup_all d (k # ks) = (case map_of d k of
     None \<Rightarrow> Inl (KeyError k) | Some v \<Rightarrow> and_then (lookup_all d ks) (\<lambda>vs. Inr (v # vs)))"

definition MAX_MESSAGE_QUERY_LIMIT :: int where
  "MAX_MESSAGE_QUERY_LIMIT = 1000"

definition MAX_RECORD_QUERY_LIMIT :: int where
  "MAX_RECORD_QUERY_LIMIT = 100"

definition list_recent_messages ::
    "string \<Rightarrow> int \<Rightarrow> string option \<Rightarrow> string option \<Rightarrow> history \<Rightarrow> message list result" where
  "list_recent_messages session_id limit before through hs =
     and_then (get_session session_id hs) (\<lambda>_.
     and_then (if before \<noteq> None \<and> through \<noteq> None
               then Inl (ValueError ''before and through are mutually exclusive'') else Inr ()) (\<lambda>_.
       let active = dict_list (hs_active hs) session_id;
           anchor = (if given_text before then before else through)
       in and_then (case anchor of
             None \<Rightarrow> Inr (length active)
           | Some m \<Rightarrow> (case index_of m active of
               None \<Rightarrow> Inl (MessageNotFoundError m)
             | Some k \<Rightarrow> Inr (k + (if through \<noteq> None then 1 else 0)))) (\<lambda>stop.
          and_then (bounded_query_limit limit MAX_MESSAGE_QUERY_LIMIT) (\<lambda>n.
            lookup_all (hs_message_index hs) (drop (stop - nat n) (take stop active))))))"

section \<open>Runs\<close>

text \<open>\<open>_find_run\<close>: the first run with the id, with its session and position.\<close>

definition find_run :: "string \<Rightarrow> history \<Rightarrow> (string \<times> nat \<times> run) result" where
  "find_run run_id hs =
     (case concat (map (\<lambda>kv. List.map_filter
              (\<lambda>ku. if u_id (snd ku) = run_id then Some (fst kv, fst ku, snd ku) else None)
              (enumerate 0 (snd kv))) (hs_runs hs)) of
        [] \<Rightarrow> Inl (RunNotFoundError run_id)
      | found # _ \<Rightarrow> Inr found)"

record run_spec =
  rs_id :: "string option"
  rs_session_id :: string
  rs_harness_id :: string
  rs_prompt :: string
  rs_model :: "string option"
  rs_api_mode :: api_mode
  rs_capability :: capability
  rs_mode :: string
  rs_workspace :: "string option"
  rs_invocation_mode :: "json option"
  rs_status :: string
  rs_started_at :: "string option"
  rs_metadata :: "json option"

definition new_run :: "env \<Rightarrow> string \<Rightarrow> string \<Rightarrow> run_spec \<Rightarrow> run_status \<Rightarrow> invocation_mode \<Rightarrow> run" where
  "new_run E now uuid spec status invocation = \<lparr>
     u_id = (if given_text (rs_id spec) then the_default [] (rs_id spec) else new_id ''run'' uuid),
     u_session_id = rs_session_id spec, u_harness_id = rs_harness_id spec, u_status = status,
     u_prompt = redact_text E (rs_prompt spec), u_model = rs_model spec,
     u_api_mode = rs_api_mode spec, u_capability = rs_capability spec, u_mode = rs_mode spec,
     u_workspace = rs_workspace spec, u_created_at = now, u_updated_at = now,
     u_invocation_mode = invocation, u_started_at = rs_started_at spec, u_finished_at = None,
     u_error = None, u_command = [], u_native_session_id = None,
     u_metadata = redacted_mapping E (mapping_or_empty (rs_metadata spec))\<rparr>"

definition create_run :: "env \<Rightarrow> string \<Rightarrow> string \<Rightarrow> run_spec \<Rightarrow> run hop" where
  "create_run E now uuid spec hs =
     attempt_with (and_then (get_session (rs_session_id spec) hs) (\<lambda>_.
         and_then (parse_run_status (rs_status spec)) (\<lambda>status.
         and_then (parse_invocation_mode (rs_invocation_mode spec)) (\<lambda>invocation.
           Inr (new_run E now uuid spec status invocation)))))
       (\<lambda>u hs. (Inr u, hs\<lparr>hs_runs := dict_append (rs_session_id spec) u (hs_runs hs),
          hs_run_generation := hs_run_generation hs + 1\<rparr>)) hs"

record run_patch =
  rp_status :: "string option"
  rp_updated_at :: "string option"
  rp_started_at :: "string option option"
  rp_finished_at :: "string option option"
  rp_error :: "string option option"
  rp_command :: "string list option"
  rp_native_session_id :: "string option option"
  rp_metadata :: "json option"

definition no_run_patch :: run_patch where
  "no_run_patch = \<lparr>rp_status = None, rp_updated_at = None, rp_started_at = None, rp_finished_at = None,
     rp_error = None, rp_command = None, rp_native_session_id = None, rp_metadata = None\<rparr>"

definition patch_run :: "env \<Rightarrow> string \<Rightarrow> run \<Rightarrow> run_patch \<Rightarrow> run result" where
  "patch_run E now u p =
     and_then (case rp_status p of None \<Rightarrow> Inr (u_status u) | Some v \<Rightarrow> parse_run_status v) (\<lambda>status.
       Inr (u\<lparr>u_updated_at := the_default now (rp_updated_at p), u_status := status,
         u_started_at := the_default (u_started_at u) (rp_started_at p),
         u_finished_at := the_default (u_finished_at u) (rp_finished_at p),
         u_error := (case rp_error p of None \<Rightarrow> u_error u | Some e \<Rightarrow> map_option (redact_text E) e),
         u_command := (case rp_command p of None \<Rightarrow> u_command u | Some cs \<Rightarrow> map (redact_text E) cs),
         u_native_session_id := the_default (u_native_session_id u) (rp_native_session_id p),
         u_metadata := (case rp_metadata p of None \<Rightarrow> u_metadata u | Some m \<Rightarrow> redacted_mapping E m)\<rparr>))"

definition put_run :: "string \<Rightarrow> nat \<Rightarrow> run \<Rightarrow> history \<Rightarrow> history" where
  "put_run session_id k u hs = hs\<lparr>hs_runs := AList.update session_id ((dict_list (hs_runs hs) session_id)[k := u]) (hs_runs hs),
     hs_run_generation := hs_run_generation hs + 1\<rparr>"

definition update_run :: "env \<Rightarrow> string \<Rightarrow> string \<Rightarrow> run_patch \<Rightarrow> run hop" where
  "update_run E now run_id p hs =
     attempt_with (find_run run_id hs) (\<lambda>found hs.
       attempt_with (patch_run E now (snd (snd found)) p)
         (\<lambda>updated hs. (Inr updated, put_run (fst found) (fst (snd found)) updated hs)) hs) hs"

definition get_run :: "string \<Rightarrow> history \<Rightarrow> run result" where
  "get_run run_id hs = and_then (find_run run_id hs) (\<lambda>found. Inr (snd (snd found)))"

definition list_runs :: "string \<Rightarrow> history \<Rightarrow> run list result" where
  "list_runs session_id hs =
     and_then (get_session session_id hs) (\<lambda>_. Inr (dict_list (hs_runs hs) session_id))"

definition runs_center_generation :: "history \<Rightarrow> int \<times> int" where
  "runs_center_generation hs = (hs_session_generation hs, hs_run_generation hs)"

record run_cursor =
  rc_generation :: int
  rc_session_id :: string
  rc_position :: int
  rc_run_id :: string

record run_page =
  rg_items :: "run list"
  rg_next_cursor :: "run_cursor option"
  rg_has_more :: bool
  rg_generation :: int

text \<open>\<open>range(end - 1, max(-1, end - bounded - 1), -1)\<close>: newest first below the cursor.\<close>

definition list_runs_page :: "string \<Rightarrow> run_cursor option \<Rightarrow> int \<Rightarrow> history \<Rightarrow> run_page result" where
  "list_runs_page session_id cursor limit hs =
     and_then (get_session session_id hs) (\<lambda>_.
     and_then (bounded_query_limit limit MAX_RECORD_QUERY_LIMIT) (\<lambda>bounded.
     and_then (case cursor of
         None \<Rightarrow> Inr (int (length (dict_list (hs_runs hs) session_id)))
       | Some c \<Rightarrow> if rc_session_id c \<noteq> session_id then Inl (ValueError ''run cursor belongs to another session'')
                   else if rc_generation c \<noteq> hs_run_generation hs then Inl StaleReadSnapshotError
                   else Inr (rc_position c)) (\<lambda>stop.
       let positions = rev [max 0 (stop - bounded)..stop - 1];
           items = map (\<lambda>k. dict_list (hs_runs hs) session_id ! nat k) positions;
           has_more = (positions \<noteq> [] \<and> 0 < last positions)
       in if positions \<noteq> [] \<and> int (length (dict_list (hs_runs hs) session_id)) < stop then Inl IndexError
          else Inr \<lparr>rg_items = items,
            rg_next_cursor = (if has_more then Some \<lparr>rc_generation = hs_run_generation hs,
               rc_session_id = session_id, rc_position = last positions, rc_run_id = u_id (last items)\<rparr> else None),
            rg_has_more = has_more, rg_generation = hs_run_generation hs\<rparr>)))"

definition latest_runs :: "string list \<Rightarrow> history \<Rightarrow> (string \<times> run option) list result" where
  "latest_runs session_ids hs =
     (if MAX_RECORD_QUERY_LIMIT < int (length session_ids) then Inl (ValueError ''session_ids out of range'')
      else Inr (fold (\<lambda>i d. AList.update i (case dict_list (hs_runs hs) i of [] \<Rightarrow> None | us \<Rightarrow> Some (last us)) d) session_ids []))"

section \<open>Events\<close>

definition prepare_event :: "env \<Rightarrow> string \<Rightarrow> event \<Rightarrow> event result" where
  "prepare_event E session_id e =
     (if ev_session_id e \<noteq> session_id then Inl (ValueError ''event belongs to another session'')
      else Inr (e\<lparr>ev_message := redact_text E (ev_message e), ev_payload := redact_event_payload E (ev_payload e)\<rparr>))"

definition MAX_EVENT_APPEND_BATCH_RECORDS :: nat where
  "MAX_EVENT_APPEND_BATCH_RECORDS = 64"

fun prepare_events :: "env \<Rightarrow> string \<Rightarrow> event list \<Rightarrow> event list result" where
  "prepare_events E sid [] = Inr []"
| "prepare_events E sid (e # es) =
     and_then (prepare_event E sid e) (\<lambda>p. and_then (prepare_events E sid es) (\<lambda>ps. Inr (p # ps)))"

definition persist_event :: "event \<Rightarrow> history \<Rightarrow> history" where
  "persist_event e hs = hs\<lparr>hs_events := dict_append (ev_session_id e) e (hs_events hs),
     hs_event_index := AList.update (ev_id e) e (hs_event_index hs)\<rparr>"

definition append_many :: "env \<Rightarrow> string \<Rightarrow> event list \<Rightarrow> event list hop" where
  "append_many E session_id es hs =
     (if es = [] then (Inr [], hs)
      else if MAX_EVENT_APPEND_BATCH_RECORDS < length es then (Inl (ValueError ''event append batch is too large''), hs)
      else attempt_with (prepare_events E session_id es)
             (\<lambda>prepared hs. (Inr prepared, fold persist_event prepared hs)) hs)"

definition append_event :: "env \<Rightarrow> event \<Rightarrow> event hop" where
  "append_event E e hs =
     attempt_with (get_session (ev_session_id e) hs) (\<lambda>_ hs.
       case append_many E (ev_session_id e) [e] hs of
         (Inl err, hs') \<Rightarrow> (Inl err, hs')
       | (Inr stored, hs') \<Rightarrow> (Inr (hd stored), hs')) hs"

definition append_events :: "env \<Rightarrow> event list \<Rightarrow> event list hop" where
  "append_events E es hs =
     (case es of [] \<Rightarrow> (Inr [], hs)
      | e # _ \<Rightarrow> attempt_with (get_session (ev_session_id e) hs) (\<lambda>_. append_many E (ev_session_id e) es) hs)"

definition after_event :: "string option \<Rightarrow> event list \<Rightarrow> event list" where
  "after_event after_id es = (case after_id of None \<Rightarrow> es
     | Some i \<Rightarrow> drop 1 (dropWhile (\<lambda>e. ev_id e \<noteq> i) es))"

definition of_run :: "string option \<Rightarrow> event \<Rightarrow> bool" where
  "of_run run_id e = (run_id = None \<or> Some (ev_run_id e) = run_id)"

definition filter_events :: "string option \<Rightarrow> string option \<Rightarrow> event list \<Rightarrow> event list" where
  "filter_events run_id after_id es = after_event after_id (filter (of_run run_id) es)"

definition list_events :: "string \<Rightarrow> string option \<Rightarrow> string option \<Rightarrow> history \<Rightarrow> event list result" where
  "list_events session_id run_id after_id hs =
     and_then (get_session session_id hs) (\<lambda>_. Inr (filter_events run_id after_id (dict_list (hs_events hs) session_id)))"

definition get_event :: "string \<Rightarrow> history \<Rightarrow> event result" where
  "get_event event_id hs = (case map_of (hs_event_index hs) event_id of
     None \<Rightarrow> Inl (EventNotFoundError event_id) | Some e \<Rightarrow> Inr e)"

definition event_tail_offset :: "string \<Rightarrow> history \<Rightarrow> nat result" where
  "event_tail_offset session_id hs =
     and_then (get_session session_id hs) (\<lambda>_. Inr (length (dict_list (hs_events hs) session_id)))"

record cursor_position =
  cp_offset :: nat
  cp_terminal_seen :: bool

definition resolve_event_cursor :: "string \<Rightarrow> string option \<Rightarrow> string \<Rightarrow> history \<Rightarrow> cursor_position option result" where
  "resolve_event_cursor session_id run_id event_id hs =
     and_then (get_session session_id hs) (\<lambda>_.
       Inr (map_option (\<lambda>ke. \<lparr>cp_offset = fst ke, cp_terminal_seen = (ev_type (snd ke) = ''run_finished'')\<rparr>)
         (List.find (\<lambda>ke. of_run run_id (snd ke) \<and> ev_id (snd ke) = event_id)
           (enumerate 1 (dict_list (hs_events hs) session_id)))))"

subsection \<open>Tail pages\<close>

definition utf8_bytes :: "char \<Rightarrow> int" where
  "utf8_bytes c = (if c = ELLIPSIS then 3 else if (of_char c :: nat) < 128 then 1 else 2)"

definition event_stream_size :: "event \<Rightarrow> int" where
  "event_stream_size e = sum_list (map utf8_bytes (dumps False '','' '':'' (event_to_dict e)))"

record tail_page =
  tp_items :: "(event \<times> nat) list"
  tp_next_offset :: nat
  tp_has_more :: bool
  tp_byte_count :: int

text \<open>The scan of a page over the events in reach: items, position and bytes so far.\<close>

fun tail_scan ::
    "string option \<Rightarrow> nat \<Rightarrow> int \<Rightarrow> (event \<times> nat) list \<Rightarrow> nat \<Rightarrow> int \<Rightarrow> event list
     \<Rightarrow> ((event \<times> nat) list \<times> nat \<times> int) result" where
  "tail_scan run_id slots bytes found position count [] = Inr (found, position, count)"
| "tail_scan run_id slots bytes found position count (e # es) =
     (if slots \<le> length found then Inr (found, position, count)
      else if \<not> of_run run_id e then tail_scan run_id slots bytes found (Suc position) count es
      else let size = event_stream_size e in
        if found \<noteq> [] \<and> bytes < count + size then Inr (found, position, count)
        else if bytes < size then Inl (ValueError ''stored event exceeds the stream byte limit'')
        else tail_scan run_id slots bytes (found @ [(e, Suc position)]) (Suc position) (count + size) es)"

definition list_event_tail_page :: "string \<Rightarrow> string option \<Rightarrow> int \<Rightarrow> int \<Rightarrow> int \<Rightarrow> history \<Rightarrow> tail_page result" where
  "list_event_tail_page session_id run_id offset limit max_bytes hs =
     and_then (get_session session_id hs) (\<lambda>_.
       let events = dict_list (hs_events hs) session_id in
       if offset < 0 \<or> int (length events) < offset
       then Inl (ValueError ''event cursor offset is outside the retained tail'')
       else
         let slots = nat (min (max limit 1) 100);
             bytes = min (max max_bytes 1024) 1048576;
             start = nat offset;
             reach = min (length events) (start + slots * 16)
         in and_then (tail_scan run_id slots bytes [] start 0 (take (reach - start) (drop start events))) (\<lambda>r.
              Inr \<lparr>tp_items = fst r, tp_next_offset = fst (snd r),
                tp_has_more = (fst (snd r) < length events), tp_byte_count = snd (snd r)\<rparr>))"

section \<open>Raw records and native links\<close>

definition append_raw :: "env \<Rightarrow> string \<Rightarrow> string \<Rightarrow> bool \<Rightarrow> string \<Rightarrow> string \<Rightarrow> json \<Rightarrow> raw_record hop" where
  "append_raw E now uuid is_request session_id run_id payload hs =
     attempt_with (get_session session_id hs) (\<lambda>_ hs.
       let r = \<lparr>rr_id = new_id ''raw'' uuid, rr_session_id = session_id, rr_run_id = run_id,
             rr_payload = redacted_mapping E payload, rr_created_at = now\<rparr>
       in (Inr r, if is_request
             then hs\<lparr>hs_raw_requests := dict_append session_id r (hs_raw_requests hs),
                     hs_raw_request_index := dict_append run_id r (hs_raw_request_index hs)\<rparr>
             else hs\<lparr>hs_raw_responses := dict_append session_id r (hs_raw_responses hs),
                     hs_raw_response_index := dict_append run_id r (hs_raw_response_index hs)\<rparr>)) hs"

definition list_raw_requests :: "string \<Rightarrow> history \<Rightarrow> raw_record list result" where
  "list_raw_requests session_id hs =
     and_then (get_session session_id hs) (\<lambda>_. Inr (dict_list (hs_raw_requests hs) session_id))"

definition list_raw_responses :: "string \<Rightarrow> history \<Rightarrow> raw_record list result" where
  "list_raw_responses session_id hs =
     and_then (get_session session_id hs) (\<lambda>_. Inr (dict_list (hs_raw_responses hs) session_id))"

definition raw_for_run :: "bool \<Rightarrow> string \<Rightarrow> int \<Rightarrow> history \<Rightarrow> raw_record list result" where
  "raw_for_run is_request run_id limit hs =
     and_then (bounded_query_limit limit MAX_RECORD_QUERY_LIMIT) (\<lambda>n.
       let rows = dict_list (if is_request then hs_raw_request_index hs else hs_raw_response_index hs) run_id
       in Inr (drop (length rows - nat n) rows))"

definition redacted_native_link :: "env \<Rightarrow> native_link \<Rightarrow> native_link result" where
  "redacted_native_link E link = native_link_from_dict (redact_for_storage E (native_link_to_dict link))"

definition append_native_link :: "env \<Rightarrow> string \<Rightarrow> native_link \<Rightarrow> native_link hop" where
  "append_native_link E session_id link hs =
     attempt_with (and_then (get_session session_id hs) (\<lambda>_. redacted_native_link E (link\<lparr>nl_session_id := session_id\<rparr>)))
       (\<lambda>stored hs. (Inr stored, hs\<lparr>hs_native_links := dict_append session_id stored (hs_native_links hs)\<rparr>)) hs"

definition list_native_links :: "string \<Rightarrow> history \<Rightarrow> native_link list result" where
  "list_native_links session_id hs =
     and_then (get_session session_id hs) (\<lambda>_. Inr (dict_list (hs_native_links hs) session_id))"

definition get_native_link :: "string \<Rightarrow> string \<Rightarrow> history \<Rightarrow> native_link option result" where
  "get_native_link session_id harness_id hs =
     and_then (list_native_links session_id hs) (\<lambda>links.
       Inr (case filter (\<lambda>l. nl_harness_id l = harness_id) links of [] \<Rightarrow> None | ls \<Rightarrow> Some (last ls)))"

section \<open>The event tail is paged without loss\<close>

definition page_items :: "string option \<Rightarrow> nat \<Rightarrow> event list \<Rightarrow> (event \<times> nat) list" where
  "page_items run_id position es = map (\<lambda>ke. (snd ke, Suc (fst ke))) (filter (\<lambda>ke. of_run run_id (snd ke)) (enumerate position es))"

lemma page_items_simps [simp]:
  "page_items run_id position [] = []"
  "page_items run_id position (e # es) =
     (if of_run run_id e then (e, Suc position) # page_items run_id (Suc position) es else page_items run_id (Suc position) es)"
  by (simp_all add: page_items_def)

lemma page_items_append: "page_items rid p (xs @ ys) = page_items rid p xs @ page_items rid (p + length xs) ys"
  by (induction xs arbitrary: p) auto

lemma fst_page_items: "map fst (page_items rid p es) = filter (of_run rid) es"
  by (induction es arbitrary: p) auto

abbreviation bytes_of :: "(event \<times> nat) list \<Rightarrow> int" where
  "bytes_of xs \<equiv> sum_list (map (\<lambda>x. event_stream_size (fst x)) xs)"

lemma tail_scan_spec:
  assumes "tail_scan rid slots bytes acc p count es = Inr (found, p', count')"
    "length acc \<le> slots" "count \<le> bytes" "acc = [] \<Longrightarrow> count = 0"
  shows "\<exists>n \<le> length es. p' = p + n \<and> found = acc @ page_items rid p (take n es)
    \<and> count' = count + bytes_of (page_items rid p (take n es)) \<and> length found \<le> slots \<and> count' \<le> bytes
    \<and> (length acc < slots \<and> es \<noteq> [] \<and> acc = [] \<longrightarrow> 0 < n)"
  using assms
proof (induction es arbitrary: acc p count)
  case Nil
  then show ?case by simp
next
  case (Cons e es)
  show ?case
  proof (cases "slots \<le> length acc")
    case True
    with Cons.prems show ?thesis by (intro exI [of _ 0]) simp
  next
    case room: False
    show ?thesis
    proof (cases "of_run rid e")
      case False
      with Cons.prems room obtain n where "n \<le> length es" "p' = Suc p + n"
        "found = acc @ page_items rid (Suc p) (take n es)"
        "count' = count + bytes_of (page_items rid (Suc p) (take n es))" "length found \<le> slots" "count' \<le> bytes"
        using Cons.IH [of acc "Suc p" count] by auto
      with False show ?thesis by (intro exI [of _ "Suc n"]) simp
    next
      case True
      show ?thesis
      proof (cases "acc \<noteq> [] \<and> bytes < count + event_stream_size e")
        case True
        with Cons.prems room \<open>of_run rid e\<close> show ?thesis by (intro exI [of _ 0]) (simp add: Let_def)
      next
        case False
        with Cons.prems(1) room True have fits: "\<not> bytes < event_stream_size e"
          and rest: "tail_scan rid slots bytes (acc @ [(e, Suc p)]) (Suc p) (count + event_stream_size e) es = Inr (found, p', count')"
          by (auto simp: Let_def split: if_splits)
        have "count + event_stream_size e \<le> bytes" using False fits Cons.prems(4) by auto
        then obtain n where "n \<le> length es" "p' = Suc p + n"
          "found = (acc @ [(e, Suc p)]) @ page_items rid (Suc p) (take n es)"
          "count' = count + event_stream_size e + bytes_of (page_items rid (Suc p) (take n es))"
          "length found \<le> slots" "count' \<le> bytes"
          using Cons.IH [OF rest] room by auto
        with True show ?thesis by (intro exI [of _ "Suc n"]) simp
      qed
    qed
  qed
qed

lemma tail_scan_total:
  assumes "\<forall>e\<in>set es. of_run rid e \<longrightarrow> event_stream_size e \<le> bytes"
  shows "\<exists>r. tail_scan rid slots bytes acc p count es = Inr r"
  using assms by (induction es arbitrary: acc p count) (auto simp: Let_def)

text \<open>What one page holds.\<close>

lemma event_tail_page_spec:
  assumes page: "list_event_tail_page sid rid offset limit max_bytes hs = Inr p"
    and evs: "evs = dict_list (hs_events hs) sid" and off: "off = nat offset"
  shows "off \<le> tp_next_offset p \<and> tp_next_offset p \<le> length evs \<and> off \<le> length evs
    \<and> tp_items p = page_items rid off (take (tp_next_offset p - off) (drop off evs))
    \<and> (tp_has_more p \<longleftrightarrow> tp_next_offset p < length evs)
    \<and> (off < length evs \<longrightarrow> off < tp_next_offset p)
    \<and> int (length (tp_items p)) \<le> min (max limit 1) 100
    \<and> tp_byte_count p = bytes_of (tp_items p) \<and> tp_byte_count p \<le> min (max max_bytes 1024) 1048576"
proof -
  define slots where "slots = nat (min (max limit 1) 100)"
  define bytes where "bytes = min (max max_bytes 1024) 1048576"
  define reach where "reach = min (length evs) (off + slots * 16)"
  from page obtain r where r: "tail_scan rid slots bytes [] off 0 (take (reach - off) (drop off evs)) = Inr r"
    and offset: "0 \<le> offset" "offset \<le> int (length evs)"
    and p: "p = \<lparr>tp_items = fst r, tp_next_offset = fst (snd r), tp_has_more = (fst (snd r) < length evs), tp_byte_count = snd (snd r)\<rparr>"
    unfolding list_event_tail_page_def Let_def evs [symmetric] off [symmetric] slots_def [symmetric] bytes_def [symmetric] reach_def [symmetric]
    by (auto simp: and_then_Inr_iff split: if_splits)
  have "0 < slots" "0 \<le> bytes" by (simp_all add: slots_def bytes_def)
  with tail_scan_spec [of rid slots bytes "[]" off 0 "take (reach - off) (drop off evs)" "fst r" "fst (snd r)" "snd (snd r)"] r
  obtain n where n: "n \<le> length (take (reach - off) (drop off evs))" "fst (snd r) = off + n"
    "fst r = page_items rid off (take n (take (reach - off) (drop off evs)))"
    "snd (snd r) = bytes_of (fst r)" "length (fst r) \<le> slots" "snd (snd r) \<le> bytes"
    "take (reach - off) (drop off evs) \<noteq> [] \<longrightarrow> 0 < n"
    by auto
  have len: "length (take (reach - off) (drop off evs)) = reach - off" by (simp add: reach_def)
  have "off \<le> length evs" using offset off by simp
  moreover have "take n (take (reach - off) (drop off evs)) = take n (drop off evs)" using n(1) len by (simp add: min_def)
  moreover have "off + n \<le> length evs" using n(1) len \<open>off \<le> length evs\<close> by (auto simp: reach_def)
  moreover have "0 < n" if "off < length evs"
  proof -
    have "off < reach" using that \<open>0 < slots\<close> by (simp add: reach_def)
    with len have "length (take (reach - off) (drop off evs)) \<noteq> 0" by simp
    with n(7) show ?thesis by auto
  qed
  ultimately show ?thesis using n p by (auto simp: slots_def bytes_def)
qed

text \<open>A reader that asks for the next page until there is no more.\<close>

fun read_tail :: "nat \<Rightarrow> string \<Rightarrow> string option \<Rightarrow> int \<Rightarrow> int \<Rightarrow> int \<Rightarrow> history \<Rightarrow> event list result option" where
  "read_tail 0 sid rid limit max_bytes offset hs = None"
| "read_tail (Suc fuel) sid rid limit max_bytes offset hs =
     (case list_event_tail_page sid rid offset limit max_bytes hs of
        Inl e \<Rightarrow> Some (Inl e)
      | Inr p \<Rightarrow> if tp_has_more p
          then map_option (\<lambda>r. and_then r (\<lambda>es. Inr (map fst (tp_items p) @ es)))
                 (read_tail fuel sid rid limit max_bytes (int (tp_next_offset p)) hs)
          else Some (Inr (map fst (tp_items p))))"

text \<open>
  C36. Event pages lose nothing and end. Every page starts at its offset, holds exactly the events of
  the run up to its next offset, each with the offset behind it, stays within the item and byte
  bounds and moves forward as long as there are events; and a reader that follows the next
  offsets needs at most one request per stored event to read all events of the run, in order and
  without a duplicate, provided no single event is larger than the byte limit.
\<close>

theorem event_tail_pages_complete:
  assumes s: "get_session sid hs = Inr s" and evs: "evs = dict_list (hs_events hs) sid"
    and fit: "\<forall>e\<in>set evs. of_run rid e \<longrightarrow> event_stream_size e \<le> min (max max_bytes 1024) 1048576"
    and off: "off \<le> length evs" and fuel: "length evs - off < fuel"
  shows "(\<exists>p. list_event_tail_page sid rid (int off) limit max_bytes hs = Inr p \<and> off \<le> tp_next_offset p
      \<and> tp_items p = page_items rid off (take (tp_next_offset p - off) (drop off evs))
      \<and> int (length (tp_items p)) \<le> min (max limit 1) 100 \<and> tp_byte_count p = bytes_of (tp_items p)
      \<and> tp_byte_count p \<le> min (max max_bytes 1024) 1048576)
    \<and> read_tail fuel sid rid limit max_bytes (int off) hs = Some (Inr (filter (of_run rid) (drop off evs)))"
  using off fuel
proof (induction fuel arbitrary: off)
  case 0
  then show ?case by simp
next
  case (Suc fuel)
  let ?slots = "nat (min (max limit 1) 100)" and ?bytes = "min (max max_bytes 1024) 1048576"
  have "\<forall>e\<in>set (take k (drop off evs)). of_run rid e \<longrightarrow> event_stream_size e \<le> ?bytes" for k
    using fit by (meson in_set_dropD in_set_takeD)
  then obtain r where r: "tail_scan rid ?slots ?bytes [] off 0
      (take (min (length evs) (off + ?slots * 16) - off) (drop off evs)) = Inr r"
    using tail_scan_total by blast
  have "\<not> (int off < 0 \<or> int (length evs) < int off)" using Suc.prems(1) by simp
  with r obtain p where p: "list_event_tail_page sid rid (int off) limit max_bytes hs = Inr p"
    unfolding list_event_tail_page_def s and_then_simps Let_def evs [symmetric] nat_int by (simp only: if_False and_then_simps)
  have spec: "off \<le> tp_next_offset p \<and> tp_next_offset p \<le> length evs \<and> off \<le> length evs
    \<and> tp_items p = page_items rid off (take (tp_next_offset p - off) (drop off evs))
    \<and> (tp_has_more p \<longleftrightarrow> tp_next_offset p < length evs)
    \<and> (off < length evs \<longrightarrow> off < tp_next_offset p)
    \<and> int (length (tp_items p)) \<le> min (max limit 1) 100
    \<and> tp_byte_count p = bytes_of (tp_items p) \<and> tp_byte_count p \<le> min (max max_bytes 1024) 1048576"
    by (rule event_tail_page_spec [OF p evs]) simp
  let ?n = "tp_next_offset p"
  have split: "drop off evs = take (?n - off) (drop off evs) @ drop ?n evs"
    using spec by (metis append_take_drop_id drop_drop le_add_diff_inverse2)
  have "read_tail (Suc fuel) sid rid limit max_bytes (int off) hs = Some (Inr (filter (of_run rid) (drop off evs)))"
  proof (cases "tp_has_more p")
    case True
    then have "read_tail fuel sid rid limit max_bytes (int ?n) hs = Some (Inr (filter (of_run rid) (drop ?n evs)))"
      using Suc.IH [of ?n] Suc.prems spec by auto
    with True p spec show ?thesis by (subst split) (simp add: fst_page_items)
  next
    case False
    then have "drop ?n evs = []" using spec by simp
    with False p spec show ?thesis by (subst split) (simp add: fst_page_items)
  qed
  with p spec show ?case by blast
qed

definition sample_session :: session where
  "sample_session = \<lparr>ss_id = ''s'', ss_title = ''Untitled session'', ss_created_at = ''10'', ss_updated_at = ''10'',
     ss_workspace = None, ss_default_harness_id = ''echo'', ss_default_model = None, ss_default_api_mode = API_V2,
     ss_default_mode = ''plan'', ss_pinned = False, ss_archived = False, ss_tags = [], ss_native = JObj [],
     ss_metadata = JObj []\<rparr>"

definition sample_event :: "string \<Rightarrow> string \<Rightarrow> event" where
  "sample_event i rid = \<lparr>ev_id = i, ev_session_id = ''s'', ev_run_id = rid, ev_type = ''note'', ev_message = ''x'',
     ev_payload = JObj [], ev_created_at = ''10'', ev_trace_id = None, ev_span_id = None, ev_parent_span_id = None,
     ev_sequence = None, ev_job_id = None, ev_attempt_id = None, ev_workflow_id = None, ev_workflow_step_id = None,
     ev_agent_id = None, ev_span_kind = None, ev_span_status = None\<rparr>"

definition sample_history :: history where
  "sample_history = empty_history\<lparr>hs_sessions := [(''s'', sample_session)], hs_runs := [(''s'', [sample_run])],
     hs_events := [(''s'', [sample_event ''e1'' ''run_1'', sample_event ''e2'' ''run_2'', sample_event ''e3'' ''run_1''])]\<rparr>"

theorem event_tail_pages_complete_witness:
  "read_tail 4 ''s'' (Some ''run_1'') 1 0 0 sample_history
     = Some (Inr [sample_event ''e1'' ''run_1'', sample_event ''e3'' ''run_1''])"
proof -
  let ?evs = "[sample_event ''e1'' ''run_1'', sample_event ''e2'' ''run_2'', sample_event ''e3'' ''run_1'']"
  have s: "get_session ''s'' sample_history = Inr sample_session" by code_simp
  have evs: "?evs = dict_list (hs_events sample_history) ''s''" by (simp add: sample_history_def dict_list_def)
  have "list_all (\<lambda>e. event_stream_size e \<le> 1024) ?evs" by code_simp
  then have fit: "\<forall>e\<in>set ?evs. of_run (Some ''run_1'') e \<longrightarrow> event_stream_size e \<le> min (max 0 1024) 1048576"
    by (simp add: list_all_iff)
  have "read_tail 4 ''s'' (Some ''run_1'') 1 0 (int 0) sample_history
     = Some (Inr (filter (of_run (Some ''run_1'')) (drop 0 ?evs)))"
    using event_tail_pages_complete [OF s evs fit, of 0 4 1] by simp
  then show ?thesis by (simp add: of_run_def sample_event_def)
qed

end
