(* ===== verification/Run_History.thy ===== *)
theory Run_History
  imports Session_Store
begin

text \<open>
  The part of the session store the reconciler works with, as an interface: the locale
  \<open>run_history\<close> states what reading, patching and appending guarantee, and the session store of
  \<open>Session_Store\<close> interprets it as \<open>session_history\<close>.
\<close>

section \<open>The run history a client relies on\<close>

text \<open>
  The interface of the reconciler: read and patch a run, list and append the events of a run. What
  was written is read back, other runs and events are untouched, and a failing append changes
  nothing.
\<close>

locale run_history =
  fixes get :: "string \<Rightarrow> 'h \<Rightarrow> run result"
    and patch :: "string \<Rightarrow> run_patch \<Rightarrow> 'h \<Rightarrow> run result \<times> 'h"
    and evs :: "string \<Rightarrow> string \<Rightarrow> 'h \<Rightarrow> event list result"
    and add :: "event \<Rightarrow> 'h \<Rightarrow> event result \<times> 'h"
    and ok :: "'h \<Rightarrow> bool"
  assumes get_after_patch: "ok h \<Longrightarrow> patch i p h = (Inr u, h') \<Longrightarrow> get i h' = Inr u"
    and patch_keeps_runs: "ok h \<Longrightarrow> patch i p h = (r, h') \<Longrightarrow> j \<noteq> i \<Longrightarrow> get j h' = get j h"
    and patch_keeps_events: "patch i p h = (r, h') \<Longrightarrow> evs s k h' = evs s k h"
    and patch_keeps_ok: "ok h \<Longrightarrow> ok (snd (patch i p h))"
    and add_reads: "add e h = (Inr x, h') \<Longrightarrow> evs s k h' = and_then (evs s k h) (\<lambda>es.
        Inr (if s = ev_session_id e \<and> k = ev_run_id e then es @ [x] else es)) \<and> ev_id x = ev_id e"
    and add_keeps_runs: "add e h = (res, h') \<Longrightarrow> get j h' = get j h"
    and add_fails: "add e h = (Inl err, h') \<Longrightarrow> h' = h"
    and add_keeps_ok: "ok h \<Longrightarrow> ok (snd (add e h))"
begin

lemma add_present:
  assumes "add e h = (Inr x, h')" "evs (ev_session_id e) (ev_run_id e) h = Inr es"
  shows "\<exists>es'. evs (ev_session_id e) (ev_run_id e) h' = Inr es' \<and> ev_id e \<in> ev_id ` set es'"
  using add_reads [OF assms(1), of "ev_session_id e" "ev_run_id e"] assms(2) by force

lemma present_stays:
  assumes "add e h = (r, h')" "evs s k h = Inr es" "i \<in> ev_id ` set es"
  shows "\<exists>es'. evs s k h' = Inr es' \<and> i \<in> ev_id ` set es'"
proof (cases r)
  case (Inl err)
  then show ?thesis using add_fails [of e h err h'] assms by auto
next
  case (Inr x)
  then show ?thesis using add_reads [of e h x h' s k] assms by auto
qed

end

subsection \<open>The session store is a run history\<close>

definition history_ok :: "history \<Rightarrow> bool" where
  "history_ok hs \<longleftrightarrow> distinct (map fst (hs_runs hs))"

definition flat_runs :: "(string \<times> run list) list \<Rightarrow> (string \<times> nat \<times> run) list" where
  "flat_runs d = concat (map (\<lambda>kv. map (\<lambda>ku. (fst kv, fst ku, snd ku)) (enumerate 0 (snd kv))) d)"

lemma find_run_flat:
  "find_run i hs = (case filter (\<lambda>x. u_id (snd (snd x)) = i) (flat_runs (hs_runs hs)) of
     [] \<Rightarrow> Inl (RunNotFoundError i) | x # _ \<Rightarrow> Inr x)"
proof -
  have one: "List.map_filter (\<lambda>ku. if u_id (snd ku) = i then Some (k, fst ku, snd ku) else None) us
    = filter (\<lambda>x. u_id (snd (snd x)) = i) (map (\<lambda>ku. (k, fst ku, snd ku)) us)" for k us
    by (induction us) (auto simp: map_filter_simps)
  have "concat (map (\<lambda>kv. List.map_filter
              (\<lambda>ku. if u_id (snd ku) = i then Some (fst kv, fst ku, snd ku) else None) (enumerate 0 (snd kv))) d)
    = filter (\<lambda>x. u_id (snd (snd x)) = i) (flat_runs d)" for d
    unfolding flat_runs_def by (induction d) (simp_all add: one)
  then show ?thesis by (simp add: find_run_def)
qed

lemma update_existing:
  "distinct (map fst d) \<Longrightarrow> k \<in> fst ` set d \<Longrightarrow>
   AList.update k v d = map (\<lambda>kv. if fst kv = k then (k, v) else kv) d"
proof (induction d)
  case Nil
  then show ?case by simp
next
  case (Cons x d)
  show ?case
  proof (cases "fst x = k")
    case True
    then have "map (\<lambda>kv. if fst kv = k then (k, v) else kv) d = d"
      using Cons.prems(1) by (intro map_idI) (auto simp: image_iff)
    with True show ?thesis by (cases x) simp
  next
    case False
    with Cons show ?thesis by (cases x) auto
  qed
qed

lemma flat_runs_put:
  assumes "distinct (map fst d)" "(sid, us) \<in> set d" "k < length us"
  shows "flat_runs (AList.update sid ((dict_list d sid)[k := u]) d)
    = map (\<lambda>x. if fst x = sid \<and> fst (snd x) = k then (sid, k, u) else x) (flat_runs d)"
proof -
  have us: "dict_list d sid = us" using assms(1,2) by (simp add: dict_list_def)
  have one: "map (\<lambda>ku. (sid, fst ku, snd ku)) (enumerate 0 (us[k := u]))
    = map (\<lambda>x. if fst x = sid \<and> fst (snd x) = k then (sid, k, u) else x) (map (\<lambda>ku. (sid, fst ku, snd ku)) (enumerate 0 us))"
    by (rule nth_equalityI) (auto simp: nth_enumerate_eq)
  have two: "fst kv \<noteq> sid \<Longrightarrow> map (\<lambda>x. if fst x = sid \<and> fst (snd x) = k then (sid, k, u) else x)
      (map (\<lambda>ku. (fst kv, fst ku, snd ku)) (enumerate 0 (snd kv))) = map (\<lambda>ku. (fst kv, fst ku, snd ku)) (enumerate 0 (snd kv))"
    for kv :: "string \<times> run list" by simp
  have uniq: "kv \<in> set d \<Longrightarrow> fst kv = sid \<Longrightarrow> snd kv = us" for kv
    using assms(1,2) by (metis eq_key_imp_eq_value prod.collapse)
  have "sid \<in> fst ` set d" using assms(2) by force
  then show ?thesis
    unfolding us update_existing [OF assms(1) \<open>sid \<in> fst ` set d\<close>] flat_runs_def map_concat map_map
    by (intro arg_cong [where f = concat] map_cong [OF refl]) (use one two uniq in auto)
qed

lemma flat_runs_member:
  "x \<in> set (flat_runs d) \<longleftrightarrow>
     (\<exists>us. (fst x, us) \<in> set d \<and> fst (snd x) < length us \<and> snd (snd x) = us ! fst (snd x))"
  by (cases x) (force simp: flat_runs_def in_set_enumerate_eq)

lemma find_run_Inr:
  assumes "find_run i hs = Inr (sid, k, u)"
  shows "u_id u = i \<and> (\<exists>us. (sid, us) \<in> set (hs_runs hs) \<and> k < length us \<and> us ! k = u)"
proof -
  from assms obtain xs where "filter (\<lambda>x. u_id (snd (snd x)) = i) (flat_runs (hs_runs hs)) = (sid, k, u) # xs"
    by (auto simp: find_run_flat split: list.splits)
  then have "(sid, k, u) \<in> set (filter (\<lambda>x. u_id (snd (snd x)) = i) (flat_runs (hs_runs hs)))" by simp
  then show ?thesis by (auto simp: flat_runs_member)
qed

lemma filter_map_keep:
  "(\<And>x. x \<in> set xs \<Longrightarrow> P (g x) = P x) \<Longrightarrow> filter P (map g xs) = map g (filter P xs)"
  by (induction xs) auto

text \<open>Patching the run with id \<open>i\<close> in place.\<close>

lemma find_run_put:
  assumes ok: "history_ok hs" and found: "find_run i hs = Inr (sid, k, u)" and id: "u_id u' = i"
  shows "find_run i (put_run sid k u' hs) = Inr (sid, k, u')"
    "j \<noteq> i \<Longrightarrow> find_run j (put_run sid k u' hs) = find_run j hs"
proof -
  obtain us where us: "(sid, us) \<in> set (hs_runs hs)" "k < length us" "us ! k = u" "u_id u = i"
    using find_run_Inr [OF found] by auto
  let ?g = "\<lambda>x. if fst x = sid \<and> fst (snd x) = k then (sid, k, u') else x"
  have flat: "flat_runs (hs_runs (put_run sid k u' hs)) = map ?g (flat_runs (hs_runs hs))"
    using flat_runs_put [OF ok [unfolded history_ok_def] us(1,2)] by (simp add: put_run_def)
  have here: "snd (snd x) = u" if x: "x \<in> set (flat_runs (hs_runs hs))" "fst x = sid" "fst (snd x) = k" for x
  proof -
    obtain vs where "(sid, vs) \<in> set (hs_runs hs)" "snd (snd x) = vs ! k"
      using x by (auto simp: flat_runs_member)
    moreover have "vs = us"
      using calculation(1) us(1) ok unfolding history_ok_def by (rule eq_key_imp_eq_value [rotated])
    ultimately show ?thesis using us(3) by simp
  qed
  have "filter (\<lambda>x. u_id (snd (snd x)) = l) (map ?g (flat_runs (hs_runs hs)))
      = map ?g (filter (\<lambda>x. u_id (snd (snd x)) = l) (flat_runs (hs_runs hs)))" for l
    by (rule filter_map_keep) (use here us(4) id in auto)
  note filtered = this
  show "find_run i (put_run sid k u' hs) = Inr (sid, k, u')"
    unfolding find_run_flat flat filtered using found by (auto simp: find_run_flat split: list.splits)
  have "map ?g (filter (\<lambda>x. u_id (snd (snd x)) = j) (flat_runs (hs_runs hs)))
      = filter (\<lambda>x. u_id (snd (snd x)) = j) (flat_runs (hs_runs hs))" if "j \<noteq> i"
    by (rule map_idI) (use here us(4) that in auto)
  then show "j \<noteq> i \<Longrightarrow> find_run j (put_run sid k u' hs) = find_run j hs"
    unfolding find_run_flat flat filtered by simp
qed

lemma patch_run_id: "patch_run E now u p = Inr u' \<Longrightarrow> u_id u' = u_id u"
  by (auto simp: patch_run_def and_then_Inr_iff)

lemma update_run_cases:
  assumes "update_run E now i p hs = (r, hs')"
  obtains (Fails) e where "r = Inl e" "hs' = hs"
  | (Updates) sid k u u' where "find_run i hs = Inr (sid, k, u)" "patch_run E now u p = Inr u'" "u_id u' = i"
      "r = Inr u'" "hs' = put_run sid k u' hs"
proof (cases "find_run i hs")
  case (Inl e)
  with assms have "r = Inl e" "hs' = hs" by (auto simp: update_run_def attempt_with_def)
  then show thesis by (rule Fails)
next
  case (Inr f)
  obtain sid k u where f: "f = (sid, k, u)" by (cases f)
  show thesis
  proof (cases "patch_run E now u p")
    case (Inl e)
    with assms Inr f have "r = Inl e" "hs' = hs" by (auto simp: update_run_def attempt_with_def)
    then show thesis by (rule Fails)
  next
    case p: (Inr u')
    have "u_id u' = i" using find_run_Inr [OF Inr [unfolded f]] patch_run_id [OF p] by simp
    with assms Inr f p show thesis by (intro Updates [of sid k u u']) (simp_all add: update_run_def attempt_with_def)
  qed
qed

lemma put_run_frame [simp]:
  "hs_sessions (put_run sid k u hs) = hs_sessions hs" "hs_events (put_run sid k u hs) = hs_events hs"
  by (simp_all add: put_run_def)

lemma history_ok_put: "history_ok hs \<Longrightarrow> history_ok (put_run sid k u hs)"
  by (simp add: history_ok_def put_run_def distinct_update)

definition events_of_run :: "string \<Rightarrow> string \<Rightarrow> history \<Rightarrow> event list result" where
  "events_of_run session_id run_id = list_events session_id (Some run_id) None"

lemma events_of_run_frame:
  "hs_sessions hs' = hs_sessions hs \<Longrightarrow> hs_events hs' = hs_events hs \<Longrightarrow> events_of_run s k hs' = events_of_run s k hs"
  by (simp add: events_of_run_def list_events_def get_session_def)

lemma append_event_cases:
  assumes "append_event E e hs = (r, hs')"
  obtains (Fails) err where "r = Inl err" "hs' = hs"
  | (Appends) x where "r = Inr x" "hs' = persist_event x hs" "ev_id x = ev_id e"
      "ev_session_id x = ev_session_id e" "ev_run_id x = ev_run_id e"
proof (cases "get_session (ev_session_id e) hs")
  case (Inl err)
  with assms have "r = Inl err" "hs' = hs" by (auto simp: append_event_def attempt_with_def)
  then show thesis by (rule Fails)
next
  case (Inr s)
  let ?x = "e\<lparr>ev_message := redact_text E (ev_message e), ev_payload := redact_event_payload E (ev_payload e)\<rparr>"
  have "append_event E e hs = (Inr ?x, persist_event ?x hs)"
    using Inr by (simp add: append_event_def attempt_with_def append_many_def prepare_event_def MAX_EVENT_APPEND_BATCH_RECORDS_def)
  with assms show thesis by (intro Appends [of ?x]) simp_all
qed

lemma persist_event_frame [simp]:
  "hs_sessions (persist_event x hs) = hs_sessions hs" "hs_runs (persist_event x hs) = hs_runs hs"
  by (simp_all add: persist_event_def)

lemma dict_list_append: "dict_list (dict_append k x d) s = (if s = k then dict_list d k @ [x] else dict_list d s)"
  by (simp add: dict_append_def dict_list_def update_conv')

lemma events_after_persist:
  "events_of_run s k (persist_event x hs) = and_then (events_of_run s k hs) (\<lambda>es.
     Inr (if s = ev_session_id x \<and> k = ev_run_id x then es @ [x] else es))"
  by (cases "map_of (hs_sessions hs) s")
    (simp_all add: events_of_run_def list_events_def get_session_def filter_events_def after_event_def of_run_def
      persist_event_def dict_list_append)

interpretation session_history: run_history get_run "update_run E now" events_of_run "append_event E" history_ok
  for E now
proof unfold_locales
  fix h h' i p u assume "history_ok h" "update_run E now i p h = (Inr u, h')"
  from this(2) this(1) show "get_run i h' = Inr u"
    by (cases rule: update_run_cases) (simp_all add: get_run_def find_run_put)
next
  fix h h' i j p r assume "history_ok h" "update_run E now i p h = (r, h')" "j \<noteq> i"
  from this(2) this(1,3) show "get_run j h' = get_run j h"
    by (cases rule: update_run_cases) (simp_all add: get_run_def find_run_put)
next
  fix h h' i p r s k assume "update_run E now i p h = (r, h')"
  then show "events_of_run s k h' = events_of_run s k h"
    by (cases rule: update_run_cases) (auto intro: events_of_run_frame)
next
  fix h i p assume "history_ok h"
  moreover have "update_run E now i p h = (fst (update_run E now i p h), snd (update_run E now i p h))" by simp
  ultimately show "history_ok (snd (update_run E now i p h))"
    by (elim update_run_cases) (simp_all add: history_ok_put)
next
  fix e h h' s k x assume "append_event E e h = (Inr x, h')"
  then show "events_of_run s k h' = and_then (events_of_run s k h) (\<lambda>es.
        Inr (if s = ev_session_id e \<and> k = ev_run_id e then es @ [x] else es)) \<and> ev_id x = ev_id e"
    by (cases rule: append_event_cases) (simp_all add: events_after_persist)
next
  fix e h h' res j assume "append_event E e h = (res, h')"
  then show "get_run j h' = get_run j h"
    by (cases rule: append_event_cases) (simp_all add: get_run_def find_run_flat)
next
  fix e h h' err assume "append_event E e h = (Inl err, h')"
  then show "h' = h" by (cases rule: append_event_cases) simp_all
next
  fix e h assume "history_ok h"
  moreover have "append_event E e h = (fst (append_event E e h), snd (append_event E e h))" by simp
  ultimately show "history_ok (snd (append_event E e h))"
    by (elim append_event_cases) (simp_all add: history_ok_def)
qed

end
