(* ===== verification/Reconcile.thy ===== *)
theory Reconcile
  imports Side_Effects Run_History
begin

text \<open>
  The recovery bridge between the coordination database and the run history
  (\<open>runtime/reconcile.py\<close>): one pass repairs jobs and attempts from finished runs, then drains the
  transactional outbox into the run history. The state is the pair of the two stores; what a
  step has written stays when a later step raises. One clock reading and one fresh identity per
  entity stand for those drawn during a pass; \<open>rx_show\<close> is \<open>str(exc)\<close>.
\<close>

section \<open>State\<close>

record world =
  rw_db :: store
  rw_hist :: history

type_synonym 'a wop = "world \<Rightarrow> 'a result \<times> world"

record reconcile_env =
  rx_env :: env
  rx_now :: time
  rx_utc :: string
  rx_uuid :: "string \<Rightarrow> string"
  rx_show :: "error \<Rightarrow> string"

definition wbind :: "'a wop \<Rightarrow> ('a \<Rightarrow> 'b wop) \<Rightarrow> 'b wop" where
  "wbind m k w = (case fst (m w) of Inl e \<Rightarrow> (Inl e, snd (m w)) | Inr a \<Rightarrow> k a (snd (m w)))"

definition wret :: "'a \<Rightarrow> 'a wop" where
  "wret a w = (Inr a, w)"

definition wraise :: "'a result \<Rightarrow> 'a wop" where
  "wraise r w = (r, w)"

definition on_db :: "'a op \<Rightarrow> 'a wop" where
  "on_db f w = (fst (f (rw_db w)), w\<lparr>rw_db := snd (f (rw_db w))\<rparr>)"

definition read_db :: "(store \<Rightarrow> 'a result) \<Rightarrow> 'a wop" where
  "read_db f w = (f (rw_db w), w)"

definition on_hist :: "'a hop \<Rightarrow> 'a wop" where
  "on_hist f w = (fst (f (rw_hist w)), w\<lparr>rw_hist := snd (f (rw_hist w))\<rparr>)"

definition read_hist :: "(history \<Rightarrow> 'a result) \<Rightarrow> 'a wop" where
  "read_hist f w = (f (rw_hist w), w)"

section \<open>Status tables\<close>

fun run_to_job :: "run_status \<Rightarrow> job_status result" where
  "run_to_job RunSucceeded = Inr JobSucceeded"
| "run_to_job RunFailed = Inr JobFailed"
| "run_to_job RunCanceled = Inr JobCanceled"
| "run_to_job st = Inl (KeyError (run_status_value st))"

fun run_to_attempt :: "run_status \<Rightarrow> attempt_status result" where
  "run_to_attempt RunSucceeded = Inr AttemptSucceeded"
| "run_to_attempt RunFailed = Inr AttemptFailed"
| "run_to_attempt RunCanceled = Inr AttemptCanceled"
| "run_to_attempt st = Inl (KeyError (run_status_value st))"

fun job_to_run :: "job_status \<Rightarrow> run_status result" where
  "job_to_run JobSucceeded = Inr RunSucceeded"
| "job_to_run JobFailed = Inr RunFailed"
| "job_to_run JobCanceled = Inr RunCanceled"
| "job_to_run st = Inl (KeyError (job_status_value st))"

fun job_to_attempt :: "job_status \<Rightarrow> attempt_status result" where
  "job_to_attempt JobSucceeded = Inr AttemptSucceeded"
| "job_to_attempt JobFailed = Inr AttemptFailed"
| "job_to_attempt JobCanceled = Inr AttemptCanceled"
| "job_to_attempt st = Inl (KeyError (job_status_value st))"

section \<open>From finished runs to jobs\<close>

record report =
  rt_runs_scanned :: nat
  rt_jobs_repaired :: nat
  rt_attempts_repaired :: nat
  rt_outbox_processed :: nat
  rt_outbox_failed :: nat

definition empty_report :: report where
  "empty_report = \<lparr>rt_runs_scanned = 0, rt_jobs_repaired = 0, rt_attempts_repaired = 0,
     rt_outbox_processed = 0, rt_outbox_failed = 0\<rparr>"

definition repair_attempt :: "reconcile_env \<Rightarrow> attempt \<Rightarrow> run \<Rightarrow> report \<Rightarrow> report wop" where
  "repair_attempt X attempt u rep =
     (if terminal_attempt (a_status attempt) then wret rep
      else wbind (wraise (run_to_attempt (u_status u))) (\<lambda>target.
           wbind (on_db (transition_attempt (rx_env X) (rx_now X) (a_id attempt) target None None None)) (\<lambda>_.
             wret (rep\<lparr>rt_attempts_repaired := Suc (rt_attempts_repaired rep)\<rparr>))))"

definition retry_is_pending :: "attempt \<Rightarrow> job \<Rightarrow> bool" where
  "retry_is_pending attempt job = (terminal_attempt (a_status attempt) \<and> j_status job \<in> {JobRetryWait, JobQueued})"

definition repair_job :: "reconcile_env \<Rightarrow> attempt \<Rightarrow> run \<Rightarrow> report \<Rightarrow> report wop" where
  "repair_job X attempt u rep =
     wbind (read_db (get_job (a_job_id attempt))) (\<lambda>job.
       if terminal_job (j_status job) \<or> retry_is_pending attempt job then wret rep
       else wbind (wraise (run_to_job (u_status u))) (\<lambda>target.
            wbind (on_db (transition_job (rx_env X) (rx_now X) (rx_uuid X (j_id job)) (j_id job) target None (u_error u) None)) (\<lambda>_.
              wret (rep\<lparr>rt_jobs_repaired := Suc (rt_jobs_repaired rep)\<rparr>))))"

definition scan_attempt :: "reconcile_env \<Rightarrow> attempt \<Rightarrow> report \<Rightarrow> report wop" where
  "scan_attempt X attempt rep w =
     (case get_run (a_run_id attempt) (rw_hist w) of
        Inl _ \<Rightarrow> (Inr rep, w)
      | Inr u \<Rightarrow>
          let rep = rep\<lparr>rt_runs_scanned := Suc (rt_runs_scanned rep)\<rparr> in
          if \<not> terminal_run (u_status u) then (Inr rep, w)
          else wbind (repair_attempt X attempt u rep) (repair_job X attempt u) w)"

fun scan_attempts :: "reconcile_env \<Rightarrow> attempt list \<Rightarrow> report \<Rightarrow> report wop" where
  "scan_attempts X [] rep = wret rep"
| "scan_attempts X (a # as) rep = wbind (scan_attempt X a rep) (scan_attempts X as)"

section \<open>From the outbox to runs\<close>

definition attempt_for_payload :: "string \<Rightarrow> json option \<Rightarrow> store \<Rightarrow> attempt option result" where
  "attempt_for_payload job_id attempt_id s =
     (if (case attempt_id of None \<Rightarrow> False | Some v \<Rightarrow> truthy v)
      then and_then (get_attempt (py_str (the_default JNull attempt_id)) s) (\<lambda>a. Inr (Some a))
      else Inr (case list_attempts (Some job_id) s of [] \<Rightarrow> None | as \<Rightarrow> Some (last as)))"

definition event_id_of :: "string \<Rightarrow> string" where
  "event_id_of entry_id = ''evt_'' @ entry_id"

definition already_recorded :: "string \<Rightarrow> string \<Rightarrow> string \<Rightarrow> history \<Rightarrow> bool result" where
  "already_recorded entry_id session_id run_id hs =
     and_then (events_of_run session_id run_id hs) (\<lambda>es. Inr (event_id_of entry_id \<in> ev_id ` set es))"

definition recovery_event :: "reconcile_env \<Rightarrow> string \<Rightarrow> string \<Rightarrow> attempt option \<Rightarrow> string \<Rightarrow> string \<Rightarrow> int \<Rightarrow> event" where
  "recovery_event X entry_id job_id attempt session_id run_id seq = \<lparr>
     ev_id = event_id_of entry_id, ev_session_id = session_id, ev_run_id = run_id,
     ev_type = ''runtime_reconciled'',
     ev_message = ''Recovered terminal runtime state after restart.'',
     ev_payload = JObj [(''job_id'', JStr job_id), (''attempt_id'', opt_json (map_option a_id attempt))],
     ev_created_at = rx_utc X, ev_trace_id = Some (''trace_'' @ job_id),
     ev_span_id = Some (''span_'' @ (case attempt of None \<Rightarrow> job_id | Some a \<Rightarrow> a_id a)),
     ev_parent_span_id = None, ev_sequence = Some seq, ev_job_id = Some job_id,
     ev_attempt_id = map_option a_id attempt, ev_workflow_id = None, ev_workflow_step_id = None,
     ev_agent_id = None, ev_span_kind = Some ''run'', ev_span_status = Some ''reconciled''\<rparr>"

definition append_recovery_event ::
    "reconcile_env \<Rightarrow> string \<Rightarrow> string \<Rightarrow> attempt option \<Rightarrow> string \<Rightarrow> string \<Rightarrow> unit wop" where
  "append_recovery_event X entry_id job_id attempt session_id run_id =
     wbind (read_hist (already_recorded entry_id session_id run_id)) (\<lambda>found.
       if found then wret ()
       else wbind (on_db (next_trace_sequence (''trace_'' @ job_id))) (\<lambda>seq.
            wbind (on_hist (append_event (rx_env X) (recovery_event X entry_id job_id attempt session_id run_id seq))) (\<lambda>_.
              wret ())))"

definition side_effect_event ::
    "reconcile_env \<Rightarrow> string \<Rightarrow> json \<Rightarrow> side_effect \<Rightarrow> string \<Rightarrow> string \<Rightarrow> string \<times> string \<times> string \<Rightarrow> int \<Rightarrow> string \<Rightarrow> event" where
  "side_effect_event X entry_id payload e session_id run_id texts seq attempt_id = \<lparr>
     ev_id = event_id_of entry_id, ev_session_id = session_id, ev_run_id = run_id,
     ev_type = fst texts, ev_message = fst (snd texts), ev_payload = mapping_entry payload ''event_payload'',
     ev_created_at = rx_utc X, ev_trace_id = Some (''trace_'' @ snd (snd texts)),
     ev_span_id = Some (''span_'' @ e_id e), ev_parent_span_id = None, ev_sequence = Some seq,
     ev_job_id = Some (snd (snd texts)), ev_attempt_id = Some attempt_id, ev_workflow_id = None,
     ev_workflow_step_id = None, ev_agent_id = None, ev_span_kind = Some ''side_effect'',
     ev_span_status = Some ''completed''\<rparr>"

definition event_texts :: "json \<Rightarrow> (string \<times> string \<times> string) result" where
  "event_texts payload =
     and_then (required_entry payload ''event_type'') (\<lambda>t.
     and_then (required_entry payload ''message'') (\<lambda>m.
     and_then (required_entry payload ''job_id'') (\<lambda>j. Inr (t, m, j))))"

definition append_side_effect_event :: "reconcile_env \<Rightarrow> string \<Rightarrow> json \<Rightarrow> unit wop" where
  "append_side_effect_event X entry_id payload =
     wbind (wraise (required_entry payload ''side_effect_id'')) (\<lambda>effect_id.
     wbind (read_db (get_side_effect effect_id)) (\<lambda>e.
     wbind (wraise (guard (e_status e = EffectCompleted) (ValueError (''side effect '' @ e_id e @ '' is not completed'')))) (\<lambda>_.
     wbind (wraise (required_entry payload ''session_id'')) (\<lambda>session_id.
     wbind (wraise (required_entry payload ''run_id'')) (\<lambda>run_id.
     wbind (read_hist (already_recorded entry_id session_id run_id)) (\<lambda>found.
       if found then wret ()
       else wbind (wraise (event_texts payload)) (\<lambda>texts.
            wbind (on_db (next_trace_sequence (''trace_'' @ snd (snd texts)))) (\<lambda>seq.
            wbind (wraise (required_entry payload ''attempt_id'')) (\<lambda>attempt_id.
            wbind (on_hist (append_event (rx_env X)
                (side_effect_event X entry_id payload e session_id run_id texts seq attempt_id))) (\<lambda>_.
              wret ()))))))))))"

text \<open>The run of a terminal entry gets the status of its job, unless it already has it.\<close>

definition sync_run :: "reconcile_env \<Rightarrow> run_status \<Rightarrow> run \<Rightarrow> run wop" where
  "sync_run X target u =
     (if u_status u = target then wret u
      else on_hist (update_run (rx_env X) (rx_utc X) (u_id u) (no_run_patch\<lparr>
        rp_status := Some (run_status_value target),
        rp_finished_at := Some (if given_text (u_finished_at u) then u_finished_at u else Some (rx_utc X)),
        rp_error := Some (if target = RunFailed then u_error u else None)\<rparr>)))"

definition sync_attempt :: "reconcile_env \<Rightarrow> job \<Rightarrow> attempt option \<Rightarrow> string option \<Rightarrow> unit wop" where
  "sync_attempt X job attempt err = (case attempt of
     None \<Rightarrow> wret ()
   | Some a \<Rightarrow> if terminal_attempt (a_status a) then wret ()
       else wbind (wraise (job_to_attempt (j_status job))) (\<lambda>target.
            wbind (on_db (transition_attempt (rx_env X) (rx_now X) (a_id a) target None None err)) (\<lambda>_. wret ())))"

definition payload_run_id :: "json \<Rightarrow> attempt option \<Rightarrow> string" where
  "payload_run_id payload attempt = entry_or payload ''run_id'' (case attempt of None \<Rightarrow> [] | Some a \<Rightarrow> a_run_id a)"

definition sync_terminal_job :: "reconcile_env \<Rightarrow> string \<Rightarrow> job \<Rightarrow> attempt option \<Rightarrow> string \<Rightarrow> unit wop" where
  "sync_terminal_job X entry_id job attempt run_id =
     wbind (read_hist (get_run run_id)) (\<lambda>u0.
     wbind (wraise (job_to_run (j_status job))) (\<lambda>target.
     wbind (sync_run X target u0) (\<lambda>u.
     wbind (sync_attempt X job attempt (u_error u)) (\<lambda>_.
       append_recovery_event X entry_id (j_id job) attempt (u_session_id u) (u_id u)))))"

definition apply_job_terminal :: "reconcile_env \<Rightarrow> string \<Rightarrow> json \<Rightarrow> unit wop" where
  "apply_job_terminal X entry_id payload =
     wbind (wraise (required_entry payload ''job_id'')) (\<lambda>job_id.
     wbind (read_db (get_job job_id)) (\<lambda>job.
     wbind (wraise (guard (terminal_job (j_status job)) (ValueError (''job '' @ job_id @ '' is not terminal'')))) (\<lambda>_.
     wbind (read_db (attempt_for_payload job_id (jget payload ''attempt_id''))) (\<lambda>attempt.
       if payload_run_id payload attempt = [] then wret ()
       else sync_terminal_job X entry_id job attempt (payload_run_id payload attempt)))))"

definition apply_outbox_entry :: "reconcile_env \<Rightarrow> string \<Rightarrow> string \<Rightarrow> json \<Rightarrow> unit wop" where
  "apply_outbox_entry X entry_id event_type payload =
     (if event_type = ''side_effect_event'' then append_side_effect_event X entry_id payload
      else if event_type = ''job_terminal'' then apply_job_terminal X entry_id payload
      else wraise (Inl (ValueError (''unsupported runtime outbox event: '' @ event_type))))"

text \<open>A failing entry is recorded and stays pending.\<close>

definition drain_entry :: "reconcile_env \<Rightarrow> outbox_entry \<Rightarrow> report \<Rightarrow> report wop" where
  "drain_entry X entry rep w =
     (case apply_outbox_entry X (o_id entry) (o_event_type entry) (o_payload entry) w of
        (Inl e, w') \<Rightarrow> wbind (on_db (record_outbox_failure (rx_env X) (o_id entry) (rx_show X e)))
            (\<lambda>_. wret (rep\<lparr>rt_outbox_failed := Suc (rt_outbox_failed rep)\<rparr>)) w'
      | (Inr _, w') \<Rightarrow> wbind (on_db (mark_outbox_processed (rx_now X) (o_id entry)))
            (\<lambda>_. wret (rep\<lparr>rt_outbox_processed := Suc (rt_outbox_processed rep)\<rparr>)) w')"

fun drain_outbox :: "reconcile_env \<Rightarrow> outbox_entry list \<Rightarrow> report \<Rightarrow> report wop" where
  "drain_outbox X [] rep = wret rep"
| "drain_outbox X (e # es) rep = wbind (drain_entry X e rep) (drain_outbox X es)"

definition reconcile :: "reconcile_env \<Rightarrow> report wop" where
  "reconcile X w = wbind (scan_attempts X (list_attempts None (rw_db w)) empty_report)
     (\<lambda>rep w'. drain_outbox X (pending_outbox 1000 (rw_db w')) rep w') w"

section \<open>Sequencing over the two stores\<close>

lemma wbind_Inr_iff: "wbind m k w = (Inr b, w') \<longleftrightarrow> (\<exists>a v. m w = (Inr a, v) \<and> k a v = (Inr b, w'))"
  by (cases "m w") (auto simp: wbind_def split: sum.splits)

lemma wbind_simps [simp]:
  "m w = (Inl e, v) \<Longrightarrow> wbind m k w = (Inl e, v)"
  "m w = (Inr a, v) \<Longrightarrow> wbind m k w = k a v"
  by (simp_all add: wbind_def)

lemma wret_Inr_iff [simp]: "wret a w = (Inr b, w') \<longleftrightarrow> b = a \<and> w' = w"
  by (auto simp: wret_def)

lemma wraise_Inr_iff [simp]: "wraise r w = (Inr b, w') \<longleftrightarrow> r = Inr b \<and> w' = w"
  by (auto simp: wraise_def)

lemma read_db_Inr_iff [simp]: "read_db f w = (Inr b, w') \<longleftrightarrow> f (rw_db w) = Inr b \<and> w' = w"
  and read_hist_Inr_iff [simp]: "read_hist g w = (Inr b, w') \<longleftrightarrow> g (rw_hist w) = Inr b \<and> w' = w"
  by (auto simp: read_db_def read_hist_def)

lemma on_db_iff: "on_db f w = (r, w') \<longleftrightarrow> f (rw_db w) = (r, rw_db w') \<and> w' = w\<lparr>rw_db := rw_db w'\<rparr>"
  by (cases "f (rw_db w)"; cases w; cases w') (auto simp: on_db_def)

lemma on_hist_iff: "on_hist f w = (r, w') \<longleftrightarrow> f (rw_hist w) = (r, rw_hist w') \<and> w' = w\<lparr>rw_hist := rw_hist w'\<rparr>"
  by (cases "f (rw_hist w)"; cases w; cases w') (auto simp: on_hist_def)

lemma on_db_keeps: "on_db f w = (r, w') \<Longrightarrow> rw_hist w' = rw_hist w"
  and on_hist_keeps: "on_hist g w = (r', w') \<Longrightarrow> rw_db w' = rw_db w"
  by (auto simp: on_db_def on_hist_def)

text \<open>A relation that every step of a computation keeps, whether it raises or not.\<close>

definition steady :: "(world \<Rightarrow> world \<Rightarrow> bool) \<Rightarrow> 'a wop \<Rightarrow> bool" where
  "steady R m \<longleftrightarrow> (\<forall>w. R w (snd (m w)))"

lemma steady_bind:
  assumes "transp R" "steady R m" "\<And>a. steady R (k a)"
  shows "steady R (wbind m k)"
  unfolding steady_def wbind_def
proof
  fix w
  have "R w (snd (m w))" using assms(2) by (simp add: steady_def)
  moreover have "R (snd (m w)) (snd (k a (snd (m w))))" for a using assms(3) by (simp add: steady_def)
  ultimately show "R w (snd (case fst (m w) of Inl e \<Rightarrow> (Inl e, snd (m w)) | Inr a \<Rightarrow> k a (snd (m w))))"
    using transpD [OF assms(1)] by (auto split: sum.split)
qed

lemma steady_reads: "reflp R \<Longrightarrow> steady R (wret a) \<and> steady R (wraise r) \<and> steady R (read_db f) \<and> steady R (read_hist g)"
  by (simp add: steady_def wret_def wraise_def read_db_def read_hist_def reflpD)

section \<open>What applying an entry leaves alone\<close>

definition applies :: "world \<Rightarrow> world \<Rightarrow> bool" where
  "applies w w' \<longleftrightarrow> jobs (rw_db w') = jobs (rw_db w) \<and> effects (rw_db w') = effects (rw_db w)
     \<and> outbox (rw_db w') = outbox (rw_db w) \<and> legal (rw_db w) (rw_db w')
     \<and> (history_ok (rw_hist w) \<longrightarrow> history_ok (rw_hist w'))"

lemma applies_refl: "reflp applies" and applies_trans: "transp applies"
  by (auto simp: applies_def reflp_def transp_def intro: legal_trans)

lemmas applies_steady = steady_bind [OF applies_trans] steady_reads [OF applies_refl, THEN conjunct1]
  steady_reads [OF applies_refl, THEN conjunct2, THEN conjunct1]
  steady_reads [OF applies_refl, THEN conjunct2, THEN conjunct2, THEN conjunct1]
  steady_reads [OF applies_refl, THEN conjunct2, THEN conjunct2, THEN conjunct2]

lemma transition_attempt_frame:
  "jobs (snd (transition_attempt E now i t ex p err s)) = jobs s"
  "effects (snd (transition_attempt E now i t ex p err s)) = effects s"
  "outbox (snd (transition_attempt E now i t ex p err s)) = outbox s"
  by (auto simp: transition_attempt_def transition_attempt_tx_def transaction_def and_then_def update_attempts_def Let_def
      split: sum.splits)

lemma next_trace_sequence_frame:
  "jobs (snd (next_trace_sequence t s)) = jobs s" "effects (snd (next_trace_sequence t s)) = effects s"
  "outbox (snd (next_trace_sequence t s)) = outbox s" "attempts (snd (next_trace_sequence t s)) = attempts s"
  by (auto simp: next_trace_sequence_def transaction_def and_then_def Let_def split: sum.splits)

lemma steady_transition: "steady applies (on_db (transition_attempt E now i t ex p err))"
  by (simp add: steady_def applies_def on_db_def transition_attempt_frame transition_attempt.op_legal)

lemma steady_sequence: "steady applies (on_db (next_trace_sequence t))"
  by (simp add: steady_def applies_def on_db_def next_trace_sequence_frame next_trace_sequence.op_legal)

lemma steady_update: "steady applies (on_hist (update_run E now i p))"
  by (simp add: steady_def applies_def on_hist_def session_history.patch_keeps_ok)

lemma steady_append: "steady applies (on_hist (append_event E e))"
  by (simp add: steady_def applies_def on_hist_def session_history.add_keeps_ok)

lemmas entry_steady = applies_steady steady_transition steady_sequence steady_update steady_append

lemma steady_if: "(b \<Longrightarrow> steady R m) \<Longrightarrow> (\<not> b \<Longrightarrow> steady R n) \<Longrightarrow> steady R (if b then m else n)"
  by simp

lemma steady_append_recovery: "steady applies (append_recovery_event X i j a s u)"
  unfolding append_recovery_event_def by (intro entry_steady steady_if)

lemma steady_append_side_effect: "steady applies (append_side_effect_event X i p)"
  unfolding append_side_effect_event_def by (intro entry_steady steady_if)

lemma steady_sync_attempt: "steady applies (sync_attempt X j a err)"
  unfolding sync_attempt_def by (cases a) (simp_all add: entry_steady steady_if)

lemma steady_apply_terminal: "steady applies (apply_job_terminal X i p)"
  unfolding apply_job_terminal_def sync_terminal_job_def sync_run_def
  by (intro entry_steady steady_if steady_sync_attempt steady_append_recovery)

lemma apply_outbox_entry_applies: "applies w (snd (apply_outbox_entry X i t p w))"
proof -
  have "steady applies (apply_outbox_entry X i t p)"
    unfolding apply_outbox_entry_def
    by (intro entry_steady steady_if steady_append_side_effect steady_apply_terminal)
  then show ?thesis by (simp add: steady_def)
qed

section \<open>Applying an entry twice\<close>

lemma order_by_map: "(\<And>x. k (g x) = k x) \<Longrightarrow> order_by k (map g xs) = map g (order_by k xs)"
proof -
  assume k: "\<And>x. k (g x) = k x"
  have ins: "insort_key k (g x) (map g ys) = map g (insort_key k x ys)" for x ys
    by (induction ys) (simp_all add: k)
  show ?thesis unfolding order_by_def
  proof (induction xs)
    case (Cons x xs)
    then show ?case by (simp add: ins)
  qed simp
qed

text \<open>Settling an attempt that was live edits exactly its row.\<close>

lemma transition_attempt_settles:
  assumes run: "transition_attempt E now (a_id a) target None pid err s = (Inr x, s')"
    and a: "a \<in> set (attempts s)" "\<not> terminal_attempt (a_status a)" "terminal_attempt target"
    and ok: "db_ok s"
  obtains a' where "attempts s' = map (\<lambda>b. if b = a then a' else b) (attempts s)" "a_id a' = a_id a"
    "a_run_id a' = a_run_id a" "a_job_id a' = a_job_id a" "a_created_at a' = a_created_at a"
    "a_number a' = a_number a" "terminal_attempt (a_status a')"
proof -
  have dist: "distinct (map a_id (attempts s))" using db_ok_attempts [OF ok] by simp
  have cur: "attempt_by (a_id a) s = Some a" by (rule row_by_distinct [OF dist a(1)])
  have "a_status a \<noteq> target" using a(2,3) by auto
  let ?P = "\<lambda>b. a_id b = a_id a \<and> a_version b = a_version a"
  from run cur \<open>a_status a \<noteq> target\<close> obtain st where
    s': "s' = update_attempts ?P (attempt_edit_status E now target st pid err (a_version a + 1)) s"
    by (auto simp: transition_attempt_def transaction_Inr_iff transition_attempt_tx_def and_then_Inr_iff Let_def)
  have "?P b \<longleftrightarrow> b = a" if "b \<in> set (attempts s)" for b
    using that a(1) dist by (auto dest: inj_onD simp: distinct_map)
  then have "attempts s' = map (\<lambda>b. if b = a then attempt_edit_status E now target st pid err (a_version a + 1) a else b) (attempts s)"
    unfolding s' update_attempts_def upd_where_def by (auto intro!: map_cong)
  then show thesis
    by (rule that) (use a(3) in \<open>simp_all add: attempt_edit_status_def\<close>)
qed

lemma find_edited:
  "(\<And>b. a_id (g b) = a_id b) \<Longrightarrow> row_by a_id i (map g as) = map_option g (row_by a_id i as)"
  by (induction as) auto

lemma last_attempt: "(case as of [] \<Rightarrow> None | x # xs \<Rightarrow> Some (last (x # xs))) = (if as = [] then None else Some (last as))"
  by (cases as) simp_all

text \<open>The attempt of a payload, before and after it was settled.\<close>

lemma attempt_for_payload_member:
  "attempt_for_payload j v s = Inr (Some a) \<Longrightarrow> a \<in> set (attempts s)"
proof -
  assume "attempt_for_payload j v s = Inr (Some a)"
  then have "(\<exists>i. row_by a_id i (attempts s) = Some a)
      \<or> (list_attempts (Some j) s \<noteq> [] \<and> last (list_attempts (Some j) s) = a)"
    by (auto simp: attempt_for_payload_def get_attempt_def and_then_Inr_iff split: if_splits list.splits option.splits)
  moreover have "set (list_attempts (Some j) s) \<subseteq> set (attempts s)" by (auto simp: list_attempts_def)
  ultimately show ?thesis using last_in_set by (blast dest: row_by_Some)
qed

lemma attempt_for_payload_edit:
  assumes found: "attempt_for_payload j v s = Inr r"
    and edit: "attempts s' = map g (attempts s)" "\<And>b. a_id (g b) = a_id b" "\<And>b. a_job_id (g b) = a_job_id b"
      "\<And>b. a_created_at (g b) = a_created_at b" "\<And>b. a_number (g b) = a_number b"
  shows "attempt_for_payload j v s' = Inr (map_option g r)"
proof -
  have keep: "list_attempts (Some j) s' = map g (list_attempts (Some j) s)"
    unfolding list_attempts_def edit(1) by (simp add: filter_map order_by_map edit(2-5) comp_def)
  have ids: "attempt_by i s' = map_option g (attempt_by i s)" for i
    unfolding edit(1) by (rule find_edited [OF edit(2)])
  show ?thesis
  proof (cases "case v of None \<Rightarrow> False | Some v \<Rightarrow> truthy v")
    case True
    then show ?thesis using found
      by (auto simp: attempt_for_payload_def get_attempt_def ids and_then_Inr_iff)
  next
    case False
    then show ?thesis using found
      by (auto simp: attempt_for_payload_def keep last_attempt last_map)
  qed
qed

lemma attempt_for_payload_same: "attempts s' = attempts s \<Longrightarrow> attempt_for_payload j v s' = attempt_for_payload j v s"
  by (simp add: attempt_for_payload_def get_attempt_def list_attempts_def)

lemma recorded_event:
  assumes add: "append_event E e hs = (Inr x, hs')" and no: "already_recorded i s k hs = Inr b"
    and e: "ev_id e = event_id_of i" "ev_session_id e = s" "ev_run_id e = k"
  shows "already_recorded i s k hs' = Inr True"
proof -
  from no obtain es where "events_of_run s k hs = Inr es" by (auto simp: already_recorded_def and_then_Inr_iff)
  then have "\<exists>es'. events_of_run s k hs' = Inr es' \<and> ev_id e \<in> ev_id ` set es'"
    using session_history.add_present [OF add] e by simp
  with e show ?thesis by (auto simp: already_recorded_def)
qed

text \<open>After a successful append the event is there, and nothing but the history and a trace changed.\<close>

definition recorded :: "string \<Rightarrow> string \<Rightarrow> string \<Rightarrow> world \<Rightarrow> world \<Rightarrow> bool" where
  "recorded i s k w w' \<longleftrightarrow> already_recorded i s k (rw_hist w') = Inr True
     \<and> attempts (rw_db w') = attempts (rw_db w) \<and> (\<forall>j. get_run j (rw_hist w') = get_run j (rw_hist w))"

lemma recorded_now: "already_recorded i s k (rw_hist w) = Inr True \<Longrightarrow> recorded i s k w w"
  by (simp add: recorded_def)

lemma recorded_append:
  assumes seq: "on_db (next_trace_sequence t) w = (Inr n, v)" and add: "on_hist (append_event E e) v = (Inr x, w')"
    and no: "already_recorded i s k (rw_hist w) = Inr b"
    and e: "ev_id e = event_id_of i" "ev_session_id e = s" "ev_run_id e = k"
  shows "recorded i s k w w'"
proof -
  have v: "rw_hist v = rw_hist w" "attempts (rw_db v) = attempts (rw_db w)"
    using seq next_trace_sequence_frame(4) [of t "rw_db w"] by (auto simp: on_db_def)
  have w': "rw_db w' = rw_db v" "append_event E e (rw_hist v) = (Inr x, rw_hist w')"
    using add on_hist_keeps [OF add] by (simp_all add: on_hist_iff)
  show ?thesis unfolding recorded_def
    using recorded_event [OF w'(2) no [folded v(1)] e] session_history.add_keeps_runs [OF w'(2)] v w'(1) by simp
qed

lemma append_recovery_event_records:
  assumes "append_recovery_event X i j att s k w = (Inr (), w')"
  shows "recorded i s k w w'"
proof -
  from assms obtain found where found: "already_recorded i s k (rw_hist w) = Inr found"
    and rest: "(if found then wret () else wbind (on_db (next_trace_sequence (''trace_'' @ j))) (\<lambda>seq.
            wbind (on_hist (append_event (rx_env X) (recovery_event X i j att s k seq))) (\<lambda>_. wret ()))) w = (Inr (), w')"
    unfolding append_recovery_event_def wbind_Inr_iff by auto
  show ?thesis
  proof (cases found)
    case True
    with rest found show ?thesis using recorded_now by auto
  next
    case False
    with rest obtain n v x where "on_db (next_trace_sequence (''trace_'' @ j)) w = (Inr n, v)"
      "on_hist (append_event (rx_env X) (recovery_event X i j att s k n)) v = (Inr x, w')"
      by (auto simp: wbind_Inr_iff)
    then show ?thesis by (rule recorded_append [OF _ _ found]) (simp_all add: recovery_event_def)
  qed
qed

lemma append_recovery_event_again:
  "already_recorded i s k (rw_hist w) = Inr True \<Longrightarrow> append_recovery_event X i j att s k w = (Inr (), w)"
  by (simp add: append_recovery_event_def wbind_Inr_iff)

lemma required_twice: "required_entry p k = Inr x \<Longrightarrow> required_entry p k = Inr y \<Longrightarrow> x = y"
  by simp

lemma side_effect_event_again:
  assumes "append_side_effect_event X i p w = (Inr (), w')"
  shows "append_side_effect_event Y i p w' = (Inr (), w')"
proof -
  from assms obtain ei e s k found where
    first: "required_entry p ''side_effect_id'' = Inr ei" "get_side_effect ei (rw_db w) = Inr e"
      "e_status e = EffectCompleted" "required_entry p ''session_id'' = Inr s" "required_entry p ''run_id'' = Inr k"
    and found: "already_recorded i s k (rw_hist w) = Inr found"
    and rest: "(if found then wret () else wbind (wraise (event_texts p)) (\<lambda>texts.
            wbind (on_db (next_trace_sequence (''trace_'' @ snd (snd texts)))) (\<lambda>seq.
            wbind (wraise (required_entry p ''attempt_id'')) (\<lambda>attempt_id.
            wbind (on_hist (append_event (rx_env X) (side_effect_event X i p e s k texts seq attempt_id))) (\<lambda>_.
              wret ()))))) w = (Inr (), w')"
    unfolding append_side_effect_event_def wbind_Inr_iff by auto
  have written: "recorded i s k w w'"
  proof (cases found)
    case True
    with rest found show ?thesis using recorded_now by auto
  next
    case False
    with rest obtain tx n v a x where "on_db (next_trace_sequence (''trace_'' @ snd (snd tx))) w = (Inr n, v)"
      "on_hist (append_event (rx_env X) (side_effect_event X i p e s k tx n a)) v = (Inr x, w')"
      by (auto simp: wbind_Inr_iff)
    then show ?thesis by (rule recorded_append [OF _ _ found]) (simp_all add: side_effect_event_def)
  qed
  have "applies w (snd (append_side_effect_event X i p w))"
    using steady_append_side_effect [of X i p] unfolding steady_def by blast
  then have "get_side_effect ei (rw_db w') = Inr e"
    using first(2) assms by (simp add: applies_def get_side_effect_def)
  then show ?thesis unfolding append_side_effect_event_def wbind_Inr_iff
    using first written by (auto simp: recorded_def)
qed

text \<open>The run gets the status of the job and keeps its identity; a second time nothing is left to do.\<close>

lemma sync_run_done:
  assumes "sync_run X target u w = (Inr u', w')" "get_run k (rw_hist w) = Inr u" "history_ok (rw_hist w)"
  shows "u_status u' = target \<and> get_run k (rw_hist w') = Inr u' \<and> rw_db w' = rw_db w"
proof (cases "u_status u = target")
  case True
  with assms show ?thesis by (auto simp: sync_run_def)
next
  case False
  have k: "u_id u = k" using assms(2) find_run_Inr by (fastforce simp: get_run_def and_then_Inr_iff)
  from False assms(1) obtain p where up: "on_hist (update_run (rx_env X) (rx_utc X) k p) w = (Inr u', w')"
    and p: "rp_status p = Some (run_status_value target)"
    unfolding sync_run_def k by simp
  then have h: "update_run (rx_env X) (rx_utc X) k p (rw_hist w) = (Inr u', rw_hist w')" "rw_db w' = rw_db w"
    using on_hist_keeps [OF up] by (simp_all add: on_hist_iff)
  from h(1) obtain v where "patch_run (rx_env X) (rx_utc X) v p = Inr u'"
    by (cases rule: update_run_cases) auto
  then have "u_status u' = target" using p by (auto simp: patch_run_def and_then_Inr_iff parse_run_status_value)
  with session_history.get_after_patch [OF assms(3) h(1)] h(2) show ?thesis by simp
qed

lemma job_to_attempt_terminal: "job_to_attempt st = Inr t \<Longrightarrow> terminal_attempt t"
  by (cases st) (auto simp: terminal_attempt_def)

lemma sync_attempt_done:
  assumes run: "sync_attempt X job att err w = (Inr (), w')"
    and found: "attempt_for_payload j v (rw_db w) = Inr att" and ok: "db_ok (rw_db w)"
  obtains att' where "attempt_for_payload j v (rw_db w') = Inr att'" "map_option a_run_id att' = map_option a_run_id att"
    "\<forall>X err w. sync_attempt X job att' err w = (Inr (), w)" "rw_hist w' = rw_hist w"
proof (cases "\<exists>a. att = Some a \<and> \<not> terminal_attempt (a_status a)")
  case False
  then have idle: "sync_attempt X job att err w = (Inr (), w)" for X err w
    by (cases att) (auto simp: sync_attempt_def)
  with run have "w' = w" by simp
  with found idle show thesis by (intro that [of att]) auto
next
  case True
  then obtain a where a: "att = Some a" "\<not> terminal_attempt (a_status a)" by blast
  with run obtain t x where t: "job_to_attempt (j_status job) = Inr t"
    and tr: "on_db (transition_attempt (rx_env X) (rx_now X) (a_id a) t None None err) w = (Inr x, w')"
    by (auto simp: sync_attempt_def wbind_Inr_iff)
  have mem: "a \<in> set (attempts (rw_db w))" using attempt_for_payload_member found a(1) by blast
  from tr have "transition_attempt (rx_env X) (rx_now X) (a_id a) t None None err (rw_db w) = (Inr x, rw_db w')"
    by (simp add: on_db_iff)
  from transition_attempt_settles [OF this mem a(2) job_to_attempt_terminal [OF t] ok]
  obtain a' where a': "attempts (rw_db w') = map (\<lambda>b. if b = a then a' else b) (attempts (rw_db w))" "a_id a' = a_id a"
    "a_run_id a' = a_run_id a" "a_job_id a' = a_job_id a" "a_created_at a' = a_created_at a"
    "a_number a' = a_number a" "terminal_attempt (a_status a')" .
  have "attempt_for_payload j v (rw_db w') = Inr (map_option (\<lambda>b. if b = a then a' else b) att)"
    by (rule attempt_for_payload_edit [OF found a'(1)]) (use a' in auto)
  then show thesis
    by (rule that) (use a a' on_db_keeps [OF tr] in \<open>auto simp: sync_attempt_def\<close>)
qed

lemma payload_run_id_cong:
  "map_option a_run_id att' = map_option a_run_id att \<Longrightarrow> payload_run_id p att' = payload_run_id p att"
  by (cases att; cases att') (simp_all add: payload_run_id_def)

lemma sync_terminal_job_again:
  assumes run: "sync_terminal_job X i job att k w = (Inr (), w')"
    and found: "attempt_for_payload j v (rw_db w) = Inr att" and ok: "db_ok (rw_db w)" "history_ok (rw_hist w)"
  obtains att' where "attempt_for_payload j v (rw_db w') = Inr att'" "map_option a_run_id att' = map_option a_run_id att"
    "\<forall>X. sync_terminal_job X i job att' k w' = (Inr (), w')"
proof -
  from run obtain u0 target u w1 w2 where get: "get_run k (rw_hist w) = Inr u0" and target: "job_to_run (j_status job) = Inr target"
    and sr: "sync_run X target u0 w = (Inr u, w1)" and sa: "sync_attempt X job att (u_error u) w1 = (Inr (), w2)"
    and ar: "append_recovery_event X i (j_id job) att (u_session_id u) (u_id u) w2 = (Inr (), w')"
    unfolding sync_terminal_job_def wbind_Inr_iff by auto
  have u: "u_status u = target" "get_run k (rw_hist w1) = Inr u" "rw_db w1 = rw_db w"
    using sync_run_done [OF sr get ok(2)] by simp_all
  obtain att' where att': "attempt_for_payload j v (rw_db w2) = Inr att'" "map_option a_run_id att' = map_option a_run_id att"
    "\<forall>X err w. sync_attempt X job att' err w = (Inr (), w)" "rw_hist w2 = rw_hist w1"
    by (rule sync_attempt_done [OF sa found [folded u(3)] ok(1) [folded u(3)]])
  have rec: "recorded i (u_session_id u) (u_id u) w2 w'" by (rule append_recovery_event_records [OF ar])
  then have after: "attempt_for_payload j v (rw_db w') = Inr att'" "get_run k (rw_hist w') = Inr u"
    and written: "already_recorded i (u_session_id u) (u_id u) (rw_hist w') = Inr True"
    using att'(1,4) u(2) attempt_for_payload_same [of "rw_db w'" "rw_db w2" j v] by (simp_all add: recorded_def)
  have "sync_terminal_job Y i job att' k w' = (Inr (), w')" for Y
  proof -
    have "sync_run Y target u w' = (Inr u, w')" using u(1) by (simp add: sync_run_def)
    moreover have "append_recovery_event Y i (j_id job) att' (u_session_id u) (u_id u) w' = (Inr (), w')"
      by (rule append_recovery_event_again [OF written])
    ultimately show ?thesis unfolding sync_terminal_job_def wbind_Inr_iff
      using after(2) target att'(3) by auto
  qed
  with after(1) att'(2) show thesis by (intro that [of att']) auto
qed

lemma apply_job_terminal_again:
  assumes run: "apply_job_terminal X i p w = (Inr (), w')" and ok: "db_ok (rw_db w)" "history_ok (rw_hist w)"
  shows "apply_job_terminal Y i p w' = (Inr (), w')"
proof -
  from run obtain j job att where first: "required_entry p ''job_id'' = Inr j" "get_job j (rw_db w) = Inr job"
      "terminal_job (j_status job)"
    and found: "attempt_for_payload j (jget p ''attempt_id'') (rw_db w) = Inr att"
    and rest: "(if payload_run_id p att = [] then wret () else sync_terminal_job X i job att (payload_run_id p att)) w = (Inr (), w')"
    unfolding apply_job_terminal_def wbind_Inr_iff by auto
  show ?thesis
  proof (cases "payload_run_id p att = []")
    case True
    with rest have "w' = w" by simp
    with first found True show ?thesis unfolding apply_job_terminal_def wbind_Inr_iff by auto
  next
    case False
    with rest have "sync_terminal_job X i job att (payload_run_id p att) w = (Inr (), w')" by simp
    from sync_terminal_job_again [OF this found ok]
    obtain att' where att': "attempt_for_payload j (jget p ''attempt_id'') (rw_db w') = Inr att'"
      "map_option a_run_id att' = map_option a_run_id att"
      "\<forall>Y. sync_terminal_job Y i job att' (payload_run_id p att) w' = (Inr (), w')" .
    have "applies w (snd (apply_job_terminal X i p w))"
      using steady_apply_terminal [of X i p] unfolding steady_def by blast
    then have "get_job j (rw_db w') = Inr job" using first(2) run by (simp add: applies_def get_job_def)
    with first False att' payload_run_id_cong [OF att'(2)] show ?thesis
      unfolding apply_job_terminal_def wbind_Inr_iff by auto
  qed
qed

text \<open>
  C7. Applying an outbox entry is idempotent. After an entry has been applied, applying it again,
  as a pass does that was interrupted before it could mark the entry, succeeds and changes
  neither the coordination database nor the run history: the run already has the status of its
  job, its attempt is settled, and the event is not recorded a second time.
\<close>

theorem apply_outbox_entry_idempotent:
  assumes "apply_outbox_entry X i t p w = (Inr (), w')" and "db_ok (rw_db w)" "history_ok (rw_hist w)"
  shows "apply_outbox_entry Y i t p w' = (Inr (), w')"
  using assms side_effect_event_again [of X i p w w' Y] apply_job_terminal_again [of X i p w w' Y]
  by (simp add: apply_outbox_entry_def split: if_splits)

section \<open>Draining the outbox\<close>

text \<open>An entry after it was handled: processed, or kept pending with the error of this try.\<close>

definition drained :: "reconcile_env \<Rightarrow> error option \<Rightarrow> outbox_entry \<Rightarrow> outbox_entry" where
  "drained X outcome e = (case outcome of
     None \<Rightarrow> e\<lparr>o_processed_at := Some (rx_now X), o_attempt_count := o_attempt_count e + 1, o_last_error := None\<rparr>
   | Some err \<Rightarrow> e\<lparr>o_attempt_count := o_attempt_count e + 1,
       o_last_error := safe_optional_text (rx_env X) (Some (rx_show X err))\<rparr>)"

definition tally :: "error option \<Rightarrow> report \<Rightarrow> report" where
  "tally outcome rep = (case outcome of
     None \<Rightarrow> rep\<lparr>rt_outbox_processed := Suc (rt_outbox_processed rep)\<rparr>
   | Some _ \<Rightarrow> rep\<lparr>rt_outbox_failed := Suc (rt_outbox_failed rep)\<rparr>)"

lemma upd_where_row:
  "distinct (map key rows) \<Longrightarrow> x \<in> set rows \<Longrightarrow> P x \<Longrightarrow>
   upd_where (\<lambda>r. key r = key x \<and> P r) f rows = map (\<lambda>r. if r = x then f x else r) rows"
  unfolding upd_where_def by (rule map_cong) (auto dest: inj_onD simp: distinct_map)

text \<open>
  What applying an entry of a pass gave, in the world the pass reaches when the entry's turn comes:
  none when it succeeded, or the error it raised.
\<close>

definition drain_outcome :: "reconcile_env \<Rightarrow> outbox_entry list \<Rightarrow> report \<Rightarrow> world \<Rightarrow> outbox_entry \<Rightarrow> error option" where
  "drain_outcome X es rep w e =
     (let reached = snd (drain_outbox X (takeWhile (\<lambda>x. x \<noteq> e) es) rep w) in
      case fst (apply_outbox_entry X (o_id e) (o_event_type e) (o_payload e) reached) of
        Inl err \<Rightarrow> Some err | Inr _ \<Rightarrow> None)"

lemma drain_outcome_first:
  "drain_outcome X (e # es) rep w e =
    (case fst (apply_outbox_entry X (o_id e) (o_event_type e) (o_payload e) w) of Inl err \<Rightarrow> Some err | Inr _ \<Rightarrow> None)"
  by (simp add: drain_outcome_def wret_def)

lemma drain_outcome_later:
  "x \<noteq> e \<Longrightarrow> drain_entry X e rep w = (Inr rep1, w1) \<Longrightarrow>
    drain_outcome X (e # es) rep w x = drain_outcome X es rep1 w1 x"
  by (simp add: drain_outcome_def)

lemma drain_entry_step:
  assumes ok: "db_ok (rw_db w)" and e: "e \<in> set (outbox (rw_db w))" "o_processed_at e = None"
    and outcome: "outcome = (case fst (apply_outbox_entry X (o_id e) (o_event_type e) (o_payload e) w) of
      Inl err \<Rightarrow> Some err | Inr _ \<Rightarrow> None)"
  obtains w' where "drain_entry X e rep w = (Inr (tally outcome rep), w')"
    "outbox (rw_db w') = map (\<lambda>x. if x = e then drained X outcome e else x) (outbox (rw_db w))"
    "db_ok (rw_db w')" "history_ok (rw_hist w) \<longrightarrow> history_ok (rw_hist w')"
proof -
  obtain r v where run: "apply_outbox_entry X (o_id e) (o_event_type e) (o_payload e) w = (r, v)" by fastforce
  then have v: "outbox (rw_db v) = outbox (rw_db w)" "db_ok (rw_db v)" "history_ok (rw_hist w) \<longrightarrow> history_ok (rw_hist v)"
    using apply_outbox_entry_applies [of w X "o_id e" "o_event_type e" "o_payload e"] ok
    by (auto simp: applies_def legal_def)
  have dist: "distinct (map o_id (outbox (rw_db w)))" using ok by (simp add: db_ok_def outbox_ok_def)
  note row = upd_where_row [where P = "\<lambda>e. o_processed_at e = None", OF dist e]
  show thesis
  proof (cases r)
    case (Inl err)
    let ?s = "(rw_db v)\<lparr>outbox := map (\<lambda>x. if x = e then drained X (Some err) e else x) (outbox (rw_db w))\<rparr>"
    have rec: "record_outbox_failure (rx_env X) (o_id e) (rx_show X err) (rw_db v) = (Inr (), ?s)"
      by (simp add: record_outbox_failure_def v(1) row drained_def)
    then have "drain_entry X e rep w = (Inr (tally (Some err) rep), v\<lparr>rw_db := ?s\<rparr>)"
      by (simp add: drain_entry_def run Inl wbind_def on_db_def wret_def tally_def)
    moreover have "db_ok ?s" using record_outbox_failure.op_keeps_ok [OF v(2), of "rx_env X" "o_id e" "rx_show X err"] rec by simp
    ultimately show thesis using v(3) by (intro that [of "v\<lparr>rw_db := ?s\<rparr>"]) (simp_all add: outcome run Inl)
  next
    case (Inr u)
    let ?s = "(rw_db v)\<lparr>outbox := map (\<lambda>x. if x = e then drained X None e else x) (outbox (rw_db w))\<rparr>"
    have mark: "mark_outbox_processed (rx_now X) (o_id e) (rw_db v) = (Inr (), ?s)"
      by (simp add: mark_outbox_processed_def v(1) row drained_def)
    then have "drain_entry X e rep w = (Inr (tally None rep), v\<lparr>rw_db := ?s\<rparr>)"
      by (simp add: drain_entry_def run Inr wbind_def on_db_def wret_def tally_def)
    moreover have "db_ok ?s" using mark_outbox_processed.op_keeps_ok [OF v(2), of "rx_now X" "o_id e"] mark by simp
    ultimately show thesis using v(3) by (intro that [of "v\<lparr>rw_db := ?s\<rparr>"]) (simp_all add: outcome run Inr)
  qed
qed

lemma drain_outbox_steps:
  assumes "db_ok (rw_db w)" "distinct es" "\<forall>e\<in>set es. e \<in> set (outbox (rw_db w)) \<and> o_processed_at e = None"
  shows "\<exists>w'. drain_outbox X es rep w = (Inr (fold (\<lambda>e. tally (drain_outcome X es rep w e)) es rep), w')
    \<and> outbox (rw_db w') = map (\<lambda>x. if x \<in> set es then drained X (drain_outcome X es rep w x) x else x) (outbox (rw_db w))
    \<and> db_ok (rw_db w') \<and> (history_ok (rw_hist w) \<longrightarrow> history_ok (rw_hist w'))"
  using assms
proof (induction es arbitrary: w rep)
  case Nil
  then show ?case by (auto simp: wret_def)
next
  case (Cons e es)
  define out where "out = drain_outcome X (e # es) rep w e"
  have e: "e \<in> set (outbox (rw_db w))" "o_processed_at e = None" using Cons.prems(3) by simp_all
  obtain w1 where one: "drain_entry X e rep w = (Inr (tally out rep), w1)"
    and box: "outbox (rw_db w1) = map (\<lambda>x. if x = e then drained X out e else x) (outbox (rw_db w))"
    and ok: "db_ok (rw_db w1)" "history_ok (rw_hist w) \<longrightarrow> history_ok (rw_hist w1)"
    by (rule drain_entry_step [OF Cons.prems(1) e out_def [unfolded drain_outcome_first], of rep])
  have rest: "\<forall>x\<in>set es. x \<in> set (outbox (rw_db w1)) \<and> o_processed_at x = None"
    using Cons.prems(2,3) by (auto simp: box image_iff)
  have dist: "distinct es" and ne: "e \<notin> set es" using Cons.prems(2) by simp_all
  let ?o = "drain_outcome X es (tally out rep) w1"
  obtain w' where tail: "drain_outbox X es (tally out rep) w1 = (Inr (fold (\<lambda>e. tally (?o e)) es (tally out rep)), w')"
    "outbox (rw_db w') = map (\<lambda>x. if x \<in> set es then drained X (?o x) x else x) (outbox (rw_db w1))"
    "db_ok (rw_db w')" "history_ok (rw_hist w1) \<longrightarrow> history_ok (rw_hist w')"
    using Cons.IH [OF ok(1) dist rest, of "tally out rep"] by (elim exE conjE)
  have later: "drain_outcome X (e # es) rep w x = ?o x" if "x \<in> set es" for x
    using that ne one by (intro drain_outcome_later) auto
  have again: "drained X out e \<notin> set es"
  proof
    assume "drained X out e \<in> set es"
    then have "drained X out e \<in> set (outbox (rw_db w))" using Cons.prems(3) by simp
    moreover have "o_id (drained X out e) = o_id e" by (simp add: drained_def split: option.split)
    ultimately have "drained X out e = e"
      using e(1) Cons.prems(1) by (auto simp: db_ok_def outbox_ok_def distinct_map dest: inj_onD)
    with ne show False using \<open>drained X out e \<in> set es\<close> by simp
  qed
  have "fold (\<lambda>x. tally (drain_outcome X (e # es) rep w x)) es (tally out rep) = fold (\<lambda>e. tally (?o e)) es (tally out rep)"
    by (rule fold_cong) (use later in auto)
  with one tail ok ne again show ?case
    by (intro exI [of _ w']) (auto simp: box comp_def out_def [symmetric] later)
qed

section \<open>Examples\<close>

definition sample_reconcile :: reconcile_env where
  "sample_reconcile = \<lparr>rx_env = sample_env, rx_now = 60, rx_utc = ''60'', rx_uuid = (\<lambda>_. ''u''), rx_show = (\<lambda>_. ''failed'')\<rparr>"

definition sample_runs :: history where
  "sample_runs = empty_history\<lparr>hs_sessions := [(''s'', sample_session)],
     hs_runs := [(''s'', [sample_run\<lparr>u_session_id := ''s''\<rparr>])]\<rparr>"

text \<open>The job is over, its attempt and its run are not yet told.\<close>

definition ended_world :: world where
  "ended_world = \<lparr>rw_db = running_store\<lparr>jobs := [sample_job\<lparr>j_status := JobSucceeded, j_terminal_at := Some 55\<rparr>],
       outbox := [terminal_entry ''t'' 55 ''job_1'' JobSucceeded 2 ''s'' (Some sample_attempt)]\<rparr>,
     rw_hist = sample_runs\<rparr>"

lemma ended_world_ok: "db_ok (rw_db ended_world)" "history_ok (rw_hist ended_world)"
  by code_simp+

lemma fold_tally:
  "fold (\<lambda>e. tally (outcome e)) es rep = rep\<lparr>
     rt_outbox_processed := rt_outbox_processed rep + length (filter (\<lambda>e. outcome e = None) es),
     rt_outbox_failed := rt_outbox_failed rep + length (filter (\<lambda>e. outcome e \<noteq> None) es)\<rparr>"
  by (induction es arbitrary: rep) (auto simp: tally_def split: option.split)

lemma pending_outbox_distinct: "db_ok s \<Longrightarrow> distinct (pending_outbox limit s)"
  by (auto simp: pending_outbox_def order_by_def db_ok_def outbox_ok_def distinct_map intro!: distinct_take)

text \<open>
  C37. Draining the outbox handles every entry and never raises. The pass goes on whatever applying
  an entry raises. An entry that was pending is marked processed if applying it succeeded, in the
  world the earlier entries of the pass led to, and otherwise stays pending with the error this
  raised and one more attempt counted. No other outbox entry changes, the report counts both
  kinds, and both stores stay well-formed.
\<close>

theorem drain_outbox_handles_every_entry:
  assumes "db_ok (rw_db w)" and "history_ok (rw_hist w)" and "es = pending_outbox limit (rw_db w)"
  shows "\<exists>rep' w'. drain_outbox X es rep w = (Inr rep', w')
     \<and> rt_outbox_processed rep' = rt_outbox_processed rep + length (filter (\<lambda>e. drain_outcome X es rep w e = None) es)
     \<and> rt_outbox_failed rep' = rt_outbox_failed rep + length (filter (\<lambda>e. drain_outcome X es rep w e \<noteq> None) es)
     \<and> outbox (rw_db w') = map (\<lambda>e. if e \<notin> set es then e else case drain_outcome X es rep w e of
           None \<Rightarrow> e\<lparr>o_processed_at := Some (rx_now X), o_attempt_count := o_attempt_count e + 1, o_last_error := None\<rparr>
         | Some err \<Rightarrow> e\<lparr>o_attempt_count := o_attempt_count e + 1,
             o_last_error := safe_optional_text (rx_env X) (Some (rx_show X err))\<rparr>) (outbox (rw_db w))
     \<and> db_ok (rw_db w') \<and> history_ok (rw_hist w')"
proof -
  have "distinct es" "\<forall>e\<in>set es. e \<in> set (outbox (rw_db w)) \<and> o_processed_at e = None"
    using pending_outbox_distinct [OF assms(1), of limit] pending_outbox_pending [of _ limit "rw_db w"] by (auto simp: assms(3))
  from drain_outbox_steps [OF assms(1) this, of X rep] obtain w' where
    "drain_outbox X es rep w = (Inr (fold (\<lambda>e. tally (drain_outcome X es rep w e)) es rep), w')"
    "outbox (rw_db w') = map (\<lambda>x. if x \<in> set es then drained X (drain_outcome X es rep w x) x else x) (outbox (rw_db w))"
    "db_ok (rw_db w')" "history_ok (rw_hist w')"
    using assms(2) by blast
  then show ?thesis
    by (intro exI [of _ "fold (\<lambda>e. tally (drain_outcome X es rep w e)) es rep"] exI [of _ w'])
      (simp add: fold_tally drained_def cong: if_cong)
qed

text \<open>Two entries are pending; the job of the first is over, the kind of the second is unknown.\<close>

definition mixed_world :: world where
  "mixed_world = ended_world\<lparr>rw_db := (rw_db ended_world)\<lparr>outbox :=
     [terminal_entry ''t'' 55 ''job_1'' JobSucceeded 2 ''s'' (Some sample_attempt),
      (terminal_entry ''v'' 56 ''job_1'' JobSucceeded 3 ''s'' (Some sample_attempt))\<lparr>o_event_type := ''other''\<rparr>]\<rparr>\<rparr>"

theorem drain_outbox_handles_every_entry_witness:
  "\<exists>rep w. drain_outbox sample_reconcile (pending_outbox 1000 (rw_db mixed_world)) empty_report mixed_world = (Inr rep, w)
     \<and> map o_processed_at (outbox (rw_db w)) = [Some 60, None] \<and> rt_outbox_processed rep = 1 \<and> rt_outbox_failed rep = 1"
proof -
  let ?es = "pending_outbox 1000 (rw_db mixed_world)"
  let ?o = "drain_outcome sample_reconcile ?es empty_report mixed_world"
  have ok: "db_ok (rw_db mixed_world)" "history_ok (rw_hist mixed_world)" by code_simp+
  have es: "?es = outbox (rw_db mixed_world)" by code_simp
  have out: "map (\<lambda>e. ?o e = None) ?es = [True, False]" by code_simp
  from drain_outbox_handles_every_entry [OF ok refl, where X = sample_reconcile and rep = empty_report and limit = 1000]
  obtain rep w where run: "drain_outbox sample_reconcile ?es empty_report mixed_world = (Inr rep, w)"
    and n: "rt_outbox_processed rep = rt_outbox_processed empty_report + length (filter (\<lambda>e. ?o e = None) ?es)"
      "rt_outbox_failed rep = rt_outbox_failed empty_report + length (filter (\<lambda>e. ?o e \<noteq> None) ?es)"
    and box: "outbox (rw_db w) = map (\<lambda>e. if e \<notin> set ?es then e else case ?o e of
           None \<Rightarrow> e\<lparr>o_processed_at := Some (rx_now sample_reconcile), o_attempt_count := o_attempt_count e + 1, o_last_error := None\<rparr>
         | Some err \<Rightarrow> e\<lparr>o_attempt_count := o_attempt_count e + 1,
             o_last_error := safe_optional_text (rx_env sample_reconcile) (Some (rx_show sample_reconcile err))\<rparr>)
         (outbox (rw_db mixed_world))"
    by (elim exE conjE)
  obtain x y where xy: "?es = [x, y]" "?o x = None" "?o y \<noteq> None"
    using out by (auto simp: map_eq_Cons_conv)
  have "map o_processed_at ?es = [None, None]" by code_simp
  then have "map o_processed_at (outbox (rw_db w)) = [Some 60, None]"
    using xy by (auto simp: box es [symmetric] sample_reconcile_def split: option.splits)
  moreover have "rt_outbox_processed rep = 1" "rt_outbox_failed rep = 1"
    using n xy by (auto simp: empty_report_def)
  ultimately show ?thesis using run by (intro exI [of _ rep] exI [of _ w] conjI)
qed

theorem apply_outbox_entry_idempotent_witness:
  "\<exists>w. apply_outbox_entry sample_reconcile ''outbox_t'' ''job_terminal''
        (o_payload (hd (outbox (rw_db ended_world)))) ended_world = (Inr (), w) \<and> w \<noteq> ended_world
     \<and> apply_outbox_entry sample_reconcile ''outbox_t'' ''job_terminal''
        (o_payload (hd (outbox (rw_db ended_world)))) w = (Inr (), w)"
proof -
  let ?run = "apply_outbox_entry sample_reconcile ''outbox_t'' ''job_terminal''
        (o_payload (hd (outbox (rw_db ended_world)))) ended_world"
  have "case fst ?run of Inl _ \<Rightarrow> False
     | Inr _ \<Rightarrow> a_status (hd (attempts (rw_db (snd ?run)))) \<noteq> a_status (hd (attempts (rw_db ended_world)))" by code_simp
  then have run: "?run = (Inr (), snd ?run)"
    and "a_status (hd (attempts (rw_db (snd ?run)))) \<noteq> a_status (hd (attempts (rw_db ended_world)))"
    by (auto simp: prod_eq_iff split: sum.splits)
  then have "snd ?run \<noteq> ended_world" by metis
  with run apply_outbox_entry_idempotent [OF run ended_world_ok, of sample_reconcile] show ?thesis by blast
qed

text \<open>The retry of a failed attempt is running: its first run has failed, its second one has not.\<close>

definition retry_world :: world where
  "retry_world = \<lparr>rw_db = running_store\<lparr>attempts := [sample_attempt\<lparr>a_status := AttemptFailed, a_finished_at := Some 20\<rparr>,
       sample_attempt\<lparr>a_id := ''attempt_2'', a_number := 2, a_run_id := ''run_2'', a_created_at := 30, a_leased_until := Some 90\<rparr>]\<rparr>,
     rw_hist = sample_runs\<lparr>hs_runs := [(''s'', [sample_run\<lparr>u_status := RunFailed, u_error := Some ''boom''\<rparr>,
       sample_run\<lparr>u_id := ''run_2''\<rparr>])]\<rparr>\<rparr>"

definition statuses :: "world \<Rightarrow> job_status list \<times> attempt_status list \<times> run_status list" where
  "statuses w = (map j_status (jobs (rw_db w)), map a_status (attempts (rw_db w)),
     map u_status (dict_list (hs_runs (rw_hist w)) ''s''))"

text \<open>Failing a job that is not terminal.\<close>

lemma transition_job_fails:
  assumes ok: "db_ok s" and j: "job_by i s = Some j" "\<not> terminal_job (j_status j)"
    and fresh: "new_id ''outbox'' ou \<notin> o_id ` set (outbox s)"
  obtains j' s' where "transition_job E now ou i JobFailed None err av s = (Inr j', s')" "j_status j' = JobFailed"
    "job_by i s' = Some j'" "attempts s' = attempts s"
    "''job:'' @ i @ '':terminal:'' @ show_int (j_version j + 1) \<in> o_dedupe_key ` set (outbox s')"
proof -
  define f where "f = transition_edit E now JobFailed err av (j_version j + 1)"
  define s1 where "s1 = update_jobs (\<lambda>k. j_id k = i \<and> j_version k = j_version j) f s"
  define s2 where "s2 = enqueue_terminal_sync ou now i JobFailed (j_version j + 1) (j_session_id j) (latest_attempt i s1) s1"
  have ch: "changes (\<lambda>k. j_id k = i \<and> j_version k = j_version j) (jobs s) = 1"
    by (rule changes_id_version [OF ok j(1)]) simp
  have key: "j_id j = i" by (rule row_by_key [OF j(1)])
  have row: "job_by i s2 = Some (f j)"
    using j(1) key by (simp add: s2_def s1_def job_by_update f_def transition_edit_def)
  have row1: "job_by i s1 = Some (f j)"
    using j(1) key by (simp add: s1_def job_by_update f_def transition_edit_def)
  have "transition_job_tx E now ou i JobFailed None err av s = Inr ((f j, True), s2)"
    using j ch row1 unfolding s2_def s1_def f_def
    by (auto simp: transition_job_tx_def and_then_def fetch_def guard_def Let_def)
  then have "transition_job E now ou i JobFailed None err av s = (Inr (f j), wake_workers s2)"
    by (simp add: transition_job_def waking_def transaction_def)
  moreover have "o_dedupe_key (terminal_entry ou now i JobFailed (j_version j + 1) (j_session_id j) (latest_attempt i s1))
      \<in> o_dedupe_key ` set (outbox s2)"
    unfolding s2_def by (rule enqueue_terminal_sync_present) (use fresh in \<open>simp add: s1_def\<close>)
  moreover have "attempts s2 = attempts s" by (simp add: s2_def s1_def)
  moreover have "j_status (f j) = JobFailed" by (simp add: f_def transition_edit_def)
  ultimately show thesis using row that [of "f j" "wake_workers s2"] by (simp add: terminal_entry_def)
qed

text \<open>
  C38. A recovery pass fails a job whose retry is running. Only waiting and queued jobs are
  recognised as having a retry ahead. If the job of a settled attempt runs again, under a live
  attempt with an unexpired lease, and the finished run of the settled attempt had failed, then
  repairing from the settled attempt fails the job and adds its terminal entry to the outbox,
  while the live attempt and all runs stay as they are.
\<close>

theorem reconcile_fails_running_retry:
  assumes "db_ok (rw_db w)" "a \<in> set (attempts (rw_db w))" "terminal_attempt (a_status a)"
    "get_run (a_run_id a) (rw_hist w) = Inr u" "u_status u = RunFailed"
    "job_by (a_job_id a) (rw_db w) = Some j" "j_status j = JobRunning"
    "b \<in> set (attempts (rw_db w))" "a_job_id b = a_job_id a" "a_status b = AttemptRunning"
    "a_leased_until b = Some t" "rx_now X < t"
    "new_id ''outbox'' (rx_uuid X (j_id j)) \<notin> o_id ` set (outbox (rw_db w))"
  shows "\<exists>rep' w' j'. scan_attempt X a rep w = (Inr rep', w') \<and> job_by (a_job_id a) (rw_db w') = Some j'
    \<and> j_status j' = JobFailed \<and> b \<in> set (attempts (rw_db w')) \<and> rw_hist w' = rw_hist w
    \<and> ''job:'' @ j_id j @ '':terminal:'' @ show_int (j_version j + 1) \<in> o_dedupe_key ` set (outbox (rw_db w'))"
proof -
  have key: "j_id j = a_job_id a" by (rule row_by_key [OF assms(6)])
  have "\<not> terminal_job (j_status j)" by (simp add: assms(7))
  from transition_job_fails [OF assms(1,6) this, of "rx_uuid X (j_id j)" "rx_env X" "rx_now X" "u_error u" None] assms(13)
  obtain j' s' where step: "transition_job (rx_env X) (rx_now X) (rx_uuid X (j_id j)) (a_job_id a) JobFailed None (u_error u) None
      (rw_db w) = (Inr j', s')"
    and j': "j_status j' = JobFailed" "job_by (a_job_id a) s' = Some j'" "attempts s' = attempts (rw_db w)"
      "''job:'' @ a_job_id a @ '':terminal:'' @ show_int (j_version j + 1) \<in> o_dedupe_key ` set (outbox s')"
    by blast
  have "\<exists>rep'. scan_attempt X a rep w = (Inr rep', w\<lparr>rw_db := s'\<rparr>)"
    using assms(3-7) step
    by (simp add: scan_attempt_def repair_attempt_def repair_job_def retry_is_pending_def wbind_def wret_def wraise_def
        read_db_def on_db_def get_job_def fetch_def key)
  then show ?thesis using j' assms(8) key by auto
qed

text \<open>The rest of the pass then settles the running attempt and its run as failed.\<close>

theorem reconcile_fails_running_retry_witness:
  "\<exists>rep w. scan_attempt sample_reconcile (hd (attempts (rw_db retry_world))) empty_report retry_world = (Inr rep, w)
     \<and> map j_status (jobs (rw_db w)) = [JobFailed] \<and> last (attempts (rw_db retry_world)) \<in> set (attempts (rw_db w))
     \<and> statuses (snd (reconcile sample_reconcile retry_world))
       = ([JobFailed], [AttemptFailed, AttemptFailed], [RunFailed, RunFailed])"
proof -
  let ?a = "hd (attempts (rw_db retry_world))" and ?b = "last (attempts (rw_db retry_world))"
  let ?u = "sample_run\<lparr>u_session_id := ''s'', u_status := RunFailed, u_error := Some ''boom''\<rparr>"
  let ?j = "hd (jobs (rw_db retry_world))"
  have "db_ok (rw_db retry_world)" "?a \<in> set (attempts (rw_db retry_world))" "terminal_attempt (a_status ?a)"
    "get_run (a_run_id ?a) (rw_hist retry_world) = Inr ?u" "u_status ?u = RunFailed"
    "job_by (a_job_id ?a) (rw_db retry_world) = Some ?j" "j_status ?j = JobRunning"
    "?b \<in> set (attempts (rw_db retry_world))" "a_job_id ?b = a_job_id ?a" "a_status ?b = AttemptRunning"
    "a_leased_until ?b = Some 90" "rx_now sample_reconcile < 90"
    "new_id ''outbox'' (rx_uuid sample_reconcile (j_id ?j)) \<notin> o_id ` set (outbox (rw_db retry_world))"
    by code_simp+
  from reconcile_fails_running_retry [OF this, of empty_report]
  obtain rep w j' where run: "scan_attempt sample_reconcile ?a empty_report retry_world = (Inr rep, w)"
    and w: "job_by (a_job_id ?a) (rw_db w) = Some j'" "j_status j' = JobFailed" "?b \<in> set (attempts (rw_db w))"
    by blast
  have "map j_id (jobs (rw_db (snd (scan_attempt sample_reconcile ?a empty_report retry_world)))) = [a_job_id ?a]"
    by code_simp
  then have "map j_id (jobs (rw_db w)) = [a_job_id ?a]" by (simp add: run)
  then have "map j_status (jobs (rw_db w)) = [JobFailed]"
    using w(1,2) by (auto simp: row_by_def map_eq_Cons_conv)
  moreover have "statuses (snd (reconcile sample_reconcile retry_world))
       = ([JobFailed], [AttemptFailed, AttemptFailed], [RunFailed, RunFailed])" by code_simp
  ultimately show ?thesis using run w(3) by (intro exI [of _ rep] exI [of _ w] conjI)
qed

end
