(* ===== verification/Conversation.thy ===== *)
theory Conversation
  imports Samples Run_History
begin

text \<open>
  The active branch of a conversation (\<open>sessions/conversation.py\<close>): messages are only appended, an
  edited message names the one it replaces, and the active branch is cut there. The session
  store keeps the same branch incrementally in its query index (\<open>hs_active\<close>); this theory shows
  that the two agree, so that the bounded message queries answer from the projection.
\<close>

section \<open>The projection\<close>

definition EDITED_FROM :: string where
  "EDITED_FROM = ''edited_from_message_id''"

definition edited_from :: "message \<Rightarrow> string option" where
  "edited_from m = (case jget (ms_metadata m) EDITED_FROM of
     Some (JStr v) \<Rightarrow> if strip v = [] then None else Some (strip v)
   | _ \<Rightarrow> None)"

definition advance :: "message list \<Rightarrow> message \<Rightarrow> message list" where
  "advance active m = (case edited_from m of
     None \<Rightarrow> active
   | Some i \<Rightarrow> if i \<in> ms_id ` set active then takeWhile (\<lambda>c. ms_id c \<noteq> i) active else active) @ [m]"

definition active_conversation_messages :: "message list \<Rightarrow> message list" where
  "active_conversation_messages ms = foldl advance [] ms"

definition history_before_edited_message :: "message list \<Rightarrow> string \<Rightarrow> message list result" where
  "history_before_edited_message ms message_id =
     (let active = active_conversation_messages ms in
      case List.find (\<lambda>m. ms_role m = ''user'') (rev active) of
        None \<Rightarrow> Inl (ValueError ''Only the latest user message can be edited'')
      | Some latest \<Rightarrow> if ms_id latest \<noteq> message_id
          then Inl (ValueError ''Only the latest user message can be edited'')
          else Inr (takeWhile (\<lambda>m. ms_id m \<noteq> message_id) active))"

definition edited_message_metadata :: "string option \<Rightarrow> json" where
  "edited_message_metadata message_id = (case message_id of
     None \<Rightarrow> JObj [] | Some i \<Rightarrow> JObj [(EDITED_FROM, JStr i)])"

section \<open>The query index keeps the projection\<close>

lemma active_snoc: "active_conversation_messages (ms @ [m]) = advance (active_conversation_messages ms) m"
  by (simp add: active_conversation_messages_def)

lemma active_subset: "set (active_conversation_messages ms) \<subseteq> set ms"
proof (induction ms rule: rev_induct)
  case Nil
  then show ?case by (simp add: active_conversation_messages_def)
next
  case (snoc m ms)
  have "set (advance as m) \<subseteq> insert m (set as)" for as
    by (auto simp: advance_def dest: set_takeWhileD split: option.splits if_splits)
  with snoc show ?case by (auto simp: active_snoc)
qed

text \<open>A marker the index and the projection read alike: trimmed and not empty.\<close>

definition marker_ok :: "message \<Rightarrow> bool" where
  "marker_ok m = (case jget (ms_metadata m) EDITED_FROM of Some (JStr v) \<Rightarrow> v \<noteq> [] \<and> strip v = v | _ \<Rightarrow> True)"

lemma takeWhile_ids: "takeWhile (\<lambda>x. x \<noteq> i) (map ms_id ms) = map ms_id (takeWhile (\<lambda>c. ms_id c \<noteq> i) ms)"
  by (induction ms) auto

lemma cut_branch_advance:
  "marker_ok m \<Longrightarrow> cut_branch (jget (ms_metadata m) EDITED_FROM) (map ms_id active) @ [ms_id m] = map ms_id (advance active m)"
  by (auto simp: marker_ok_def cut_branch_def advance_def edited_from_def takeWhile_ids split: option.splits json.splits)

definition messages_ok :: "history \<Rightarrow> bool" where
  "messages_ok hs \<longleftrightarrow> (\<forall>sid. dict_list (hs_active hs) sid = map ms_id (active_conversation_messages (dict_list (hs_messages hs) sid))
     \<and> (\<forall>m\<in>set (dict_list (hs_messages hs) sid). ms_session_id m = sid \<and> map_of (hs_message_index hs) (ms_id m) = Some m))"

lemma messages_okD:
  "messages_ok hs \<Longrightarrow> dict_list (hs_active hs) sid = map ms_id (active_conversation_messages (dict_list (hs_messages hs) sid))"
  "messages_ok hs \<Longrightarrow> m \<in> set (dict_list (hs_messages hs) sid) \<Longrightarrow> ms_session_id m = sid"
  "messages_ok hs \<Longrightarrow> m \<in> set (dict_list (hs_messages hs) sid) \<Longrightarrow> map_of (hs_message_index hs) (ms_id m) = Some m"
  by (simp_all add: messages_ok_def)

lemma messages_ok_empty: "messages_ok empty_history"
  by (simp add: messages_ok_def empty_history_def dict_list_def active_conversation_messages_def)

lemma messages_ok_frame:
  "hs_messages hs' = hs_messages hs \<Longrightarrow> hs_active hs' = hs_active hs \<Longrightarrow> hs_message_index hs' = hs_message_index hs
   \<Longrightarrow> messages_ok hs' = messages_ok hs"
  by (simp add: messages_ok_def)

lemma append_message_cases:
  assumes "append_message E m hs = (r, hs')"
  obtains (Fails) e where "r = Inl e" "hs' = hs"
  | (Appends) x where "r = Inr x" "x = stored_message E m"
      "hs' = record_message x (hs\<lparr>hs_messages := dict_append (ms_session_id m) x (hs_messages hs)\<rparr>)"
  using assms by (cases "get_session (ms_session_id m) hs") (auto simp: append_message_def attempt_with_def Let_def)

lemma stored_message_ids [simp]:
  "ms_id (stored_message E m) = ms_id m" "ms_session_id (stored_message E m) = ms_session_id m"
  by (simp_all add: stored_message_def)

lemma dict_list_update: "dict_list (AList.update k v d) s = (if s = k then v else dict_list d s)"
  by (simp add: dict_list_def update_conv')

lemma dict_list_delete: "dict_list (AList.delete k d) s = (if s = k then [] else dict_list d s)"
  by (simp add: dict_list_def delete_conv')

lemma append_message_ok:
  assumes ok: "messages_ok hs" and run: "append_message E m hs = (Inr x, hs')"
    and fresh: "map_of (hs_message_index hs) (ms_id m) = None" and marker: "marker_ok x"
  shows "messages_ok hs'"
proof -
  from run have x: "x = stored_message E m"
    and hs': "hs' = record_message x (hs\<lparr>hs_messages := dict_append (ms_session_id m) x (hs_messages hs)\<rparr>)"
    by (auto elim: append_message_cases)
  have other: "ms_id y \<noteq> ms_id m" if "y \<in> set (dict_list (hs_messages hs) sid)" for y sid
    using messages_okD(3) [OF ok that] fresh by auto
  have msgs: "dict_list (hs_messages hs') sid = dict_list (hs_messages hs) sid @ (if sid = ms_session_id m then [x] else [])" for sid
    by (simp add: hs' record_message_def dict_list_append)
  have index: "map_of (hs_message_index hs') k = (if k = ms_id m then Some x else map_of (hs_message_index hs) k)" for k
    by (simp add: hs' record_message_def update_conv' x)
  have branch: "dict_list (hs_active hs') sid = (if sid = ms_session_id m
      then cut_branch (jget (ms_metadata x) EDITED_FROM) (dict_list (hs_active hs) sid) @ [ms_id x] else dict_list (hs_active hs) sid)" for sid
    by (simp add: hs' record_message_def dict_list_update x EDITED_FROM_def)
  have "dict_list (hs_active hs') sid = map ms_id (active_conversation_messages (dict_list (hs_messages hs') sid))" for sid
    by (cases "sid = ms_session_id m")
      (simp_all add: msgs branch active_snoc messages_okD(1) [OF ok] cut_branch_advance [OF marker])
  moreover have "ms_session_id y = sid \<and> map_of (hs_message_index hs') (ms_id y) = Some y"
    if y: "y \<in> set (dict_list (hs_messages hs') sid)" for y sid
  proof (cases "y \<in> set (dict_list (hs_messages hs) sid)")
    case True
    with other [OF True] messages_okD(2,3) [OF ok True] show ?thesis by (simp add: index)
  next
    case False
    then have "y \<in> set (if sid = ms_session_id m then [x] else [])" using y unfolding msgs set_append by blast
    then show ?thesis by (cases "sid = ms_session_id m") (simp_all add: index x)
  qed
  ultimately show ?thesis unfolding messages_ok_def by blast
qed

lemma map_of_filter_kept: "map_of d k = Some v \<Longrightarrow> P (k, v) \<Longrightarrow> map_of (filter P d) k = Some v"
  by (induction d) (auto split: if_splits)

lemma drop_session_ok:
  assumes ok: "messages_ok hs"
  shows "messages_ok (drop_session i hs)"
proof -
  have msgs: "dict_list (hs_messages (drop_session i hs)) sid = (if sid = i then [] else dict_list (hs_messages hs) sid)" for sid
    by (simp add: drop_session_def dict_list_delete)
  have "ms_id y \<notin> set (dict_list (hs_active hs) i)" if y: "y \<in> set (dict_list (hs_messages hs) sid)" "sid \<noteq> i" for y sid
  proof
    assume "ms_id y \<in> set (dict_list (hs_active hs) i)"
    then obtain z where z: "z \<in> set (dict_list (hs_messages hs) i)" "ms_id z = ms_id y"
      unfolding messages_okD(1) [OF ok] by (auto dest: subsetD [OF active_subset])
    have "Some z = Some y"
      using messages_okD(3) [OF ok z(1)] messages_okD(3) [OF ok y(1)] unfolding z(2) by (rule trans [OF sym])
    then have "z = y" by simp
    with messages_okD(2) [OF ok z(1)] messages_okD(2) [OF ok y(1)] y(2) show False by simp
  qed
  note apart = this
  have index: "map_of (hs_message_index (drop_session i hs)) (ms_id y) = Some y"
    if y: "y \<in> set (dict_list (hs_messages hs) sid)" "sid \<noteq> i" for y sid
  proof -
    have "hs_message_index (drop_session i hs) = filter (\<lambda>kv. fst kv \<notin> set (dict_list (hs_active hs) i)
        \<and> ms_session_id (snd kv) \<noteq> i) (hs_message_index hs)" by (simp add: drop_session_def)
    then show ?thesis
      using map_of_filter_kept [OF messages_okD(3) [OF ok y(1)]] apart [OF y] messages_okD(2) [OF ok y(1)] y(2) by simp
  qed
  have "dict_list (hs_active (drop_session i hs)) sid
      = map ms_id (active_conversation_messages (dict_list (hs_messages (drop_session i hs)) sid))" for sid
    using messages_okD(1) [OF ok, of sid] by (simp add: msgs drop_session_def dict_list_delete active_conversation_messages_def)
  moreover have "ms_session_id y = sid \<and> map_of (hs_message_index (drop_session i hs)) (ms_id y) = Some y"
    if "y \<in> set (dict_list (hs_messages (drop_session i hs)) sid)" for y sid
    using that index [of y sid] messages_okD(2) [OF ok, of y sid] by (simp add: msgs split: if_splits)
  ultimately show ?thesis unfolding messages_ok_def by blast
qed

section \<open>Bounded queries\<close>

definition last_items :: "int \<Rightarrow> 'a list \<Rightarrow> 'a list" where
  "last_items n xs = drop (length xs - nat n) xs"

lemma lookup_all_ids: "\<forall>m\<in>set ms. map_of d (ms_id m) = Some m \<Longrightarrow> lookup_all d (map ms_id ms) = Inr ms"
  by (induction ms) auto

lemma index_of_ids:
  "index_of b (map ms_id ms) = (if b \<in> ms_id ` set ms then Some (length (takeWhile (\<lambda>c. ms_id c \<noteq> b) ms)) else None)"
  by (induction ms) auto

lemma window_lookup:
  assumes "\<forall>m\<in>set active. map_of d (ms_id m) = Some m" "stop \<le> length active"
  shows "lookup_all d (drop (stop - n) (take stop (map ms_id active))) = Inr (drop (stop - n) (take stop active))"
  using lookup_all_ids [of "drop (stop - n) (take stop active)" d] assms(1)
  by (auto simp: take_map drop_map dest: in_set_dropD in_set_takeD)

lemma recent_messages_window:
  assumes ok: "messages_ok hs" and s: "get_session sid hs = Inr s" and limit: "1 \<le> limit" "limit \<le> 1000"
    and active: "active = active_conversation_messages (dict_list (hs_messages hs) sid)"
  shows "list_recent_messages sid limit None None hs = Inr (last_items limit active)"
    "b \<noteq> [] \<Longrightarrow> b \<in> ms_id ` set active \<Longrightarrow>
       list_recent_messages sid limit (Some b) None hs = Inr (last_items limit (takeWhile (\<lambda>m. ms_id m \<noteq> b) active))"
    "b \<in> ms_id ` set active \<Longrightarrow>
       list_recent_messages sid limit None (Some b) hs
         = Inr (last_items limit (take (Suc (length (takeWhile (\<lambda>m. ms_id m \<noteq> b) active))) active))"
    "b \<notin> ms_id ` set active \<Longrightarrow> list_recent_messages sid limit None (Some b) hs = Inl (MessageNotFoundError b)"
proof -
  have ids: "dict_list (hs_active hs) sid = map ms_id active" using messages_okD(1) [OF ok] active by simp
  have known: "\<forall>m\<in>set active. map_of (hs_message_index hs) (ms_id m) = Some m"
    using active_subset messages_okD(3) [OF ok] unfolding active by blast
  have bound: "bounded_query_limit limit MAX_MESSAGE_QUERY_LIMIT = Inr limit"
    using limit by (simp add: bounded_query_limit_def MAX_MESSAGE_QUERY_LIMIT_def)
  have tw: "take (length (takeWhile P xs)) xs = takeWhile P xs" for P and xs :: "message list"
    by (metis takeWhile_eq_take)
  note defs = list_recent_messages_def s ids bound given_text_def last_items_def Let_def
  show "list_recent_messages sid limit None None hs = Inr (last_items limit active)"
    using window_lookup [OF known order_refl, of "nat limit"] by (simp add: defs)
  show "list_recent_messages sid limit (Some b) None hs = Inr (last_items limit (takeWhile (\<lambda>m. ms_id m \<noteq> b) active))"
    if b: "b \<noteq> []" "b \<in> ms_id ` set active"
    using window_lookup [OF known length_takeWhile_le, of "\<lambda>m. ms_id m \<noteq> b" "nat limit"] b
    by (simp add: defs index_of_ids tw)
  show "list_recent_messages sid limit None (Some b) hs
         = Inr (last_items limit (take (Suc (length (takeWhile (\<lambda>m. ms_id m \<noteq> b) active))) active))"
    if b: "b \<in> ms_id ` set active"
  proof -
    have "length (takeWhile (\<lambda>m. ms_id m \<noteq> b) active) < length active"
      using b by (induction active) auto
    then show ?thesis
      using window_lookup [OF known, of "Suc (length (takeWhile (\<lambda>m. ms_id m \<noteq> b) active))" "nat limit"] b
      by (simp add: defs index_of_ids min_absorb2 Suc_leI)
  qed
  show "list_recent_messages sid limit None (Some b) hs = Inl (MessageNotFoundError b)"
    if "b \<notin> ms_id ` set active" using that by (simp add: defs index_of_ids)
qed

text \<open>
  C39. The bounded message queries answer from the active branch. Let the index of a store be in step
  with its messages, and let a message be appended under a fresh id whose edited-from marker, if
  it is a text, is not empty and has no surrounding white space (\<open>marker_ok\<close>; with such space the
  index and the projection disagree). Then the index stays in step, the retained messages grow by
  exactly the stored message, the active branch is cut at the message it replaces, and the
  recent-messages query returns the last items of the projected branch, of its part before an
  anchor, or of its part up to and including an anchor, for every limit the interface accepts.
\<close>

theorem recent_messages_follow_active_branch:
  assumes ok: "messages_ok hs" and run: "append_message E m hs = (Inr x, hs')"
    and fresh: "map_of (hs_message_index hs) (ms_id m) = None" and marker: "marker_ok x"
    and limit: "1 \<le> limit" "limit \<le> 1000"
    and sid: "sid = ms_session_id m"
    and active: "active = advance (active_conversation_messages (dict_list (hs_messages hs) sid)) x"
  shows "messages_ok hs' \<and> list_messages sid hs' = Inr (dict_list (hs_messages hs) sid @ [x])
     \<and> list_recent_messages sid limit None None hs' = Inr (last_items limit active)
     \<and> (b \<in> ms_id ` set active \<and> b \<noteq> [] \<longrightarrow>
          list_recent_messages sid limit (Some b) None hs' = Inr (last_items limit (takeWhile (\<lambda>m. ms_id m \<noteq> b) active))
        \<and> list_recent_messages sid limit None (Some b) hs'
            = Inr (last_items limit (take (Suc (length (takeWhile (\<lambda>m. ms_id m \<noteq> b) active))) active)))"
proof -
  from run obtain s where s: "get_session sid hs = Inr s" and x: "x = stored_message E m"
    and hs': "hs' = record_message x (hs\<lparr>hs_messages := dict_append (ms_session_id m) x (hs_messages hs)\<rparr>)"
    by (cases "get_session sid hs") (auto simp: append_message_def attempt_with_def Let_def sid)
  have ok': "messages_ok hs'" by (rule append_message_ok [OF ok run fresh marker])
  have msgs: "dict_list (hs_messages hs') sid = dict_list (hs_messages hs) sid @ [x]"
    by (simp add: hs' record_message_def dict_list_append sid)
  have s': "get_session sid hs' = Inr s" using s by (simp add: hs' record_message_def get_session_def)
  have "active = active_conversation_messages (dict_list (hs_messages hs') sid)"
    by (simp add: active msgs active_snoc)
  from recent_messages_window [OF ok' s' limit this] ok' s' msgs show ?thesis
    by (simp add: list_messages_def)
qed

definition user_message :: "string \<Rightarrow> json \<Rightarrow> message" where
  "user_message i meta = \<lparr>ms_id = i, ms_session_id = ''s'', ms_run_id = None, ms_role = ''user'', ms_content = ''hi'',
     ms_created_at = ''10'', ms_harness_id = None, ms_model = None, ms_api_mode = None, ms_metadata = meta\<rparr>"

text \<open>Three messages; the next one replaces the second.\<close>

definition talked_history :: history where
  "talked_history = (let ms = [user_message ''m1'' (JObj []), user_message ''m2'' (JObj []), user_message ''m3'' (JObj [])] in
     empty_history\<lparr>hs_sessions := [(''s'', sample_session)], hs_messages := [(''s'', ms)],
       hs_active := [(''s'', [''m1'', ''m2'', ''m3''])], hs_message_index := map (\<lambda>m. (ms_id m, m)) ms\<rparr>)"

lemma talked_history_ok: "messages_ok talked_history"
  by (auto simp: messages_ok_def talked_history_def dict_list_def empty_history_def user_message_def
      active_conversation_messages_def advance_def edited_from_def jget_def EDITED_FROM_def)

theorem recent_messages_follow_active_branch_witness:
  "\<exists>x hs'. append_message sample_env (user_message ''m4'' (edited_message_metadata (Some ''m2''))) talked_history = (Inr x, hs')
     \<and> messages_ok hs' \<and> list_recent_messages ''s'' 10 None None hs' = Inr [user_message ''m1'' (JObj []), x]"
proof -
  let ?m = "user_message ''m4'' (edited_message_metadata (Some ''m2''))"
  let ?run = "append_message sample_env ?m talked_history"
  have "case fst ?run of Inl _ \<Rightarrow> False | Inr x \<Rightarrow> marker_ok x
     \<and> last_items 10 (advance (active_conversation_messages (dict_list (hs_messages talked_history) ''s'')) x)
         = [user_message ''m1'' (JObj []), x]"
    by code_simp
  then obtain x where run: "?run = (Inr x, snd ?run)" and x: "marker_ok x"
    "last_items 10 (advance (active_conversation_messages (dict_list (hs_messages talked_history) ''s'')) x) = [user_message ''m1'' (JObj []), x]"
    by (auto simp: prod_eq_iff split: sum.splits)
  have "map_of (hs_message_index talked_history) (ms_id ?m) = None" by code_simp
  moreover have "''s'' = ms_session_id ?m" by (simp add: user_message_def)
  ultimately show ?thesis
    using recent_messages_follow_active_branch [OF talked_history_ok run _ x(1), of 10 "''s''"] run x(2) by auto
qed

end
