(* ===== verification/System.thy ===== *)
theory System
  imports Workers Decisions Native_Processes Reconcile Conversation
begin

text \<open>
  The running system: any number of clients call the operations of the coordination store and of
  the session store in any order, and recovery passes run between them, complete or cut off
  after the application of an entry. Every immediate transaction is one step, so a schedule of
  concurrent callers is a sequence of steps. \<open>claim_next_job\<close> is no step of its own: it claims in a
  transaction per pass, and other clients run in between (\<open>claim_next_job_steps\<close>).
\<close>

section \<open>Steps\<close>

inductive db_step :: "store \<Rightarrow> store \<Rightarrow> bool" where
  submit_job: "db_step s (snd (submit_job E now ju ru q s))"
| transition_job: "db_step s (snd (transition_job E now ou i target expected err av s))"
| retry_safe_job: "db_step s (snd (retry_safe_job now i s))"
| link_job_workflow: "db_step s (snd (link_job_workflow now i workflow version s))"
| request_cancel: "db_step s (snd (request_cancel now i s))"
| create_attempt: "db_step s (snd (create_attempt E now u i run st lo lu rr ic s))"
| heartbeat_attempt: "db_step s (snd (heartbeat_attempt now i w lease s))"
| update_attempt_process: "db_step s (snd (update_attempt_process now i p g s))"
| set_attempt_idempotency_class: "db_step s (snd (set_attempt_idempotency_class now i c s))"
| transition_attempt: "db_step s (snd (transition_attempt E now i at expected_at p err s))"
| finish_attempt: "db_step s (snd (finish_attempt E now ou i at err delay sync s))"
| recover_expired_attempts: "db_step s (snd (recover_expired_attempts E now delay' uuids s))"
| claim_candidate: "read_before candidate s \<Longrightarrow> db_step s (snd (claim_candidate E now au ru w fp lease candidate s))"
| requeue_due_jobs: "db_step s (snd (requeue_due_jobs now s))"
| register_worker: "db_step s (snd (register_worker E now i pid host fp s))"
| heartbeat_worker: "db_step s (snd (heartbeat_worker now i s))"
| stop_worker: "db_step s (snd (stop_worker now i s))"
| heartbeat_worker_attempt: "db_step s (snd (heartbeat_worker_attempt now i w lease m s))"
| create_approval_request: "db_step s (snd (create_approval_request E now u au res ctx ex s))"
| get_approval_request: "db_step s (snd (get_approval_request now i s))"
| list_approval_requests: "db_step s (snd (list_approval_requests now status n s))"
| decide_approval_request: "db_step s (snd (decide_approval_request E now ids i d expiry s))"
| consume_matching_approval_grant: "db_step s (snd (consume_matching_approval_grant E now u gq s))"
| mark_attention_read: "db_step s (snd (mark_attention_read now attention_ids rd s))"
| reserve_side_effect: "db_step s (snd (reserve_side_effect E now u j a tok operation intent s))"
| complete_side_effect: "db_step s (snd (complete_side_effect E now i a evidence s))"
| enqueue_side_effect_event: "db_step s (snd (enqueue_side_effect_event E now u ou j a tok et msg pl s))"
| next_trace_sequence: "db_step s (snd (next_trace_sequence trace s))"
| mark_outbox_processed: "db_step s (snd (mark_outbox_processed now i s))"
| record_outbox_failure: "db_step s (snd (record_outbox_failure E i text s))"
| create_native_process: "db_step s (snd (create_native_process E n s))"
| heartbeat_native_process: "db_step s (snd (heartbeat_native_process E now i w lease ref c s))"
| append_native_process_output: "db_step s (snd (append_native_process_output E now out w m s))"
| request_native_process_cancel: "db_step s (snd (request_native_process_cancel now i s))"
| finish_native_process: "db_step s (snd (finish_native_process E now i w st' ref c out' s))"
| recover_native_process: "db_step s (snd (recover_native_process E now i st' ref out' s))"

inductive history_step :: "history \<Rightarrow> history \<Rightarrow> bool" where
  create_session: "history_step h (snd (create_session E now ns uuid spec h))"
| update_session: "history_step h (snd (update_session E now ns sid p h))"
| update_session_if: "history_step h (snd (update_session_if current E now ns sid p h))"
| delete_session: "history_step h (snd (delete_session sid h))"
| append_message: "history_step h (snd (append_message E m h))"
| create_run: "history_step h (snd (create_run E now uuid run h))"
| update_run: "history_step h (snd (update_run E now rid patch h))"
| append_event: "history_step h (snd (append_event E e h))"
| append_events: "history_step h (snd (append_events E es h))"
| append_raw: "history_step h (snd (append_raw E now uuid req sid rid payload h))"
| append_native_link: "history_step h (snd (append_native_link E sid link h))"

inductive world_step :: "world \<Rightarrow> world \<Rightarrow> bool" where
  database: "db_step (rw_db w) s \<Longrightarrow> world_step w (w\<lparr>rw_db := s\<rparr>)"
| sessions: "history_step (rw_hist w) h \<Longrightarrow> world_step w (w\<lparr>rw_hist := h\<rparr>)"
| recovery: "world_step w (snd (reconcile X w))"
| interrupted: "world_step w (snd (apply_outbox_entry X i t p w))"

inductive_cases world_stepE: "world_step w w'"

definition empty_world :: world where
  "empty_world = \<lparr>rw_db = empty_store, rw_hist = empty_history\<rparr>"

definition reachable :: "world \<Rightarrow> bool" where
  "reachable w \<longleftrightarrow> world_step\<^sup>*\<^sup>* empty_world w"

text \<open>A candidate of \<open>claim_candidate\<close> was read at some earlier time (\<open>read_before\<close>).\<close>

section \<open>Every step is legal\<close>

lemma db_step_legal: "db_step s s' \<Longrightarrow> legal s s'"
  by (induction rule: db_step.induct)
    (rule submit_job.op_legal transition_job.op_legal retry_safe_job.op_legal link_job_workflow.op_legal
      request_cancel.op_legal create_attempt.op_legal heartbeat_attempt.op_legal update_attempt_process.op_legal
      set_attempt_idempotency_class.op_legal transition_attempt.op_legal finish_attempt.op_legal
      recover_expired_attempts.op_legal claim_candidate_legal requeue_due_jobs.op_legal
      register_worker.op_legal heartbeat_worker.op_legal stop_worker.op_legal heartbeat_worker_attempt.op_legal
      create_approval_request.op_legal get_approval_request.op_legal list_approval_requests.op_legal
      decide_approval_request.op_legal consume_matching_approval_grant.op_legal mark_attention_read.op_legal
      reserve_side_effect.op_legal complete_side_effect.op_legal enqueue_side_effect_event.op_legal
      next_trace_sequence.op_legal mark_outbox_processed.op_legal record_outbox_failure.op_legal
      create_native_process.op_legal heartbeat_native_process.op_legal append_native_process_output.op_legal
      request_native_process_cancel.op_legal finish_native_process.op_legal recover_native_process.op_legal | assumption)+

text \<open>A run of \<open>claim_next_job\<close> among other clients is a sequence of steps.\<close>

lemma db_steps_legal: "db_step\<^sup>*\<^sup>* s s' \<Longrightarrow> legal s s'"
  by (induction rule: rtranclp_induct) (auto intro: legal_trans db_step_legal)

lemma claim_loop_steps:
  assumes "\<forall>t\<in>set ts. \<forall>s. db_step\<^sup>*\<^sup>* s (ct_before t s) \<and> db_step\<^sup>*\<^sup>* s (ct_between t s)" "db_ok s"
  shows "db_step\<^sup>*\<^sup>* s (snd (claim_loop ts E w fp lease s))"
  using assms
proof (induction ts arbitrary: s)
  case (Cons t ts)
  have steps: "db_step\<^sup>*\<^sup>* s (ct_before t s)" "db_step\<^sup>*\<^sup>* (ct_before t s) (ct_between t (ct_before t s))"
    and rest: "\<forall>t\<in>set ts. \<forall>s. db_step\<^sup>*\<^sup>* s (ct_before t s) \<and> db_step\<^sup>*\<^sup>* s (ct_between t s)"
    using Cons.prems(1) by simp_all
  show ?case
  proof (cases "find_compatible_candidate (ct_search_time t) fp (ct_before t s)")
    case None
    then show ?thesis using steps(1) by (simp add: Let_def)
  next
    case (Some c)
    let ?found = "ct_between t (ct_before t s)"
    define r where "r = claim_candidate E (ct_claim_time t) (ct_attempt t) (ct_run t) w fp lease c ?found"
    have ok: "db_ok (ct_before t s)" "db_ok ?found" "evolves (ct_before t s) ?found"
      using db_steps_legal [OF steps(1)] db_steps_legal [OF steps(2)] Cons.prems(2) by (simp_all add: legal_def)
    have "read_before c ?found" by (rule read_before_evolves [OF ok(3,2) found_member(1) [OF ok(1) Some]])
    then have "db_step ?found (snd r)" unfolding r_def by (rule db_step.claim_candidate)
    then have claimed: "db_step\<^sup>*\<^sup>* s (snd r)" using steps by simp
    have "db_ok (snd r)" using db_steps_legal [OF claimed] Cons.prems(2) by (simp add: legal_def)
    from Cons.IH [OF rest this] have "db_step\<^sup>*\<^sup>* s (snd (claim_loop ts E w fp lease (snd r)))"
      using claimed by simp
    then show ?thesis
      using claimed Some by (cases r) (auto simp: Let_def r_def [symmetric] split: sum.splits option.splits)
  qed
qed simp

lemma claim_next_job_steps:
  assumes "\<forall>k s. db_step\<^sup>*\<^sup>* s (ct_before (turns k) s) \<and> db_step\<^sup>*\<^sup>* s (ct_between (turns k) s)" "db_ok s"
  shows "db_step\<^sup>*\<^sup>* s (snd (claim_next_job E turns w fp lease s))"
  using assms by (auto simp: claim_next_job_def intro!: claim_loop_steps split: sum.splits)

lemma history_ok_frame: "hs_runs h' = hs_runs h \<Longrightarrow> history_ok h \<Longrightarrow> history_ok h'"
  by (simp add: history_ok_def)

lemma history_ok_update: "history_ok h \<Longrightarrow> hs_runs h' = AList.update k v (hs_runs h) \<Longrightarrow> history_ok h'"
  by (simp add: history_ok_def distinct_update)

lemma persist_events_runs: "hs_runs (fold persist_event es h) = hs_runs h"
  by (induction es arbitrary: h) simp_all

lemma append_many_runs: "hs_runs (snd (append_many E sid es h)) = hs_runs h"
  by (auto simp: append_many_def attempt_with_def persist_events_runs split: sum.split)

lemma history_step_ok: "history_step h h' \<Longrightarrow> history_ok h \<Longrightarrow> history_ok h'"
proof (induction rule: history_step.induct)
  case (create_session h E now ns uuid spec)
  then show ?case by (simp add: create_session_def Let_def put_session_def history_ok_def)
next
  case (update_session h E now ns sid p)
  then show ?case by (auto simp: update_session_def attempt_with_def put_session_def history_ok_def split: sum.split)
next
  case (update_session_if h current E now ns sid p)
  then show ?case by (auto simp: update_session_if_def attempt_with_def put_session_def history_ok_def split: sum.split)
next
  case (delete_session h sid)
  then show ?case by (auto simp: delete_session_def attempt_with_def drop_session_def history_ok_def distinct_delete split: sum.split)
next
  case (append_message h E m)
  then show ?case by (auto simp: append_message_def attempt_with_def record_message_def history_ok_def Let_def split: sum.split)
next
  case (create_run h E now uuid run)
  then show ?case
    by (auto simp: create_run_def attempt_with_def dict_append_def intro: history_ok_update split: sum.split)
next
  case (update_run h E now rid patch)
  then show ?case by (rule session_history.patch_keeps_ok)
next
  case (append_event h E e)
  then show ?case by (rule session_history.add_keeps_ok)
next
  case (append_events h E es)
  then show ?case
    by (auto simp: append_events_def attempt_with_def append_many_runs history_ok_def split: sum.split list.split)
next
  case (append_raw h E now uuid req sid rid payload)
  then show ?case by (auto simp: append_raw_def attempt_with_def Let_def history_ok_def split: sum.split)
next
  case (append_native_link h E sid link)
  then show ?case by (auto simp: append_native_link_def attempt_with_def history_ok_def split: sum.split)
qed

text \<open>A recovery pass is legal for both stores, wherever it stops.\<close>

definition sound :: "world \<Rightarrow> world \<Rightarrow> bool" where
  "sound w w' \<longleftrightarrow> legal (rw_db w) (rw_db w') \<and> (history_ok (rw_hist w) \<longrightarrow> history_ok (rw_hist w'))"

lemma sound_refl: "reflp sound" and sound_trans: "transp sound"
  by (auto simp: sound_def reflp_def transp_def intro: legal_trans)

lemma applies_sound: "steady applies m \<Longrightarrow> steady sound m"
  by (auto simp: steady_def applies_def sound_def)

lemma sound_db: "(\<And>s. legal s (snd (f s))) \<Longrightarrow> steady sound (on_db f)"
  by (simp add: steady_def sound_def on_db_def)

lemmas sound_steady = steady_bind [OF sound_trans] steady_reads [OF sound_refl, THEN conjunct1]
  steady_reads [OF sound_refl, THEN conjunct2, THEN conjunct1]
  steady_reads [OF sound_refl, THEN conjunct2, THEN conjunct2, THEN conjunct1]

lemma steady_repair_attempt: "steady sound (repair_attempt X a u rep)"
  unfolding repair_attempt_def by (intro sound_steady steady_if sound_db transition_attempt.op_legal)

lemma steady_repair_job: "steady sound (repair_job X a u rep)"
  unfolding repair_job_def by (intro sound_steady steady_if sound_db transition_job.op_legal)

lemma steady_scan_attempt: "steady sound (scan_attempt X a rep)"
proof -
  have "steady sound (wbind (repair_attempt X a u rep') (repair_job X a u))" for u rep'
    by (intro sound_steady steady_repair_attempt steady_repair_job)
  then show ?thesis
    using reflpD [OF sound_refl] by (auto simp: steady_def scan_attempt_def Let_def split: sum.split)
qed

lemma steady_scan_attempts: "steady sound (scan_attempts X as rep)"
  by (induction as arbitrary: rep) (auto intro: sound_steady steady_scan_attempt)

lemma steady_drain_entry: "steady sound (drain_entry X e rep)"
  unfolding steady_def
proof
  fix w
  obtain r v where run: "apply_outbox_entry X (o_id e) (o_event_type e) (o_payload e) w = (r, v)" by fastforce
  then have one: "sound w v"
    using apply_outbox_entry_applies [of w X "o_id e" "o_event_type e" "o_payload e"] by (auto simp: applies_def sound_def)
  have "steady sound (wbind (on_db (record_outbox_failure (rx_env X) (o_id e) err)) (\<lambda>_. wret rep'))"
    "steady sound (wbind (on_db (mark_outbox_processed (rx_now X) (o_id e))) (\<lambda>_. wret rep'))" for err and rep' :: report
    by (intro sound_steady sound_db record_outbox_failure.op_legal mark_outbox_processed.op_legal)+
  then show "sound w (snd (drain_entry X e rep w))"
    using transpD [OF sound_trans one] by (auto simp: drain_entry_def run steady_def split: sum.split)
qed

lemma steady_drain_outbox: "steady sound (drain_outbox X es rep)"
  by (induction es arbitrary: rep) (auto intro: sound_steady steady_drain_entry)

lemma reconcile_sound: "sound w (snd (reconcile X w))"
proof -
  have "steady sound (\<lambda>w'. drain_outbox X (pending_outbox 1000 (rw_db w')) rep w')" for rep
    using steady_drain_outbox by (simp add: steady_def)
  then have "steady sound (wbind (scan_attempts X (list_attempts None (rw_db w)) empty_report)
     (\<lambda>rep w'. drain_outbox X (pending_outbox 1000 (rw_db w')) rep w'))"
    by (intro sound_steady steady_scan_attempts)
  then show ?thesis by (simp add: steady_def reconcile_def)
qed

lemma world_step_sound: "world_step w w' \<Longrightarrow> sound w w'"
proof (induction rule: world_step.induct)
  case (database w s)
  then show ?case by (simp add: sound_def db_step_legal)
next
  case (sessions w h)
  then show ?case by (simp add: sound_def history_step_ok)
next
  case (recovery w X)
  show ?case by (rule reconcile_sound)
next
  case (interrupted w X i t p)
  show ?case using apply_outbox_entry_applies [of w X i t p] by (simp add: applies_def sound_def)
qed

lemma steps_sound: "world_step\<^sup>*\<^sup>* w w' \<Longrightarrow> sound w w'"
proof (induction rule: rtranclp_induct)
  case base
  show ?case by (rule reflpD [OF sound_refl])
next
  case (step v w')
  then show ?case using world_step_sound transpD [OF sound_trans] by blast
qed

lemma reachable_ok: "reachable w \<Longrightarrow> db_ok (rw_db w) \<and> history_ok (rw_hist w)"
  using steps_sound [of empty_world w] empty_store_ok
  by (simp add: reachable_def sound_def legal_def empty_world_def history_ok_def empty_history_def)

section \<open>Properties of every schedule\<close>

text \<open>
  C6. Every reachable state is well-formed. Whatever the clients call in whatever order, and wherever
  recovery passes run or stop, the coordination database satisfies its invariant (unique keys,
  attempts numbered inside the budget of an existing job, grants only from approved requests, job
  and side-effect lifecycles, gap-free audit chains) and the run history its own.
\<close>

theorem reachable_well_formed:
  assumes "reachable w"
  shows "db_ok (rw_db w) \<and> history_ok (rw_hist w)"
  by (rule reachable_ok [OF assms])

text \<open>
  C5. Settled facts are durable. From any reachable state on, through any further steps: a settled
  attempt stays in the table with the same status (its other columns may still be rewritten), the
  rows of a decided request, of a completed side effect and of a processed outbox entry stay as
  they are, jobs never disappear and their versions never fall, the audit log only grows at its
  end, and the revision never falls.
\<close>

theorem settled_facts_survive:
  assumes "reachable w" and "world_step\<^sup>*\<^sup>* w w'"
  shows "(\<forall>a\<in>set (attempts (rw_db w)). terminal_attempt (a_status a) \<longrightarrow>
        (\<exists>b\<in>set (attempts (rw_db w')). a_id b = a_id a \<and> a_status b = a_status a))
    \<and> (\<forall>r\<in>set (requests (rw_db w)). r_status r \<noteq> ApprovalPending \<longrightarrow> r \<in> set (requests (rw_db w')))
    \<and> (\<forall>e\<in>set (effects (rw_db w)). e_status e = EffectCompleted \<longrightarrow> e \<in> set (effects (rw_db w')))
    \<and> (\<forall>e\<in>set (outbox (rw_db w)). o_processed_at e \<noteq> None \<longrightarrow> e \<in> set (outbox (rw_db w')))
    \<and> (\<forall>j\<in>set (jobs (rw_db w)). \<exists>k\<in>set (jobs (rw_db w')). j_id k = j_id j \<and> j_version j \<le> j_version k)
    \<and> (\<exists>vs. audit (rw_db w') = audit (rw_db w) @ vs) \<and> revision (rw_db w) \<le> revision (rw_db w')"
proof -
  have "evolves (rw_db w) (rw_db w')"
    using steps_sound [OF assms(2)] reachable_ok [OF assms(1)] by (simp add: sound_def legal_def)
  then have rows: "rows_next job_next (jobs (rw_db w)) (jobs (rw_db w'))"
    "rows_next attempt_next (attempts (rw_db w)) (attempts (rw_db w'))"
    "rows_next request_next (requests (rw_db w)) (requests (rw_db w'))"
    "rows_next effect_next (effects (rw_db w)) (effects (rw_db w'))"
    "rows_next outbox_next (outbox (rw_db w)) (outbox (rw_db w'))"
    and rest: "\<exists>vs. audit (rw_db w') = audit (rw_db w) @ vs" "revision (rw_db w) \<le> revision (rw_db w')"
    by (simp_all add: evolves_def)
  show ?thesis
  proof (intro conjI ballI impI)
    fix a assume "a \<in> set (attempts (rw_db w))" "terminal_attempt (a_status a)"
    with rows(2) show "\<exists>b\<in>set (attempts (rw_db w')). a_id b = a_id a \<and> a_status b = a_status a"
      by (fastforce simp: rows_next_def attempt_next_def attempt_edit_def)
  next
    fix r assume "r \<in> set (requests (rw_db w))" "r_status r \<noteq> ApprovalPending"
    with rows(3) show "r \<in> set (requests (rw_db w'))" by (fastforce simp: rows_next_def request_next_def)
  next
    fix e assume "e \<in> set (effects (rw_db w))" "e_status e = EffectCompleted"
    with rows(4) show "e \<in> set (effects (rw_db w'))" by (fastforce simp: rows_next_def effect_next_def)
  next
    fix e assume "e \<in> set (outbox (rw_db w))" "o_processed_at e \<noteq> None"
    with rows(5) show "e \<in> set (outbox (rw_db w'))" by (fastforce simp: rows_next_def outbox_next_def)
  next
    fix j assume "j \<in> set (jobs (rw_db w))"
    with rows(1) obtain k where "k \<in> set (jobs (rw_db w'))" "job_next j k" by (auto simp: rows_next_def)
    then show "\<exists>k\<in>set (jobs (rw_db w')). j_id k = j_id j \<and> j_version j \<le> j_version k"
      by (auto simp: job_next_def)
  qed (use rest in auto)
qed

text \<open>A job is submitted, attempted and finished; then a late failure report arrives.\<close>

definition submitted_db :: store where
  "submitted_db = snd (submit_job sample_env 10 ''1'' ''1'' sample_request empty_store)"

definition attempted_db :: store where
  "attempted_db = snd (create_attempt sample_env 20 ''1'' ''job_1'' ''run_1'' AttemptRunning (Some ''w'') (Some 50) None
     ''read_only'' submitted_db)"

definition finished_db :: store where
  "finished_db = snd (finish_attempt sample_env 30 ''2'' ''attempt_1'' AttemptSucceeded None None True attempted_db)"

definition late_db :: store where
  "late_db = snd (finish_attempt sample_env 40 ''3'' ''attempt_1'' AttemptFailed None None True finished_db)"

lemma db_reachable: "reachable w \<Longrightarrow> db_step (rw_db w) s \<Longrightarrow> reachable (w\<lparr>rw_db := s\<rparr>)"
  unfolding reachable_def by (rule rtranclp.rtrancl_into_rtrancl) (auto intro: world_step.database)

lemma finished_reachable: "reachable (empty_world\<lparr>rw_db := finished_db\<rparr>)"
proof -
  have "reachable empty_world" by (simp add: reachable_def)
  then have "reachable (empty_world\<lparr>rw_db := submitted_db\<rparr>)"
    by (rule db_reachable) (simp add: empty_world_def submitted_db_def db_step.submit_job)
  from db_reachable [OF this, of attempted_db] have "reachable (empty_world\<lparr>rw_db := attempted_db\<rparr>)"
    by (simp add: attempted_db_def db_step.create_attempt)
  from db_reachable [OF this, of finished_db] show ?thesis
    by (simp add: finished_db_def db_step.finish_attempt)
qed

theorem reachable_well_formed_witness:
  "map a_status (attempts finished_db) = [AttemptSucceeded] \<and> db_ok finished_db"
proof
  show "map a_status (attempts finished_db) = [AttemptSucceeded]" by code_simp
  show "db_ok finished_db" using reachable_well_formed [OF finished_reachable] by simp
qed

theorem settled_facts_survive_witness:
  "\<exists>b\<in>set (attempts late_db). a_id b = ''attempt_1'' \<and> a_status b = AttemptSucceeded"
proof -
  have "world_step (empty_world\<lparr>rw_db := finished_db\<rparr>) ((empty_world\<lparr>rw_db := finished_db\<rparr>)\<lparr>rw_db := late_db\<rparr>)"
    by (rule world_step.database) (simp add: late_db_def db_step.finish_attempt)
  then have steps: "world_step\<^sup>*\<^sup>* (empty_world\<lparr>rw_db := finished_db\<rparr>) (empty_world\<lparr>rw_db := late_db\<rparr>)" by simp
  have "list_all (\<lambda>a. a_id a = ''attempt_1'' \<and> a_status a = AttemptSucceeded) (attempts finished_db)
    \<and> attempts finished_db \<noteq> []" by code_simp
  then obtain a where a: "a \<in> set (attempts (rw_db (empty_world\<lparr>rw_db := finished_db\<rparr>)))"
    and settled: "a_id a = ''attempt_1''" "a_status a = AttemptSucceeded"
    by (cases "attempts finished_db") (auto simp: list_all_iff)
  have "terminal_attempt (a_status a)" using settled(2) by (simp add: terminal_attempt_def)
  with settled_facts_survive [OF finished_reachable steps, THEN conjunct1] a
  have "\<exists>b\<in>set (attempts (rw_db (empty_world\<lparr>rw_db := late_db\<rparr>))). a_id b = a_id a \<and> a_status b = a_status a" by blast
  then show ?thesis by (simp add: settled)
qed

end
