(* ===== verification/Title_Arbitration.thy ===== *)
theory Title_Arbitration
  imports Samples Run_History
begin

text \<open>
  Arbitration of session titles (\<open>session_titles.py\<close>): claiming the generation of a fallback title,
  settling it, and promoting a title of the provider. Each operation reads the session, decides,
  and writes with \<open>update_session_if_revision\<close>, at most eight times. What other threads do to
  the store between the read and the write of a turn is a function of the turn (\<open>tt_rival\<close>).
  Float values (timeouts, the rounded duration) are opaque JSON values.
\<close>

section \<open>The loop over revisions\<close>

record title_turn =
  tt_rival :: "history \<Rightarrow> history"
  tt_now :: string
  tt_ns :: string

definition CAS_ATTEMPTS :: nat where
  "CAS_ATTEMPTS = 8"

fun cas_loop ::
    "env \<Rightarrow> string \<Rightarrow> (title_turn \<Rightarrow> session \<Rightarrow> session_patch option) \<Rightarrow> title_turn list \<Rightarrow> session option hop" where
  "cas_loop E sid decide [] hs = (Inr None, hs)"
| "cas_loop E sid decide (t # ts) hs =
     attempt_with (get_session sid hs) (\<lambda>s hs.
       case decide t s of
         None \<Rightarrow> (Inr None, hs)
       | Some p \<Rightarrow>
           (case update_session_if_revision E (tt_now t) (tt_ns t) sid (ss_updated_at s) p (tt_rival t hs) of
              (Inr None, hs') \<Rightarrow> cas_loop E sid decide ts hs'
            | r \<Rightarrow> r)) hs"

definition state_text :: "json \<Rightarrow> string \<Rightarrow> json" where
  "state_text state key = (case jget state key of None \<Rightarrow> JNull | Some v \<Rightarrow> v)"

section \<open>Fallback titles\<close>

record title_claim =
  tc_session_id :: string
  tc_run_id :: string
  tc_claim_id :: string
  tc_model :: "string option"
  tc_timeout :: json

record title_generation =
  gn_title :: string
  gn_status :: string
  gn_duration :: json
  gn_usage :: "(string \<times> json) list"
  gn_failure_kind :: "string option"

definition has_provenance :: "provenance \<Rightarrow> json \<Rightarrow> bool" where
  "has_provenance p state = (state_text state ''provenance'' = JStr (provenance_value p))"

definition claim_patch :: "title_claim \<Rightarrow> title_turn \<Rightarrow> session \<Rightarrow> session_patch option" where
  "claim_patch c t s =
     (let state = title_state (ss_metadata s) in
      if \<not> has_provenance UNTITLED state \<or> state_text state ''status'' \<noteq> JStr ''idle'' then None
      else Some (no_patch\<lparr>sx_metadata := Some (metadata_with_state (ss_metadata s) (JObj [
         (''schema_version'', JInt 1), (''provenance'', JStr (provenance_value UNTITLED)),
         (''status'', JStr ''pending''), (''source'', JStr ''bounded_fallback''),
         (''bound_run_id'', JStr (tc_run_id c)), (''claim_id'', JStr (tc_claim_id c)),
         (''model'', opt_json (tc_model c)), (''timeout_seconds'', tc_timeout c),
         (''cost'', JObj [(''knowledge'', JStr ''unknown'')]), (''updated_at'', JStr (tt_ns t))]))\<rparr>))"

definition claim_fallback_title :: "env \<Rightarrow> title_claim \<Rightarrow> title_turn list \<Rightarrow> title_claim option hop" where
  "claim_fallback_title E c turns hs =
     (case cas_loop E (tc_session_id c) (claim_patch c) (take CAS_ATTEMPTS turns) hs of
        (Inl e, hs') \<Rightarrow> (Inl e, hs')
      | (Inr None, hs') \<Rightarrow> (Inr None, hs')
      | (Inr (Some _), hs') \<Rightarrow> (Inr (Some c), hs'))"

definition bounded_usage :: "(string \<times> json) list \<Rightarrow> json" where
  "bounded_usage usage = JObj (filter (\<lambda>kv. fst kv \<in> {''input_tokens'', ''output_tokens'', ''total_tokens''}
     \<and> (case snd kv of JInt n \<Rightarrow> 0 \<le> n | _ \<Rightarrow> False)) usage)"

definition pending_for :: "title_claim \<Rightarrow> json \<Rightarrow> bool" where
  "pending_for c state = (has_provenance UNTITLED state \<and> state_text state ''status'' = JStr ''pending''
     \<and> state_text state ''bound_run_id'' = JStr (tc_run_id c) \<and> state_text state ''claim_id'' = JStr (tc_claim_id c))"

definition complete_patch :: "title_claim \<Rightarrow> title_generation \<Rightarrow> title_turn \<Rightarrow> session \<Rightarrow> session_patch option" where
  "complete_patch c g t s =
     (if \<not> pending_for c (title_state (ss_metadata s)) then None
      else Some (no_patch\<lparr>sx_title := Some (gn_title g), sx_metadata := Some (metadata_with_state (ss_metadata s) (JObj [
         (''schema_version'', JInt 1), (''provenance'', JStr (provenance_value FALLBACK)),
         (''status'', JStr (gn_status g)), (''source'', JStr ''bounded_fallback''),
         (''bound_run_id'', JStr (tc_run_id c)), (''model'', opt_json (tc_model c)),
         (''timeout_seconds'', tc_timeout c), (''duration_ms'', gn_duration g),
         (''usage'', bounded_usage (gn_usage g)), (''cost'', JObj [(''knowledge'', JStr ''unknown'')]),
         (''failure_kind'', opt_json (gn_failure_kind g)), (''updated_at'', JStr (tt_ns t))]))\<rparr>))"

definition complete_fallback_title :: "env \<Rightarrow> title_claim \<Rightarrow> title_generation \<Rightarrow> title_turn list \<Rightarrow> session option hop" where
  "complete_fallback_title E c g turns = cas_loop E (tc_session_id c) (complete_patch c g) (take CAS_ATTEMPTS turns)"

section \<open>Titles of the provider\<close>

definition promotable :: "string \<Rightarrow> json \<Rightarrow> bool" where
  "promotable run_id state = ((has_provenance UNTITLED state \<or> has_provenance FALLBACK state)
     \<and> state_text state ''bound_run_id'' \<in> {JNull, JStr run_id})"

definition native_patch ::
    "string \<Rightarrow> string \<Rightarrow> string \<Rightarrow> string option \<Rightarrow> title_turn \<Rightarrow> session \<Rightarrow> session_patch option" where
  "native_patch title run_id provider source_id t s =
     (if \<not> promotable run_id (title_state (ss_metadata s)) then None
      else Some (no_patch\<lparr>sx_title := Some title, sx_metadata := Some (metadata_with_state (ss_metadata s) (JObj [
         (''schema_version'', JInt 1), (''provenance'', JStr (provenance_value PROVIDER_NATIVE)),
         (''status'', JStr ''settled''), (''source'', JStr provider), (''source_id'', opt_json source_id),
         (''bound_run_id'', JStr run_id), (''updated_at'', JStr (tt_ns t))]))\<rparr>))"

definition native_title :: "string \<Rightarrow> string" where
  "native_title title = take 512 (strip (join '' '' (split_words title)))"

definition apply_provider_native_title ::
    "env \<Rightarrow> string \<Rightarrow> string \<Rightarrow> string \<Rightarrow> string \<Rightarrow> string option \<Rightarrow> title_turn list \<Rightarrow> session option hop" where
  "apply_provider_native_title E sid title run_id provider source_id turns hs =
     (let normalized = native_title title in
      if normalized = [] then (Inr None, hs)
      else cas_loop E sid (native_patch normalized run_id provider source_id) (take CAS_ATTEMPTS turns) hs)"

section \<open>What a write found\<close>

text \<open>Rivals never write a session without a step of its revision.\<close>

definition honest :: "string \<Rightarrow> title_turn \<Rightarrow> bool" where
  "honest sid t = (\<forall>hs s s'. get_session sid hs = Inr s \<longrightarrow> get_session sid (tt_rival t hs) = Inr s'
     \<longrightarrow> ss_updated_at s' = ss_updated_at s \<longrightarrow> s' = s)"

lemma update_if_revision_Some:
  assumes "update_session_if_revision E now ns sid expected p h = (Inr (Some u), h')"
  obtains s where "get_session sid h = Inr s" "ss_updated_at s = expected" "patch_session E now ns s p = Inr u"
    "h' = put_session u sid h"
  using assms by (auto simp: update_session_if_revision_def update_session_if_def attempt_with_def split: sum.splits if_splits)

lemma update_if_revision_None:
  "update_session_if_revision E now ns sid expected p h = (Inr None, h') \<Longrightarrow> h' = h"
  by (auto simp: update_session_if_revision_def update_session_if_def attempt_with_def split: sum.splits if_splits)

lemma update_if_revision_Inl:
  "update_session_if_revision E now ns sid expected p h = (Inl e, h') \<Longrightarrow> h' = h"
  by (auto simp: update_session_if_revision_def update_session_if_def attempt_with_def split: sum.splits if_splits)

text \<open>
  A successful loop wrote one patch onto the very session it had decided on, in the store the
  rivals of its turns had made.
\<close>

lemma cas_loop_wrote:
  assumes "cas_loop E sid decide ts hs = (Inr (Some u), hs')" "\<forall>t\<in>set ts. honest sid t"
  shows "\<exists>n t s p. n < length ts \<and> decide t s = Some p \<and> patch_session E (tt_now t) (tt_ns t) s p = Inr u
    \<and> get_session sid (fold tt_rival (take (Suc n) ts) hs) = Inr s
    \<and> hs' = put_session u sid (fold tt_rival (take (Suc n) ts) hs)"
  using assms
proof (induction ts arbitrary: hs)
  case Nil
  then show ?case by simp
next
  case (Cons t ts)
  from Cons.prems(1) obtain s p where s: "get_session sid hs = Inr s" and p: "decide t s = Some p"
    and run: "(case update_session_if_revision E (tt_now t) (tt_ns t) sid (ss_updated_at s) p (tt_rival t hs) of
              (Inr None, hs') \<Rightarrow> cas_loop E sid decide ts hs' | r \<Rightarrow> r) = (Inr (Some u), hs')"
    by (auto simp: attempt_with_def split: sum.splits option.splits)
  obtain r h where up: "update_session_if_revision E (tt_now t) (tt_ns t) sid (ss_updated_at s) p (tt_rival t hs) = (r, h)"
    by fastforce
  show ?case
  proof (cases "r = Inr None")
    case True
    then have "h = tt_rival t hs" using up update_if_revision_None by blast
    with True run up have "cas_loop E sid decide ts (tt_rival t hs) = (Inr (Some u), hs')" by simp
    from Cons.IH [OF this] Cons.prems(2) obtain n t' s' p' where
      "n < length ts" "decide t' s' = Some p'" "patch_session E (tt_now t') (tt_ns t') s' p' = Inr u"
      "get_session sid (fold tt_rival (take (Suc n) ts) (tt_rival t hs)) = Inr s'"
      "hs' = put_session u sid (fold tt_rival (take (Suc n) ts) (tt_rival t hs))"
      by auto
    then show ?thesis
      by (intro exI [of _ "Suc n"] exI [of _ t'] exI [of _ s'] exI [of _ p']) simp
  next
    case False
    then have "r = Inr (Some u)" "h = hs'" using run up by (auto split: sum.splits option.splits)
    with up obtain s' where s': "get_session sid (tt_rival t hs) = Inr s'" "ss_updated_at s' = ss_updated_at s"
      "patch_session E (tt_now t) (tt_ns t) s' p = Inr u" "hs' = put_session u sid (tt_rival t hs)"
      by (auto elim: update_if_revision_Some)
    have "s' = s" using Cons.prems(2) s s' by (auto simp: honest_def)
    with s' p show ?thesis
      by (intro exI [of _ 0] exI [of _ t] exI [of _ s] exI [of _ p]) simp
  qed
qed

text \<open>A loop that wrote nothing leaves what the rivals made of the store.\<close>

lemma cas_loop_quiet:
  assumes "cas_loop E sid decide ts hs = (r, hs')" "\<And>u. r \<noteq> Inr (Some u)"
  shows "\<exists>n \<le> length ts. hs' = fold tt_rival (take n ts) hs"
  using assms
proof (induction ts arbitrary: hs)
  case Nil
  then show ?case by simp
next
  case (Cons t ts)
  show ?case
  proof (cases "get_session sid hs")
    case (Inl e)
    with Cons.prems show ?thesis by (intro exI [of _ 0]) (simp add: attempt_with_def)
  next
    case s: (Inr s)
    show ?thesis
    proof (cases "decide t s")
      case None
      with s Cons.prems show ?thesis by (intro exI [of _ 0]) (simp add: attempt_with_def)
    next
      case p: (Some p)
      obtain q h where up: "update_session_if_revision E (tt_now t) (tt_ns t) sid (ss_updated_at s) p (tt_rival t hs) = (q, h)"
        by fastforce
      show ?thesis
      proof (cases "q = Inr None")
        case True
        then have h: "h = tt_rival t hs" using up update_if_revision_None by blast
        with True up s p Cons.prems(1) have "cas_loop E sid decide ts (tt_rival t hs) = (r, hs')"
          by (simp add: attempt_with_def)
        then obtain n where "n \<le> length ts" "hs' = fold tt_rival (take n ts) (tt_rival t hs)"
          using Cons.IH Cons.prems(2) by blast
        then show ?thesis by (intro exI [of _ "Suc n"]) simp
      next
        case False
        then have "r = q" "hs' = h" using up s p Cons.prems(1)
          by (auto simp: attempt_with_def split: sum.splits option.splits)
        then obtain e where "q = Inl e" using Cons.prems(2) False by (cases q) auto
        then have "hs' = tt_rival t hs" using up update_if_revision_Inl \<open>hs' = h\<close> by blast
        then show ?thesis by (intro exI [of _ "Suc 0"]) simp
      qed
    qed
  qed
qed

section \<open>Authority\<close>

lemma has_provenance_unique: "has_provenance p state \<Longrightarrow> has_provenance q state \<Longrightarrow> q = p"
  by (cases p; cases q) (simp_all add: has_provenance_def)

lemma patch_session_title:
  "patch_session E now ns s p = Inr u \<Longrightarrow> ss_title u = (case sx_title p of None \<Rightarrow> ss_title s | Some t \<Rightarrow> title_from_prompt t)"
  by (auto simp: patch_session_def and_then_Inr_iff title_or_default_def split: option.split)

lemma no_patch_title [simp]: "sx_title no_patch = None"
  by (simp add: no_patch_def)

lemma set_take_turns: "\<forall>t\<in>set ts. P t \<Longrightarrow> \<forall>t\<in>set (take n ts). P t"
  by (auto dest: in_set_takeD)

text \<open>
  The write of some turn: the store is what the rivals up to this turn made of the first one, it
  holds a session with \<open>P\<close>, and only this session is replaced.
\<close>

definition wrote_onto ::
    "title_turn list \<Rightarrow> history \<Rightarrow> string \<Rightarrow> (session \<Rightarrow> bool) \<Rightarrow> session \<Rightarrow> history \<Rightarrow> bool" where
  "wrote_onto turns hs sid P u hs' \<longleftrightarrow> (\<exists>n s. n < CAS_ATTEMPTS \<and> n < length turns
     \<and> get_session sid (fold tt_rival (take (Suc n) turns) hs) = Inr s \<and> P s
     \<and> hs' = put_session u sid (fold tt_rival (take (Suc n) turns) hs))"

definition only_rivals :: "title_turn list \<Rightarrow> history \<Rightarrow> history \<Rightarrow> bool" where
  "only_rivals turns hs hs' \<longleftrightarrow> (\<exists>n \<le> CAS_ATTEMPTS. hs' = fold tt_rival (take n turns) hs)"

text \<open>Every loop either writes onto a session it decided on, or writes nothing.\<close>

lemma cas_outcome:
  assumes honest: "\<forall>t\<in>set turns. honest sid t"
    and decided: "\<And>t s p u. decide t s = Some p \<Longrightarrow> patch_session E (tt_now t) (tt_ns t) s p = Inr u \<Longrightarrow> P s u"
    and run: "cas_loop E sid decide (take CAS_ATTEMPTS turns) hs = (r, hs')"
  shows "case r of Inr (Some u) \<Rightarrow> wrote_onto turns hs sid (\<lambda>s. P s u) u hs' | _ \<Rightarrow> only_rivals turns hs hs'"
proof (cases "\<exists>u. r = Inr (Some u)")
  case True
  then obtain u where r: "r = Inr (Some u)" by blast
  obtain n t s p where n: "n < length (take CAS_ATTEMPTS turns)" and p: "decide t s = Some p"
    "patch_session E (tt_now t) (tt_ns t) s p = Inr u"
    and h: "get_session sid (fold tt_rival (take (Suc n) (take CAS_ATTEMPTS turns)) hs) = Inr s"
      "hs' = put_session u sid (fold tt_rival (take (Suc n) (take CAS_ATTEMPTS turns)) hs)"
    using cas_loop_wrote [OF run [unfolded r] set_take_turns [OF honest]] by (elim exE conjE)
  have bound: "n < CAS_ATTEMPTS" "n < length turns" using n by simp_all
  then have "take (Suc n) (take CAS_ATTEMPTS turns) = take (Suc n) turns" by (simp add: min_def)
  note h = h [unfolded this]
  have "wrote_onto turns hs sid (\<lambda>s. P s u) u hs'"
    unfolding wrote_onto_def using bound h decided [OF p] by (intro exI [of _ n] exI [of _ s] conjI)
  then show ?thesis unfolding r by simp
next
  case False
  then have "r \<noteq> Inr (Some u)" for u by blast
  then obtain n where n: "n \<le> length (take CAS_ATTEMPTS turns)" "hs' = fold tt_rival (take n (take CAS_ATTEMPTS turns)) hs"
    using cas_loop_quiet [OF run] by blast
  then have "n \<le> CAS_ATTEMPTS" by simp
  then have "only_rivals turns hs hs'" unfolding only_rivals_def using n(2) by (intro exI [of _ n]) (simp add: min_absorb1)
  with False show ?thesis by (auto split: sum.split option.split)
qed

text \<open>What the three operations require of the session they write onto, and what they write.\<close>

definition claimed_from :: "session \<Rightarrow> session \<Rightarrow> bool" where
  "claimed_from s u = (has_provenance UNTITLED (title_state (ss_metadata s))
     \<and> state_text (title_state (ss_metadata s)) ''status'' = JStr ''idle'' \<and> ss_title u = ss_title s)"

definition settled_from :: "title_claim \<Rightarrow> title_generation \<Rightarrow> session \<Rightarrow> session \<Rightarrow> bool" where
  "settled_from c g s u = (pending_for c (title_state (ss_metadata s))
     \<and> \<not> has_provenance MANUAL (title_state (ss_metadata s)) \<and> ss_title u = title_from_prompt (gn_title g))"

definition promoted_from :: "string \<Rightarrow> string \<Rightarrow> session \<Rightarrow> session \<Rightarrow> bool" where
  "promoted_from run_id title s u = (promotable run_id (title_state (ss_metadata s))
     \<and> \<not> has_provenance MANUAL (title_state (ss_metadata s)) \<and> ss_title u = title_from_prompt (native_title title))"

lemma claim_decided:
  "claim_patch c t s = Some p \<Longrightarrow> patch_session E (tt_now t) (tt_ns t) s p = Inr u \<Longrightarrow> claimed_from s u"
  by (auto simp: claim_patch_def claimed_from_def Let_def split: if_splits dest: patch_session_title)

lemma complete_decided:
  "complete_patch c g t s = Some p \<Longrightarrow> patch_session E (tt_now t) (tt_ns t) s p = Inr u \<Longrightarrow> settled_from c g s u"
  by (auto simp: complete_patch_def settled_from_def pending_for_def split: if_splits
      dest: patch_session_title has_provenance_unique)

lemma native_decided:
  "native_patch (native_title title) run_id provider source_id t s = Some p \<Longrightarrow>
   patch_session E (tt_now t) (tt_ns t) s p = Inr u \<Longrightarrow> promoted_from run_id title s u"
  by (auto simp: native_patch_def promoted_from_def promotable_def split: if_splits
      dest: patch_session_title has_provenance_unique)

lemma rivals_nothing: "only_rivals turns hs hs"
  unfolding only_rivals_def by (intro exI [of _ 0]) simp

lemma claim_outcome:
  assumes "\<forall>t\<in>set turns. honest (tc_session_id c) t"
  shows "case claim_fallback_title E c turns hs of
       (Inr (Some d), hs') \<Rightarrow> d = c \<and> (\<exists>u. wrote_onto turns hs (tc_session_id c) (\<lambda>s. claimed_from s u) u hs')
     | (_, hs') \<Rightarrow> only_rivals turns hs hs'"
proof -
  obtain r h where run: "cas_loop E (tc_session_id c) (claim_patch c) (take CAS_ATTEMPTS turns) hs = (r, h)" by fastforce
  have "case r of Inr (Some u) \<Rightarrow> wrote_onto turns hs (tc_session_id c) (\<lambda>s. claimed_from s u) u h | _ \<Rightarrow> only_rivals turns hs h"
    by (rule cas_outcome [OF assms _ run]) (rule claim_decided)
  then show ?thesis unfolding claim_fallback_title_def run by (auto split: sum.split option.split)
qed

lemma complete_outcome:
  assumes "\<forall>t\<in>set turns. honest (tc_session_id c) t"
  shows "case complete_fallback_title E c g turns hs of
       (Inr (Some u), hs') \<Rightarrow> wrote_onto turns hs (tc_session_id c) (\<lambda>s. settled_from c g s u) u hs'
     | (_, hs') \<Rightarrow> only_rivals turns hs hs'"
proof -
  obtain r h where run: "cas_loop E (tc_session_id c) (complete_patch c g) (take CAS_ATTEMPTS turns) hs = (r, h)" by fastforce
  have "case r of Inr (Some u) \<Rightarrow> wrote_onto turns hs (tc_session_id c) (\<lambda>s. settled_from c g s u) u h | _ \<Rightarrow> only_rivals turns hs h"
    by (rule cas_outcome [OF assms _ run]) (rule complete_decided)
  then show ?thesis unfolding complete_fallback_title_def run by (simp split: sum.split option.split)
qed

lemma native_outcome:
  assumes "\<forall>t\<in>set turns. honest sid t"
  shows "case apply_provider_native_title E sid title run_id provider source_id turns hs of
       (Inr (Some u), hs') \<Rightarrow> wrote_onto turns hs sid (\<lambda>s. promoted_from run_id title s u) u hs'
     | (_, hs') \<Rightarrow> only_rivals turns hs hs'"
proof -
  obtain r h where run: "cas_loop E sid (native_patch (native_title title) run_id provider source_id)
      (take CAS_ATTEMPTS turns) hs = (r, h)" by fastforce
  have "case r of Inr (Some u) \<Rightarrow> wrote_onto turns hs sid (\<lambda>s. promoted_from run_id title s u) u h | _ \<Rightarrow> only_rivals turns hs h"
    by (rule cas_outcome [OF assms _ run]) (rule native_decided)
  then show ?thesis unfolding apply_provider_native_title_def Let_def using run rivals_nothing
    by (simp split: sum.split option.split)
qed

text \<open>
  C11. Generated titles respect authority under any interleaving. Provided other threads never change a
  session without changing its revision, each operation either leaves exactly what the other
  threads made of the store in its turns, or it replaces one session in what they made of it up
  to the write: a claim is taken from a session that is untitled and idle there and keeps its
  title; a fallback title is set only while the session is still untitled and pending for exactly
  this claim; a provider title only replaces an untitled or fallback title that is not bound to
  another run. So a manual title is never overwritten.
\<close>

theorem generated_titles_respect_authority:
  assumes "\<forall>t\<in>set turns. honest (tc_session_id c) t"
  shows "(case claim_fallback_title E c turns hs of
       (Inr (Some d), hs') \<Rightarrow> d = c \<and> (\<exists>u. wrote_onto turns hs (tc_session_id c) (\<lambda>s. claimed_from s u) u hs')
     | (_, hs') \<Rightarrow> only_rivals turns hs hs')
   \<and> (case complete_fallback_title E c g turns hs of
       (Inr (Some u), hs') \<Rightarrow> wrote_onto turns hs (tc_session_id c) (\<lambda>s. settled_from c g s u) u hs'
     | (_, hs') \<Rightarrow> only_rivals turns hs hs')
   \<and> (case apply_provider_native_title E (tc_session_id c) title run_id provider source_id turns hs of
       (Inr (Some u), hs') \<Rightarrow> wrote_onto turns hs (tc_session_id c) (\<lambda>s. promoted_from run_id title s u) u hs'
     | (_, hs') \<Rightarrow> only_rivals turns hs hs')"
  by (intro conjI claim_outcome [OF assms] complete_outcome [OF assms] native_outcome [OF assms])

text \<open>A pending claim settles on an untouched session.\<close>

definition pending_session :: session where
  "pending_session = sample_session\<lparr>ss_metadata := JObj [(TITLE_STATE, JObj [
     (''schema_version'', JInt 1), (''provenance'', JStr ''untitled''), (''status'', JStr ''pending''),
     (''bound_run_id'', JStr ''run_1''), (''claim_id'', JStr ''c1''), (''updated_at'', JStr ''5'')])]\<rparr>"

definition sample_claim :: title_claim where
  "sample_claim = \<lparr>tc_session_id = ''s'', tc_run_id = ''run_1'', tc_claim_id = ''c1'', tc_model = None, tc_timeout = JInt 5\<rparr>"

definition sample_generation :: title_generation where
  "sample_generation = \<lparr>gn_title = ''Fix the parser'', gn_status = ''settled'', gn_duration = JInt 7, gn_usage = [],
     gn_failure_kind = None\<rparr>"

definition quiet_turn :: title_turn where
  "quiet_turn = \<lparr>tt_rival = id, tt_now = ''20'', tt_ns = ''8''\<rparr>"

theorem generated_titles_respect_authority_witness:
  "\<exists>u. wrote_onto [quiet_turn] (sample_history\<lparr>hs_sessions := [(''s'', pending_session)]\<rparr>) ''s'' (\<lambda>s. settled_from sample_claim sample_generation s u) u
     (snd (complete_fallback_title sample_env sample_claim sample_generation [quiet_turn]
        (sample_history\<lparr>hs_sessions := [(''s'', pending_session)]\<rparr>)))"
proof -
  let ?hs = "sample_history\<lparr>hs_sessions := [(''s'', pending_session)]\<rparr>"
  let ?run = "complete_fallback_title sample_env sample_claim sample_generation [quiet_turn] ?hs"
  have honest: "\<forall>t\<in>set [quiet_turn]. honest (tc_session_id sample_claim) t"
    by (simp add: honest_def quiet_turn_def)
  have "case fst ?run of Inr (Some u) \<Rightarrow> True | _ \<Rightarrow> False" by code_simp
  then obtain u h where run: "?run = (Inr (Some u), h)" by (cases ?run) (auto split: sum.splits option.splits)
  have "case ?run of (Inr (Some u), hs') \<Rightarrow> wrote_onto [quiet_turn] ?hs (tc_session_id sample_claim) (\<lambda>s. settled_from sample_claim sample_generation s u) u hs'
     | (_, hs') \<Rightarrow> only_rivals [quiet_turn] ?hs hs'"
    by (rule generated_titles_respect_authority [OF honest, THEN conjunct2, THEN conjunct1])
  then have "wrote_onto [quiet_turn] ?hs (tc_session_id sample_claim) (\<lambda>s. settled_from sample_claim sample_generation s u) u h"
    unfolding run by simp
  then show ?thesis unfolding run by (auto simp: sample_claim_def)
qed

end
