(* ===== verification/Redaction.thy ===== *)
theory Redaction
  imports Samples
begin

text \<open>
  What \<open>redact_secrets\<close> (\<open>core/redaction.py\<close>) promises to every store that persists a value: no
  text of the input survives without having passed the text redaction, nothing under a
  secret-looking key survives at any depth, and an object keeps its keys. The text redaction
  itself (regular expressions and values of environment variables) is a parameter.
\<close>

text \<open>The text leaves of a value, and the entries of its objects at any depth.\<close>

fun texts :: "json \<Rightarrow> string set" where
  "texts (JStr s) = {s}"
| "texts (JList xs) = \<Union> (texts ` set xs)"
| "texts (JObj kvs) = \<Union> ((\<lambda>kv. texts (snd kv)) ` set kvs)"
| "texts _ = {}"

text \<open>The text leaves that no secret-looking key hides.\<close>

fun open_texts :: "json \<Rightarrow> string set" where
  "open_texts (JStr s) = {s}"
| "open_texts (JList xs) = \<Union> (open_texts ` set xs)"
| "open_texts (JObj kvs) = \<Union> ((\<lambda>kv.
     if secret_key (lower (fst kv)) \<and> \<not> (lower (fst kv) \<in> set SAFE_USAGE_DETAIL_KEYS \<and> is_mapping (snd kv)) then {}
     else open_texts (snd kv)) ` set kvs)"
| "open_texts _ = {}"

text \<open>
  Under a secret-looking key only the placeholder, a non-negative usage count or the details of a
  usage remain.
\<close>

fun hidden_entry :: "string \<Rightarrow> json \<Rightarrow> bool" where
  "hidden_entry key v = (secret_key (lower key) \<longrightarrow>
     v = JStr REDACTED \<or> is_safe_numeric_usage (lower key) v
     \<or> (lower key \<in> set SAFE_USAGE_DETAIL_KEYS \<and> is_mapping v))"

fun hides :: "json \<Rightarrow> bool" where
  "hides (JList xs) = (\<forall>x\<in>set xs. hides x)"
| "hides (JObj kvs) = (\<forall>kv\<in>set kvs. hidden_entry (fst kv) (snd kv) \<and> hides (snd kv))"
| "hides _ = True"

lemma redact_mapping [simp]: "is_mapping (redact_secrets rt v) = is_mapping v"
  by (cases v) simp_all

lemma safe_usage_Int: "is_safe_numeric_usage k v \<Longrightarrow> \<exists>n. v = JInt n"
  by (cases v) simp_all

definition redacted_entry :: "(string \<Rightarrow> string) \<Rightarrow> string \<Rightarrow> json \<Rightarrow> json" where
  "redacted_entry rt k v = (if is_safe_numeric_usage (lower k) v then v
     else if lower k \<in> set SAFE_USAGE_DETAIL_KEYS \<and> is_mapping v then redact_secrets rt v
     else if secret_key (lower k) then JStr REDACTED else redact_secrets rt v)"

lemma redact_object: "redact_secrets rt (JObj kvs) = JObj (map (\<lambda>kv. (fst kv, redacted_entry rt (fst kv) (snd kv))) kvs)"
  by (simp add: redacted_entry_def Let_def)

lemma redacted_entry_cases:
  obtains (Usage) n where "v = JInt n" "redacted_entry rt k v = v" "is_safe_numeric_usage (lower k) v"
  | (Hidden) "redacted_entry rt k v = JStr REDACTED" "secret_key (lower k)" "\<not> is_safe_numeric_usage (lower k) v"
      "\<not> (lower k \<in> set SAFE_USAGE_DETAIL_KEYS \<and> is_mapping v)"
  | (Walked) "redacted_entry rt k v = redact_secrets rt v" "\<not> is_safe_numeric_usage (lower k) v"
      "secret_key (lower k) \<longrightarrow> lower k \<in> set SAFE_USAGE_DETAIL_KEYS \<and> is_mapping v"
proof (cases "is_safe_numeric_usage (lower k) v")
  case True
  then obtain n where "v = JInt n" using safe_usage_Int by blast
  with True show thesis by (intro Usage) (simp_all add: redacted_entry_def)
next
  case False
  show thesis
  proof (cases "secret_key (lower k) \<longrightarrow> lower k \<in> set SAFE_USAGE_DETAIL_KEYS \<and> is_mapping v")
    case True
    with False show thesis by (intro Walked) (auto simp: redacted_entry_def)
  next
    case hidden: False
    with False show thesis by (intro Hidden) (auto simp: redacted_entry_def)
  qed
qed

lemma redacted_keys: "map fst (items (redact_secrets rt v)) = map fst (items v)"
proof (cases v)
  case (JObj kvs)
  show ?thesis unfolding JObj redact_object by (simp add: comp_def)
qed simp_all

lemma redacted_texts: "texts (redact_secrets rt v) \<subseteq> insert REDACTED (rt ` open_texts v)"
proof (induction v rule: open_texts.induct)
  case (3 kvs)
  have "texts (redacted_entry rt (fst kv) (snd kv)) \<subseteq> insert REDACTED (rt ` open_texts (JObj kvs))" if "kv \<in> set kvs" for kv
  proof (cases rule: redacted_entry_cases [of "snd kv" rt "fst kv"])
    case Walked
    then have open_kv: "\<not> (secret_key (lower (fst kv)) \<and> \<not> (lower (fst kv) \<in> set SAFE_USAGE_DETAIL_KEYS \<and> is_mapping (snd kv)))"
      by blast
    then have "open_texts (snd kv) \<subseteq> open_texts (JObj kvs)" using that by auto
    moreover have "texts (redact_secrets rt (snd kv)) \<subseteq> insert REDACTED (rt ` open_texts (snd kv))"
      by (rule 3 [OF that open_kv])
    moreover have "insert REDACTED (rt ` open_texts (snd kv)) \<subseteq> insert REDACTED (rt ` open_texts (JObj kvs))"
      using calculation(1) by (intro insert_mono image_mono)
    ultimately show ?thesis unfolding Walked(1) by (meson subset_trans)
  qed (simp_all del: open_texts.simps)
  then have "(\<Union>kv\<in>set kvs. texts (redacted_entry rt (fst kv) (snd kv))) \<subseteq> insert REDACTED (rt ` open_texts (JObj kvs))"
    by (rule UN_least)
  then show ?case unfolding redact_object by (simp add: image_image del: open_texts.simps)
qed auto

lemma redacted_hides: "hides (redact_secrets rt v)"
proof (induction v rule: texts.induct)
  case (3 kvs)
  have "hidden_entry (fst kv) (redacted_entry rt (fst kv) (snd kv)) \<and> hides (redacted_entry rt (fst kv) (snd kv))"
    if "kv \<in> set kvs" for kv
    using 3 [OF that] by (cases rule: redacted_entry_cases [of "snd kv" rt "fst kv"]) auto
  then show ?case unfolding redact_object by auto
qed auto

text \<open>
  C12. Stored values are redacted. After redaction every text leaf is the placeholder or the outcome of
  the text redaction on a text of the value that no secret-looking key hides, every entry under a
  secret-looking key at any depth is the placeholder, a usage count or a walked usage detail, and
  an object keeps its keys in their order.
\<close>

theorem redaction_hides_secrets:
  "texts (redact_for_storage E v) \<subseteq> insert REDACTED (redact_text E ` open_texts v)
    \<and> hides (redact_for_storage E v)
    \<and> map fst (items (redact_for_storage E v)) = map fst (items v)"
  unfolding redact_for_storage_def
  by (intro conjI redacted_texts redacted_hides redacted_keys)

theorem redaction_hides_secrets_witness:
  "redact_for_storage sample_env (JObj [(''user'', JStr ''u''), (''nested'', JList [JObj [(''api_key'', JStr ''k'')]])])
     = JObj [(''user'', JStr ''u''), (''nested'', JList [JObj [(''api_key'', JStr REDACTED)]])]
   \<and> texts (redact_for_storage sample_env (JObj [(''user'', JStr ''u''), (''nested'', JList [JObj [(''api_key'', JStr ''k'')]])]))
     \<subseteq> {REDACTED, ''u''}"
proof
  let ?v = "JObj [(''user'', JStr ''u''), (''nested'', JList [JObj [(''api_key'', JStr ''k'')]])]"
  show "redact_for_storage sample_env ?v
     = JObj [(''user'', JStr ''u''), (''nested'', JList [JObj [(''api_key'', JStr REDACTED)]])]" by code_simp
  have "secret_key (lower ''api_key'') \<and> lower ''api_key'' \<notin> set SAFE_USAGE_DETAIL_KEYS" by code_simp
  then have "open_texts ?v \<subseteq> {''u''}" by auto
  moreover have "redact_text sample_env ''u'' = ''u''" by code_simp
  ultimately have "redact_text sample_env ` open_texts ?v \<subseteq> {''u''}" by auto
  with redaction_hides_secrets [of sample_env ?v, THEN conjunct1]
  show "texts (redact_for_storage sample_env ?v) \<subseteq> {REDACTED, ''u''}" by blast
qed

end
