(* ===== verification/Job_Pages.thy ===== *)
theory Job_Pages
  imports Jobs
begin

text \<open>
  Reading all jobs through the cursor pages of \<open>list_jobs_page\<close> (\<open>runtime/jobs/repository.py\<close>): a
  client that follows the key of the last row of each page reads every matching job once, newest
  first, and ends.
\<close>

definition job_order :: "job \<Rightarrow> time \<times> string" where
  "job_order j = (j_created_at j, j_id j)"

text \<open>The filters of a request after their validation.\<close>

definition job_filters :: "string option \<Rightarrow> string option \<Rightarrow> (string option \<times> string option) result" where
  "job_filters project_id harness_id =
     and_then (case project_id of None \<Rightarrow> Inr None
                | Some p \<Rightarrow> and_then (required_text p ''project_id'') (\<lambda>t. Inr (Some t))) (\<lambda>project.
     and_then (case harness_id of None \<Rightarrow> Inr None
                | Some h \<Rightarrow> and_then (required_text h ''harness_id'') (\<lambda>t. Inr (Some t))) (\<lambda>harness.
       Inr (project, harness)))"

definition wanted :: "job_status list \<Rightarrow> string option \<times> string option \<Rightarrow> job \<Rightarrow> bool" where
  "wanted statuses filters j = ((statuses = [] \<or> j_status j \<in> set statuses)
     \<and> (fst filters = None \<or> j_project_id j = fst filters)
     \<and> (snd filters = None \<or> j_required_harness_id j = snd filters))"

definition newest_first :: "job_status list \<Rightarrow> string option \<times> string option \<Rightarrow> store \<Rightarrow> job list" where
  "newest_first statuses filters s = rev (order_by job_order (filter (wanted statuses filters) (jobs s)))"

definition below :: "(time \<times> string) option \<Rightarrow> job \<Rightarrow> bool" where
  "below cursor j = (case cursor of None \<Rightarrow> True | Some c \<Rightarrow> job_order j < c)"

definition page_size :: "int \<Rightarrow> nat" where
  "page_size limit = nat (max 1 (min limit 100))"

lemma page_size_pos: "0 < page_size limit" "page_size limit \<le> 100"
  by (simp_all add: page_size_def)

lemma list_jobs_page_alt:
  "list_jobs_page statuses project_id harness_id cursor limit s =
     and_then (job_filters project_id harness_id) (\<lambda>f.
       let rows = filter (below cursor) (newest_first statuses f s)
       in Inr (take (page_size limit) rows, page_size limit < length rows))"
proof -
  have "order_by job_order (filter (\<lambda>j. (statuses = [] \<or> j_status j \<in> set statuses)
        \<and> (project = None \<or> j_project_id j = project) \<and> (harness = None \<or> j_required_harness_id j = harness)
        \<and> (case cursor of None \<Rightarrow> True | Some c \<Rightarrow> (j_created_at j, j_id j) < c)) js)
      = filter (below cursor) (order_by job_order (filter (wanted statuses (project, harness)) js))" for project harness js
    unfolding order_by_def filter_sort filter_filter
    by (intro arg_cong [where f = "sort_key job_order"] filter_cong) (cases cursor; auto simp: wanted_def below_def job_order_def)+
  note rows = this [unfolded job_order_def]
  have min: "take n (take (Suc n) xs) = take n xs" "n < length (take (Suc n) xs) \<longleftrightarrow> n < length xs" for n and xs :: "job list"
    by (auto simp: min_def)
  show ?thesis
    unfolding list_jobs_page_def job_filters_def Let_def rows newest_first_def rev_filter
    by (simp add: and_then_def page_size_def min job_order_def [abs_def] split: sum.split)
qed

text \<open>A client that asks for the next page until there is no more.\<close>

fun read_jobs ::
    "nat \<Rightarrow> job_status list \<Rightarrow> string option \<Rightarrow> string option \<Rightarrow> (time \<times> string) option \<Rightarrow> int \<Rightarrow> store \<Rightarrow> job list result option" where
  "read_jobs 0 statuses project_id harness_id cursor limit s = None"
| "read_jobs (Suc fuel) statuses project_id harness_id cursor limit s =
     (case list_jobs_page statuses project_id harness_id cursor limit s of
        Inl e \<Rightarrow> Some (Inl e)
      | Inr (rows, has_more) \<Rightarrow> if has_more
          then map_option (\<lambda>r. and_then r (\<lambda>js. Inr (rows @ js)))
                 (read_jobs fuel statuses project_id harness_id (Some (job_order (last rows))) limit s)
          else Some (Inr rows))"

lemma newest_first_sorted:
  "db_ok s \<Longrightarrow> sorted_wrt (\<lambda>a b. job_order b < job_order a) (newest_first statuses f s)"
proof -
  assume ok: "db_ok s"
  let ?xs = "order_by job_order (filter (wanted statuses f) (jobs s))"
  have "distinct (map j_id ?xs)"
    using db_ok_jobs [OF ok] by (simp add: order_by_def distinct_map distinct_filter inj_on_def)
  then have "distinct (map job_order ?xs)" by (auto simp: distinct_map inj_on_def job_order_def)
  moreover have "sorted (map job_order ?xs)" by simp
  ultimately have "sorted_wrt (<) (map job_order ?xs)" by (simp add: strict_sorted_iff)
  then show ?thesis by (simp add: newest_first_def sorted_wrt_rev sorted_wrt_map)
qed

lemma below_last:
  assumes "sorted_wrt (\<lambda>a b. job_order b < job_order a) (xs @ x # ys)"
  shows "filter (below (Some (job_order x))) (xs @ x # ys) = ys"
proof -
  have "filter (below (Some (job_order x))) xs = []"
    using assms by (fastforce simp: sorted_wrt_append below_def filter_empty_conv)
  moreover have "filter (below (Some (job_order x))) ys = ys"
    using assms by (auto simp: sorted_wrt_append below_def filter_id_conv)
  ultimately show ?thesis by (simp add: below_def)
qed

lemma read_jobs_from:
  assumes ok: "db_ok s" and f: "job_filters project_id harness_id = Inr f"
    and split: "newest_first statuses f s = seen @ rest" "filter (below cursor) (seen @ rest) = rest"
    and fuel: "length rest < fuel"
  shows "read_jobs fuel statuses project_id harness_id cursor limit s = Some (Inr rest)"
  using split fuel
proof (induction fuel arbitrary: seen rest cursor)
  case 0
  then show ?case by simp
next
  case (Suc fuel)
  let ?n = "page_size limit"
  have page: "list_jobs_page statuses project_id harness_id cursor limit s = Inr (take ?n rest, ?n < length rest)"
    using f Suc.prems(1,2) by (simp add: list_jobs_page_alt Let_def)
  show ?case
  proof (cases "?n < length rest")
    case False
    with page show ?thesis by simp
  next
    case True
    then obtain x where x: "take ?n rest = butlast (take ?n rest) @ [x]"
      using page_size_pos(1) [of limit] by (metis append_butlast_last_id length_greater_0_conv length_take min_less_iff_conj not_less0 take_eq_Nil)
    have last: "last (take ?n rest) = x" by (metis x last_snoc)
    have whole: "newest_first statuses f s = (seen @ butlast (take ?n rest)) @ x # drop ?n rest"
      using Suc.prems(1) x by (metis append.assoc append_Cons append_Nil append_take_drop_id)
    from below_last [OF newest_first_sorted [OF ok, of statuses f, unfolded whole]]
    have "filter (below (Some (job_order x))) ((seen @ take ?n rest) @ drop ?n rest) = drop ?n rest"
      using x by (metis append.assoc append_Cons append_Nil)
    moreover have "newest_first statuses f s = (seen @ take ?n rest) @ drop ?n rest" using Suc.prems(1) by simp
    moreover have "length (drop ?n rest) < fuel" using Suc.prems(3) True page_size_pos(1) [of limit] by simp
    ultimately have "read_jobs fuel statuses project_id harness_id (Some (job_order x)) limit s = Some (Inr (drop ?n rest))"
      using Suc.IH by blast
    with True page last show ?thesis by simp
  qed
qed

text \<open>
  C40. Job pages lose nothing and end. Every page holds between one and a hundred rows unless it is the
  last; and a client that follows the key of the last row of each page needs at most one request
  per matching job to read all matching jobs, newest first, each exactly once.
\<close>

theorem job_pages_complete:
  assumes "db_ok s" and "job_filters project_id harness_id = Inr f"
    and "length (newest_first statuses f s) < fuel"
  shows "read_jobs fuel statuses project_id harness_id None limit s = Some (Inr (newest_first statuses f s))
    \<and> set (newest_first statuses f s) = {j \<in> set (jobs s). wanted statuses f j}
    \<and> distinct (newest_first statuses f s)
    \<and> sorted_wrt (\<lambda>a b. job_order b < job_order a) (newest_first statuses f s)"
proof -
  have "sorted_wrt (\<lambda>a b. job_order b < job_order a) xs \<Longrightarrow> distinct xs" for xs by (induction xs) auto
  then have "distinct (newest_first statuses f s)" using newest_first_sorted [OF assms(1)] by blast
  moreover have "read_jobs fuel statuses project_id harness_id None limit s = Some (Inr (newest_first statuses f s))"
    using assms by (intro read_jobs_from [where seen = "[]"]) (simp_all add: below_def)
  ultimately show ?thesis
    using newest_first_sorted [OF assms(1)] by (auto simp: newest_first_def)
qed

definition three_jobs :: store where
  "three_jobs = empty_store\<lparr>jobs := [queued_job,
     queued_job\<lparr>j_id := ''job_2'', j_idempotency_key_hash := ''#2'', j_created_at := 20\<rparr>,
     queued_job\<lparr>j_id := ''job_3'', j_idempotency_key_hash := ''#3'', j_created_at := 20\<rparr>]\<rparr>"

theorem job_pages_complete_witness:
  "map_option (map_sum id (map j_id)) (read_jobs 4 [JobQueued] None None None 1 three_jobs)
     = Some (Inr [''job_3'', ''job_2'', ''job_1''])"
proof -
  have ok: "db_ok three_jobs" by code_simp
  have f: "job_filters None None = Inr (None, None)" by (simp add: job_filters_def)
  have "length (newest_first [JobQueued] (None, None) three_jobs) < 4" by code_simp
  moreover have "map j_id (newest_first [JobQueued] (None, None) three_jobs) = [''job_3'', ''job_2'', ''job_1'']" by code_simp
  ultimately show ?thesis using job_pages_complete [OF ok f] by simp
qed

end
