(* ===== verification/Spec2Isabelle.thy ===== *)
theory Spec2Isabelle
  imports System Title_Arbitration Redaction Job_Pages
begin

text \<open>
  The durable core of gigaloom (sources under \<open>src/src/gigaloom/\<close>): the SQLite coordination store
  that hands out work (\<open>runtime/\<close>), the session store that keeps the history of conversations
  and runs (\<open>sessions/\<close>), and the recovery pass that brings the two together.

  The parts and how they interact. Clients submit jobs; workers claim them, which creates leased
  attempts, renew the leases, and finish the attempts, which settles the job or schedules a retry;
  expired leases are recovered. Actions of an attempt are resolved by the permission policy, if need
  be through an approval request, its decision and a grant. Side effects are reserved under a token
  and completed once. Whatever ends a job enqueues an entry in the outbox inside the same
  transaction. The recovery pass repairs jobs from finished runs and drains the outbox into the run
  history. The session store holds sessions, messages, runs and events, answers bounded queries, and
  arbitrates who names a session.

  Theories. \<open>Prelude\<close>: results, texts, tables (\<open>upd_where\<close> is an UPDATE, \<open>row_by\<close> a keyed SELECT,
  \<open>order_by\<close> an ORDER BY). \<open>Json_Values\<close>, \<open>Models\<close>, \<open>Policy\<close>: JSON and redaction
  (\<open>core/redaction.py\<close>), \<open>runtime/models.py\<close>, \<open>repositories/\<close> helpers, \<open>runtime/policy.py\<close>.
  \<open>Coordination_Db\<close>: tables, constraints, triggers and immediate transactions (\<open>runtime/db/\<close>).
  \<open>Db_Invariant\<close>: the invariant \<open>db_ok\<close> of one state, the relation \<open>evolves\<close> of a state to a later
  one, and the locale \<open>coordination_op\<close> every operation is an interpretation of. \<open>Outbox\<close>, \<open>Jobs\<close>,
  \<open>Attempts\<close>, \<open>Claims\<close>, \<open>Workers\<close>, \<open>Approvals\<close>, \<open>Decisions\<close>, \<open>Side_Effects\<close>,
  \<open>Native_Processes\<close>: one repository of \<open>runtime/\<close> each; a method is a function from the store to its
  result and the store after it; \<open>claim_next_job\<close>, which searches and claims in separate
  transactions, takes what other connections commit before each of them (\<open>claim_turn\<close>). An exception is \<open>Inl\<close> of a constructor of \<open>error\<close>, and a body that
  raises is rolled back by \<open>transaction\<close>. \<open>Session_Models\<close>, \<open>Session_Titles\<close>, \<open>Session_Store\<close>: the
  records and dictionary forms of \<open>sessions/models.py\<close>, \<open>session_titles.py\<close>, and the in-memory store
  of \<open>sessions/store.py\<close>, \<open>queries.py\<close>, \<open>event_persistence.py\<close>, \<open>redaction.py\<close>. \<open>Run_History\<close>:
  the interface the recovery needs, as the locale \<open>run_history\<close>, interpreted by the session store.
  \<open>Reconcile\<close>: \<open>runtime/reconcile.py\<close> over the pair of both stores. \<open>Conversation\<close>:
  \<open>sessions/conversation.py\<close>. \<open>Title_Arbitration\<close>: the compare-and-swap loops of
  \<open>session_titles.py\<close>. \<open>Redaction\<close>, \<open>Job_Pages\<close>: what redaction and paged listing promise.
  \<open>System\<close>: the step relation over all operations. \<open>Samples\<close>: concrete rows for the witnesses.

  What the lemmas show. Each repository: its operations keep \<open>db_ok\<close> and evolve the state
  (\<open>op_legal\<close>), and what they do on every branch (exclusive claims, guarded transitions, settlement
  and retry, exactly-once side effects, single-use grants, hash chain, output window). Session
  store: round trips of the records, complete paging of events, the query index agrees with the
  projection of the conversation. Recovery: applying an entry is idempotent, and draining handles
  every entry without raising. System: every reachable state is well-formed and settled facts
  survive every schedule. A claim, the settling of a title and a recovery pass are stated under the
  interleavings the code allows: what the others commit in a window is an argument, restricted only
  to legal changes.

  Bounds and fuel. The claim loop makes at most \<open>CLAIM_MAX_CAS_RETRIES\<close> tries and the title loop
  \<open>CAS_ATTEMPTS\<close> turns, as the code does. The candidate search is a total
  function: every page moves its cursor past at least one job. \<open>read_tail\<close> and \<open>read_jobs\<close> are clients that
  follow pages; one more request than there are rows is enough for them, which their theorems
  prove.

  Time, identities, environment. Instants of the coordination store are microseconds, texts in the
  session store, where the code compares them as texts. Clock readings and fresh \<open>uuid4\<close> identities
  are arguments. Text redaction (regular expressions over the process environment), SHA-256 and the ISO text of
  an instant are the fields of \<open>env\<close>. A method that reads the clock twice for the columns of one row (a lease and its start)
  takes one reading here, and the pages of one candidate search read one snapshot. A row is a record, so a column cannot hold a value outside its type. Strings are
  8-bit character lists; \<open>strip\<close> and \<open>lower\<close> are those of ASCII text.

  Known defects that the theorems pin down are stated as theorems on the code as it is:
  \<open>late_recovery_reopens_succeeded_job\<close>, \<open>stale_candidate_overlaps_session\<close>,
  \<open>exhausted_claim_enqueues_nothing\<close>, \<open>heartbeat_worker_skips_revision\<close>,
  \<open>reconcile_fails_running_retry\<close>; the hypothesis \<open>marker_ok\<close> of
  \<open>recent_messages_follow_active_branch\<close> marks a place where two readers of a marker differ.

  Not modelled. The JSONL session store and its SQLite read indexes (file I/O behind the same
  contract), live stream brokers, schedules and workflows above the job store, session execution,
  provider protocols, native process control, integrations, projects and worktrees, review and
  diagnostics, the command line and the web interface. In the modelled files: \<open>*_to_dict\<close>
  projections of the runtime models, schema migrations, connection handling, and float values,
  which are opaque where a session title carries them.
\<close>

end
